theory Spec2Isabelle
  imports Complex_Main
begin

section \<open>Datapack record dependencies\<close>

text \<open>
  \<^verbatim>\<open>datapackDeployer.ts\<close>, lines 21 to 34. The dependency type is an intersection of a
  base shape with a union of two variants, discriminated on \<^verbatim>\<open>VlocityDataPackType\<close>.
  Each variant becomes a constructor; a property typed \<^verbatim>\<open>undefined\<close> in a variant reads
  as \<open>None\<close>. The index signature of the base shape (further properties of any type) is
  the association list \<open>extra\<close>.
\<close>

datatype VlocityDataPackDependencyType = VlocityMatchingKeyObject | VlocityLookupMatchingKeyObject

datatype DatapackRecordDependency =
    MatchingKeyDependency string string "(string \<times> string) list"
  | LookupKeyDependency string string "(string \<times> string) list"

fun VlocityRecordSObjectType :: "DatapackRecordDependency \<Rightarrow> string" where
  "VlocityRecordSObjectType (MatchingKeyDependency t k xs) = t"
| "VlocityRecordSObjectType (LookupKeyDependency t k xs) = t"

fun VlocityDataPackType :: "DatapackRecordDependency \<Rightarrow> VlocityDataPackDependencyType" where
  "VlocityDataPackType (MatchingKeyDependency t k xs) = VlocityMatchingKeyObject"
| "VlocityDataPackType (LookupKeyDependency t k xs) = VlocityLookupMatchingKeyObject"

fun VlocityMatchingRecordSourceKey :: "DatapackRecordDependency \<Rightarrow> string option" where
  "VlocityMatchingRecordSourceKey (MatchingKeyDependency t k xs) = Some k"
| "VlocityMatchingRecordSourceKey (LookupKeyDependency t k xs) = None"

fun VlocityLookupRecordSourceKey :: "DatapackRecordDependency \<Rightarrow> string option" where
  "VlocityLookupRecordSourceKey (MatchingKeyDependency t k xs) = None"
| "VlocityLookupRecordSourceKey (LookupKeyDependency t k xs) = Some k"

section \<open>Record batch executor\<close>

text \<open>
  Modelled from the spec: the class \<^verbatim>\<open>RecordBatch\<close> (imported by
  \<^verbatim>\<open>datapackDeployer.ts\<close> from the salesforce package) is not among the source files.
  Section 4.2 of the specification: the records of a group are split into chunks bounded
  by the chunk limit, one remote call is submitted per chunk, the remote interface
  returns one result per submitted record in the order submitted, a call rejected as a
  whole fails every record of its chunk with the chunk's message, and failed records are
  resubmitted in chunks of the retry chunk size, up to the maximal number of retries.
\<close>

datatype BatchResult = BatchSuccess string | BatchError string

text \<open>
  Modelled from the spec: splitting into chunks of at most \<open>k\<close> records. A limit of zero
  is no configuration of the executor; the model issues no call for it.
\<close>

function chunks :: "nat \<Rightarrow> 'a list \<Rightarrow> 'a list list" where
  "chunks k xs = (if k = 0 \<or> xs = [] then [] else take k xs # chunks k (drop k xs))"
  by pat_completeness auto
termination
  by (relation "measure (\<lambda>(k, xs). length xs)") auto

declare chunks.simps [simp del]

text \<open>
  Modelled from the spec: the options of the executor (section 6: the maximal number of
  retries is 1 and the retry chunk size 5 unless configured).
\<close>

record BatchOptions =
  chunkSize :: nat
  retryChunkSize :: nat
  maxRetries :: nat

text \<open>
  Modelled from the spec: an execution in progress, the results mapped to records so far
  and the remote calls issued so far, in order.
\<close>

record 'a Execution =
  yielded :: "('a \<times> BatchResult) list"
  issued :: "'a list list"

text \<open>
  Modelled from the spec: the answer of the remote interface to a call mapped to the
  records of the chunk. The interface rejects the whole call (\<open>Inl\<close>), which fails every
  record of the chunk with the message, or answers with a list of per-record results,
  which are paired with the records by position.
\<close>

definition mapResults :: "'a list \<Rightarrow> string + BatchResult list \<Rightarrow> ('a \<times> BatchResult) list" where
  "mapResults c answer =
     (case answer of
        Inl msg \<Rightarrow> map (\<lambda>r. (r, BatchError msg)) c
      | Inr results \<Rightarrow> zip c results)"

text \<open>
  Modelled from the spec: one remote call on a chunk. The remote interface is the
  parameter \<open>api\<close>. The call is issued and its results are yielded.
\<close>

definition submitChunk ::
  "('a list \<Rightarrow> string + BatchResult list) \<Rightarrow> 'a Execution \<Rightarrow> 'a list \<Rightarrow> 'a Execution" where
  "submitChunk api ex c =
     \<lparr> yielded = yielded ex @ mapResults c (api c), issued = issued ex @ [c] \<rparr>"

text \<open>Modelled from the spec: one pass over records, one remote call per chunk, in order.\<close>

definition submitAll ::
  "('a list \<Rightarrow> string + BatchResult list) \<Rightarrow> nat \<Rightarrow> 'a list \<Rightarrow> 'a Execution \<Rightarrow> 'a Execution" where
  "submitAll api k xs ex = foldl (submitChunk api) ex (chunks k xs)"

text \<open>Modelled from the spec: a record has failed when its result is an error.\<close>

definition isFailure :: "'a \<times> BatchResult \<Rightarrow> bool" where
  "isFailure p = (case snd p of BatchError msg \<Rightarrow> True | BatchSuccess i \<Rightarrow> False)"

text \<open>
  Modelled from the spec: the results of a resubmission take the place of the failed
  results, in order.
\<close>

fun mergeRetried :: "('a \<times> BatchResult) list \<Rightarrow> ('a \<times> BatchResult) list \<Rightarrow> ('a \<times> BatchResult) list" where
  "mergeRetried [] retried = []"
| "mergeRetried (p # ps) retried =
     (if isFailure p
      then (case retried of
              [] \<Rightarrow> p # mergeRetried ps []
            | q # qs \<Rightarrow> q # mergeRetried ps qs)
      else p # mergeRetried ps retried)"

text \<open>
  Modelled from the spec: one retry. The failed records, and only they, are resubmitted
  in chunks of the retry chunk size.
\<close>

definition resubmitFailed ::
  "nat \<Rightarrow> ('a list \<Rightarrow> string + BatchResult list) \<Rightarrow> 'a Execution \<Rightarrow> 'a Execution" where
  "resubmitFailed k api ex =
     (let again = submitAll api k (map fst (filter isFailure (yielded ex)))
                    \<lparr> yielded = [], issued = issued ex \<rparr>
      in \<lparr> yielded = mergeRetried (yielded ex) (yielded again), issued = issued again \<rparr>)"

text \<open>Modelled from the spec: the retries, made while retries are left and records have failed.\<close>

fun retryFailed ::
  "nat \<Rightarrow> nat \<Rightarrow> ('a list \<Rightarrow> string + BatchResult list) \<Rightarrow> 'a Execution \<Rightarrow> 'a Execution" where
  "retryFailed 0 k api ex = ex"
| "retryFailed (Suc n) k api ex =
     (if list_ex isFailure (yielded ex) then retryFailed n k api (resubmitFailed k api ex) else ex)"

text \<open>Modelled from the spec: the first pass of an execution, and the execution.\<close>

definition firstPass ::
  "BatchOptions \<Rightarrow> ('a list \<Rightarrow> string + BatchResult list) \<Rightarrow> 'a list \<Rightarrow> 'a Execution" where
  "firstPass opts api xs = submitAll api (chunkSize opts) xs \<lparr> yielded = [], issued = [] \<rparr>"

definition execute ::
  "BatchOptions \<Rightarrow> ('a list \<Rightarrow> string + BatchResult list) \<Rightarrow> 'a list \<Rightarrow> 'a Execution" where
  "execute opts api xs = retryFailed (maxRetries opts) (retryChunkSize opts) api (firstPass opts api xs)"


text \<open>
  Modelled from the spec: the contract of the remote interface (section 6), one result
  per submitted record.
\<close>

definition oneResultPerRecord :: "('a list \<Rightarrow> string + BatchResult list) \<Rightarrow> bool" where
  "oneResultPerRecord api = (\<forall>c. case api c of Inl msg \<Rightarrow> True | Inr rs \<Rightarrow> length rs = length c)"



section \<open>Lookup service: where clauses\<close>

text \<open>
  \<^verbatim>\<open>salesforceLookupService.ts\<close>. A thrown value is an \<open>error\<close>; a function that can
  throw returns \<open>error + result\<close>, with \<open>Inl\<close> the thrown error.
\<close>

datatype error = Error string | TypeError string | CustomError string error

text \<open>
  The values of a filter object: strings, other primitive values, arrays, and nested
  objects (an ordered list of entries, as \<^verbatim>\<open>Object.entries\<close> enumerates them).
\<close>

datatype FilterValue =
    VString string
  | VNumber int
  | VBoolean bool
  | VNull
  | VUndefined
  | VArray "FilterValue list"
  | VObject "(string \<times> FilterValue) list"

text \<open>The properties of a described field that the lookup service reads.\<close>

record Field =
  name :: string
  type :: string
  referenceTo :: "string list option"
  relationshipName :: "string option"

text \<open>
  The collaborators of the lookup service whose code is not among the source files are
  parameters: the schema service (\<^verbatim>\<open>describeSObjectFieldPath\<close>, \<^verbatim>\<open>getSObjectFields\<close>,
  \<^verbatim>\<open>toSalesforceField\<close>, \<^verbatim>\<open>describeSObject\<close>, of which only the name of the described
  type is read), the query service (\<^verbatim>\<open>formatFieldValue\<close>, \<^verbatim>\<open>query\<close>) and the utility
  functions \<^verbatim>\<open>isSalesforceId\<close> and \<^verbatim>\<open>joinLimit\<close>.
\<close>

record 'r LookupEnv =
  describeSObjectFieldPath :: "string \<Rightarrow> string \<Rightarrow> error + Field list"
  getSObjectFields :: "string \<Rightarrow> error + string list"
  toSalesforceField :: "string \<Rightarrow> string \<Rightarrow> error + string option"
  describeSObject :: "string \<Rightarrow> error + string"
  formatFieldValue :: "FilterValue \<Rightarrow> Field \<Rightarrow> string"
  query :: "string \<Rightarrow> error + 'r list"
  isSalesforceId :: "string \<Rightarrow> bool"
  joinLimit :: "string list \<Rightarrow> int \<Rightarrow> string \<Rightarrow> string list"

text \<open>\<^verbatim>\<open>String.prototype.startsWith\<close> and \<^verbatim>\<open>Array.prototype.join\<close>.\<close>

definition startsWith :: "string \<Rightarrow> string \<Rightarrow> bool" where
  "startsWith s p = (take (length p) s = p)"

fun join :: "string list \<Rightarrow> string \<Rightarrow> string" where
  "join [] sep = []"
| "join [x] sep = x"
| "join (x # y # ys) sep = x @ sep @ join (y # ys) sep"

text \<open>
  Lines 137 to 158 of \<^verbatim>\<open>createWhereClause\<close>: the comparison operator read from the value,
  and the value with the operator prefix removed.
\<close>

definition inferOperator :: "Field \<Rightarrow> FilterValue \<Rightarrow> string \<times> FilterValue" where
  "inferOperator salesforceField v =
     (case v of
        VString s \<Rightarrow>
          (if startsWith s ''!='' then (''!='', VString (drop 2 s))
           else if startsWith s ''>'' then (''>'', VString (drop 1 s))
           else if startsWith s ''<'' then (''<'', VString (drop 1 s))
           else if startsWith s ''~'' then (''like'', VString (drop 1 s))
           else (''='', v))
      | VArray xs \<Rightarrow>
          (if type salesforceField = ''multipicklist'' then (''includes'', v) else (''in'', v))
      | _ \<Rightarrow> (''='', v))"

text \<open>
  Lines 160 to 164: a string that is a Salesforce id, compared on a field of type
  \<^verbatim>\<open>string\<close>, is replaced by the pair of its full and its 15 character form.
\<close>

definition matchSalesforceId ::
  "'r LookupEnv \<Rightarrow> Field \<Rightarrow> string \<times> FilterValue \<Rightarrow> string \<times> FilterValue" where
  "matchSalesforceId env salesforceField ov =
     (case ov of
        (operator, VString s) \<Rightarrow>
          (if isSalesforceId env s \<and> type salesforceField = ''string''
           then (if operator = ''='' then ''in'' else ''not in'', VArray [VString s, VString (take 15 s)])
           else ov)
      | _ \<Rightarrow> ov)"

definition comparison :: "'r LookupEnv \<Rightarrow> Field \<Rightarrow> FilterValue \<Rightarrow> string \<times> FilterValue" where
  "comparison env salesforceField v = matchSalesforceId env salesforceField (inferOperator salesforceField v)"

text \<open>
  The utility \<^verbatim>\<open>transform\<close> is called with a function on keys; it is read from that call
  as renaming the keys of the object and keeping the values.
\<close>

definition transform :: "(string \<times> FilterValue) list \<Rightarrow> (string \<Rightarrow> string) \<Rightarrow> (string \<times> FilterValue) list" where
  "transform obj f = map (\<lambda>(k, v). (f k, v)) obj"

fun valueSize :: "FilterValue \<Rightarrow> nat" where
  "valueSize (VArray xs) = Suc (sum_list (map valueSize xs))"
| "valueSize (VObject kvs) = Suc (sum_list (map (\<lambda>kv. valueSize (snd kv)) kvs))"
| "valueSize v = 1"

definition entriesSize :: "(string \<times> FilterValue) list \<Rightarrow> nat" where
  "entriesSize kvs = sum_list (map (\<lambda>kv. valueSize (snd kv)) kvs)"

text \<open>
  The loop of \<^verbatim>\<open>createWhereClause\<close> over the entries of the filter object, returning the
  list \<^verbatim>\<open>lookupFilters\<close>. An empty field path leaves \<^verbatim>\<open>salesforceField\<close> undefined, and
  reading its name throws.
\<close>

function lookupFilters ::
  "'r LookupEnv \<Rightarrow> string \<Rightarrow> (string \<times> FilterValue) list \<Rightarrow> error + string list" where
  "lookupFilters env t [] = Inr []"
| "lookupFilters env t ((fieldPath, v) # rest) =
     (case describeSObjectFieldPath env t fieldPath of
        Inl e \<Rightarrow> Inl e
      | Inr salesforceFields \<Rightarrow>
          (case rev salesforceFields of
             [] \<Rightarrow> Inl (TypeError ''Cannot read properties of undefined'')
           | salesforceField # parents \<Rightarrow>
               (let fieldName =
                      join (map (\<lambda>f. case relationshipName f of None \<Rightarrow> [] | Some r \<Rightarrow> r) (rev parents)
                            @ [name salesforceField]) ''.''
                in case v of
                     VObject obj \<Rightarrow>
                       (if type salesforceField \<noteq> ''reference'' \<or> referenceTo salesforceField = None
                           \<or> relationshipName salesforceField = None
                           \<or> relationshipName salesforceField = Some []
                        then Inl (Error (''Object type set for non-reference field '' @ fieldPath
                                          @ '' on type '' @ t))
                        else (case lookupFilters env t (transform obj (\<lambda>key. fieldName @ ''.'' @ key)) of
                                Inl e \<Rightarrow> Inl e
                              | Inr nested \<Rightarrow>
                                  (case lookupFilters env t rest of
                                     Inl e \<Rightarrow> Inl e
                                   | Inr others \<Rightarrow> Inr (join nested '' and '' # others))))
                   | _ \<Rightarrow>
                       (case comparison env salesforceField v of
                          (operator, v') \<Rightarrow>
                            (case lookupFilters env t rest of
                               Inl e \<Rightarrow> Inl e
                             | Inr others \<Rightarrow>
                                 Inr ((fieldName @ '' '' @ operator @ '' ''
                                        @ formatFieldValue env v' salesforceField) # others))))))"
  by pat_completeness auto
termination
proof (relation "measure (\<lambda>(env, t, kvs). entriesSize kvs)")
  show "wf (measure (\<lambda>(env, t, kvs). entriesSize kvs))" by simp
qed (auto simp: entriesSize_def transform_def comp_def case_prod_unfold)

definition createWhereClause ::
  "'r LookupEnv \<Rightarrow> string \<Rightarrow> (string \<times> FilterValue) list \<Rightarrow> error + string" where
  "createWhereClause env t values =
     (case lookupFilters env t values of Inl e \<Rightarrow> Inl e | Inr fs \<Rightarrow> Inr (join fs '' and ''))"
section \<open>Lookup service: queries\<close>

text \<open>
  A string is blank when \<^verbatim>\<open>trim()\<close> leaves nothing of it. White space is the ASCII white
  space (space, tab, line feed, vertical tab, form feed, carriage return).
\<close>

definition isWhitespace :: "char \<Rightarrow> bool" where
  "isWhitespace c = (c \<in> set [CHR '' '', CHR 0x09, CHR 0x0A, CHR 0x0B, CHR 0x0C, CHR 0x0D])"

definition isBlank :: "string \<Rightarrow> bool" where
  "isBlank s = list_all isWhitespace s"

text \<open>The decimal digits of a number, as a template literal prints it.\<close>

function decimal :: "nat \<Rightarrow> string" where
  "decimal n = (if n < 10 then [''0123456789'' ! n] else decimal (n div 10) @ [''0123456789'' ! (n mod 10)])"
  by pat_completeness auto
termination
  by (relation "measure id") auto

declare decimal.simps [simp del]

text \<open>Adding to a \<^verbatim>\<open>Set\<close>, which keeps the order of first insertion.\<close>

definition setAdd :: "'a list \<Rightarrow> 'a \<Rightarrow> 'a list" where
  "setAdd xs x = (if x \<in> set xs then xs else xs @ [x])"

text \<open>The loop of \<^verbatim>\<open>lookupWhere\<close> over an explicit list of fields to select.\<close>

fun resolveSelectFields ::
  "'r LookupEnv \<Rightarrow> string \<Rightarrow> string list \<Rightarrow> string list \<Rightarrow> error + string list" where
  "resolveSelectFields env t [] selected = Inr selected"
| "resolveSelectFields env t (field # rest) selected =
     (case toSalesforceField env t field of
        Inl e \<Rightarrow> Inl e
      | Inr None \<Rightarrow> Inl (Error (''Unable to resolve lookup field '' @ field @ '' on type '' @ t))
      | Inr (Some fieldPath) \<Rightarrow> resolveSelectFields env t rest (setAdd selected fieldPath))"

text \<open>
  \<^verbatim>\<open>lookupWhere\<close>. The fields to select are \<open>None\<close> for \<^verbatim>\<open>'all'\<close>; the where condition
  is \<open>None\<close> when undefined; a limit of \<open>None\<close> or zero is no limit.
\<close>

definition lookupWhere ::
  "'r LookupEnv \<Rightarrow> string \<Rightarrow> string option \<Rightarrow> string list option \<Rightarrow> nat option \<Rightarrow> error + 'r list" where
  "lookupWhere env t whereCondition selectFields limit =
     (case (case selectFields of
              None \<Rightarrow> (case getSObjectFields env t of
                          Inl e \<Rightarrow> Inl e
                        | Inr all \<Rightarrow> Inr (foldl setAdd [''Id''] all))
            | Some fs \<Rightarrow> resolveSelectFields env t fs [''Id'']) of
        Inl e \<Rightarrow> Inl e
      | Inr selected \<Rightarrow>
          (case describeSObject env t of
             Inl e \<Rightarrow> Inl e
           | Inr realType \<Rightarrow>
               (let limitClause = (case limit of
                                     None \<Rightarrow> []
                                   | Some n \<Rightarrow> if n = 0 then [] else '' limit '' @ decimal n);
                    whereClause = (case whereCondition of
                                     None \<Rightarrow> []
                                   | Some w \<Rightarrow> if isBlank w then [] else '' where '' @ w)
                in query env (''select '' @ join selected '','' @ '' from '' @ realType
                                @ whereClause @ limitClause))))"

text \<open>
  A filter passed to \<^verbatim>\<open>lookup\<close> is a where condition given as a string or a filter
  object; \<^verbatim>\<open>lookup\<close> takes the list of them (\<^verbatim>\<open>asArray(filter)\<close>).
\<close>

datatype LookupFilter = WhereString string | FilterObject "(string \<times> FilterValue) list"

fun whereClauses :: "'r LookupEnv \<Rightarrow> string \<Rightarrow> LookupFilter list \<Rightarrow> error + string list" where
  "whereClauses env t [] = Inr []"
| "whereClauses env t (f # fs) =
     (case (case f of WhereString s \<Rightarrow> Inr s | FilterObject values \<Rightarrow> createWhereClause env t values) of
        Inl e \<Rightarrow> Inl e
      | Inr w \<Rightarrow> (case whereClauses env t fs of Inl e \<Rightarrow> Inl e | Inr ws \<Rightarrow> Inr (w # ws)))"

text \<open>
  The loop of \<^verbatim>\<open>lookup\<close>: one query for the condition taken from the front of the chunks,
  repeated while chunks remain. The cancellation token is read at the start of each
  iteration; \<open>cancelled i\<close> is its state at iteration \<open>i\<close>.
\<close>

fun lookupLoop ::
  "'r LookupEnv \<Rightarrow> (nat \<Rightarrow> bool) \<Rightarrow> nat \<Rightarrow> string \<Rightarrow> string option \<Rightarrow> string list
     \<Rightarrow> string list option \<Rightarrow> nat option \<Rightarrow> 'r list \<Rightarrow> error + 'r list" where
  "lookupLoop env cancelled i t w [] selectFields limit results =
     (if cancelled i then Inr results
      else case lookupWhere env t w selectFields limit of
             Inl e \<Rightarrow> Inl e
           | Inr rows \<Rightarrow> Inr (results @ rows))"
| "lookupLoop env cancelled i t w (w' # rest) selectFields limit results =
     (if cancelled i then Inr results
      else case lookupWhere env t w selectFields limit of
             Inl e \<Rightarrow> Inl e
           | Inr rows \<Rightarrow> lookupLoop env cancelled (Suc i) t (Some w') rest selectFields limit (results @ rows))"

definition lookup ::
  "'r LookupEnv \<Rightarrow> (nat \<Rightarrow> bool) \<Rightarrow> string \<Rightarrow> LookupFilter list \<Rightarrow> string list option
     \<Rightarrow> nat option \<Rightarrow> error + 'r list" where
  "lookup env cancelled t filters lookupFields limit =
     (case whereClauses env t filters of
        Inl e \<Rightarrow> Inl e
      | Inr ws \<Rightarrow>
          (let lookupFieldLen = (case lookupFields of
                                   None \<Rightarrow> 1000
                                 | Some fs \<Rightarrow> int (sum_list (map length fs)));
               filterChunks = joinLimit env (map (\<lambda>f. ''('' @ f @ '')'') (filter (\<lambda>f. \<not> isBlank f) ws))
                                (8000 - lookupFieldLen) '' or ''
           in case filterChunks of
                [] \<Rightarrow> lookupLoop env cancelled 0 t None [] lookupFields limit []
              | w # rest \<Rightarrow> lookupLoop env cancelled 0 t (Some w) rest lookupFields limit []))"

definition lookupSingle ::
  "'r LookupEnv \<Rightarrow> (nat \<Rightarrow> bool) \<Rightarrow> string \<Rightarrow> LookupFilter list \<Rightarrow> string list option
     \<Rightarrow> error + 'r option" where
  "lookupSingle env cancelled t filters lookupFields =
     (case lookup env cancelled t filters lookupFields (Some 1) of
        Inl e \<Rightarrow> Inl e
      | Inr results \<Rightarrow> Inr (case results of [] \<Rightarrow> None | r # rs \<Rightarrow> Some r))"

text \<open>
  The operator as the documentation of \<^verbatim>\<open>lookup\<close> and the specification word it: read
  from the prefix of a string value, \<^verbatim>\<open>in\<close> or \<^verbatim>\<open>includes\<close> for an array, equals for
  every other value.
\<close>

definition documentedOperator :: "Field \<Rightarrow> FilterValue \<Rightarrow> string" where
  "documentedOperator salesforceField v =
     (case v of
        VString s \<Rightarrow>
          (if startsWith s ''!='' then ''!=''
           else if startsWith s ''>'' then ''>''
           else if startsWith s ''<'' then ''<''
           else if startsWith s ''~'' then ''like''
           else ''='')
      | VArray xs \<Rightarrow> (if type salesforceField = ''multipicklist'' then ''includes'' else ''in'')
      | _ \<Rightarrow> ''='')"

definition strippedValue :: "FilterValue \<Rightarrow> FilterValue" where
  "strippedValue v =
     (case v of
        VString s \<Rightarrow>
          (if startsWith s ''!='' then VString (drop 2 s)
           else if startsWith s ''>'' \<or> startsWith s ''<'' \<or> startsWith s ''~'' then VString (drop 1 s)
           else v)
      | _ \<Rightarrow> v)"

definition comparesSalesforceId :: "'r LookupEnv \<Rightarrow> Field \<Rightarrow> FilterValue \<Rightarrow> bool" where
  "comparesSalesforceId env salesforceField v =
     (case strippedValue v of
        VString s \<Rightarrow> isSalesforceId env s \<and> type salesforceField = ''string''
      | _ \<Rightarrow> False)"
text \<open>
  A small org for evaluating the lookup service: every field path names a direct field
  of type \<^verbatim>\<open>string\<close>, ids are the strings of 15 or 18 characters, string values are
  quoted, all conditions fit one query, and the org holds one account named ACME.
\<close>

definition exampleField :: "string \<Rightarrow> Field" where
  "exampleField p = \<lparr> name = p, type = ''string'', referenceTo = None, relationshipName = None \<rparr>"

fun exampleFormat :: "FilterValue \<Rightarrow> Field \<Rightarrow> string" where
  "exampleFormat (VString s) f = [CHR 0x27] @ s @ [CHR 0x27]"
| "exampleFormat (VArray xs) f = ''('' @ join (map (\<lambda>x. exampleFormat x f) xs) '','' @ '')''"
| "exampleFormat v f = ''null''"

definition exampleEnv :: "string LookupEnv" where
  "exampleEnv = \<lparr>
     describeSObjectFieldPath = (\<lambda>t p. Inr [exampleField p]),
     getSObjectFields = (\<lambda>t. Inr [''Id'', ''Name'']),
     toSalesforceField = (\<lambda>t f. Inr (Some f)),
     describeSObject = (\<lambda>t. Inr t),
     formatFieldValue = exampleFormat,
     query = (\<lambda>q. if q = ''select Id,Name from Account where (Name = '' @ [CHR 0x27] @ ''ACME'' @ [CHR 0x27] @ '') limit 1''
                    then Inr [''001000000000001AAA''] else Inr []),
     isSalesforceId = (\<lambda>s. length s = 15 \<or> length s = 18),
     joinLimit = (\<lambda>xs n sep. if xs = [] then [] else [join xs sep]) \<rparr>"

text \<open>A nested object value, which \<^verbatim>\<open>createWhereClause\<close> descends into.\<close>

definition isObject :: "FilterValue \<Rightarrow> bool" where
  "isObject v = (case v of VObject obj \<Rightarrow> True | _ \<Rightarrow> False)"

section \<open>Deployment records, groups and deployment specs\<close>

text \<open>
  Modelled from the spec: the classes \<^verbatim>\<open>DatapackDeploymentRecord\<close>,
  \<^verbatim>\<open>DatapackDeploymentRecordGroup\<close>, \<^verbatim>\<open>DatapackDeploymentEvent\<close> and \<^verbatim>\<open>VlocityDatapack\<close>
  are imported by \<^verbatim>\<open>datapackDeployer.ts\<close> and are not among the source files. Section 3 of
  the specification gives a record its source key, its object type, its field values,
  its status, its record id and its ordered warnings and errors. The deployer reads the
  attributes \<^verbatim>\<open>datapackType\<close>, \<^verbatim>\<open>normalizedSObjectType\<close>, \<^verbatim>\<open>sobjectType\<close>, \<^verbatim>\<open>isDeployed\<close>,
  \<^verbatim>\<open>recordId\<close> and \<^verbatim>\<open>values\<close> (here \<open>fieldValues\<close>) of a record and calls \<^verbatim>\<open>addWarning\<close> and \<^verbatim>\<open>setFailed\<close> on it.

  A record object is shared between the deployment, the event payloads and the hooks.
  Its identifying attributes do not change and travel with every reference to it
  (\<open>DatapackDeploymentRecord\<close>); its mutable part (\<open>RecordState\<close>) lives in a store
  indexed by the source key, which the specification requires to be unique within a
  deployment.
\<close>

datatype DeploymentStatus = Pending | Ready | InProgress | Deployed | Failed | Skipped

record DatapackDeploymentRecord =
  sourceKey :: string
  sobjectType :: string
  normalizedSObjectType :: string
  datapackType :: string

record RecordState =
  status :: DeploymentStatus
  recordId :: "string option"
  fieldValues :: "(string \<times> FilterValue) list"
  warnings :: "string list"
  errors :: "string list"

type_synonym RecordStore = "string \<Rightarrow> RecordState"

text \<open>Modelled from the spec: a record is deployed when its status is \<open>Deployed\<close>.\<close>

definition isDeployed :: "RecordState \<Rightarrow> bool" where
  "isDeployed r = (status r = Deployed)"

text \<open>Modelled from the spec: a warning is appended to the ordered warnings of the record.\<close>

definition addWarning :: "string \<Rightarrow> RecordState \<Rightarrow> RecordState" where
  "addWarning message r = r\<lparr>warnings := warnings r @ [message]\<rparr>"

text \<open>
  Modelled from the spec: failing a record sets its status to \<open>Failed\<close> and appends the
  message to its ordered errors.
\<close>

definition setFailed :: "string \<Rightarrow> RecordState \<Rightarrow> RecordState" where
  "setFailed message r = r\<lparr>status := Failed, errors := errors r @ [message]\<rparr>"

text \<open>
  Modelled from the spec: a datapack, of which the deployer reads the header file, the
  datapack type and the object type.
\<close>

record VlocityDatapack =
  dp_headerFile :: string
  dp_datapackType :: string
  dp_sobjectType :: string

text \<open>
  Modelled from the spec: a record group has a key and an ordered list of member records.
  The deployer also reads the datapack type of a group; the group carries it as an
  attribute, and a group built from the key and some of the records of a group keeps
  the datapack type of that group.
\<close>

record DatapackDeploymentRecordGroup =
  key :: string
  group_datapackType :: string
  records :: "DatapackDeploymentRecord list"

text \<open>
  The first argument of a spec function: an array of records, a datapack, or a
  deployment event holding record groups.
\<close>

datatype SpecParam =
    RecordArray "DatapackDeploymentRecord list"
  | Datapack VlocityDatapack
  | DeploymentEvent "DatapackDeploymentRecordGroup list"

text \<open>
  A spec function (hook) is code outside the deployer. It receives its parameters, may
  update records and may throw.
\<close>

type_synonym SpecFunction = "SpecParam list \<Rightarrow> RecordStore \<Rightarrow> error option \<times> RecordStore"

text \<open>
  A deployment spec maps the name of an event to its function for that event, if it has
  one (\<^verbatim>\<open>spec?.[eventType]\<close>). The name of the spec identifies it in the record of
  invocations.
\<close>

record DatapackDeploymentSpec =
  specName :: string
  specFunctions :: "string \<Rightarrow> SpecFunction option"

text \<open>
  A filter pattern is a string or a regular expression. Of a regular expression only its
  \<^verbatim>\<open>test\<close> is used, a predicate on strings (for an expression without the global or
  sticky flag, whose test keeps no state).
\<close>

datatype FilterPattern = StringPattern string | RegExpPattern "string \<Rightarrow> bool"

record DatapackFilter =
  recordFilter :: "FilterPattern option"
  datapackFilter :: "FilterPattern option"

text \<open>\<^verbatim>\<open>DeploymentSpecExecuteOptions\<close>; an absent \<^verbatim>\<open>ignoreErrors\<close> reads as false.\<close>

record SpecExecuteOptions =
  args :: "SpecParam list"
  ignoreErrors :: bool
  errorSeverity :: "string option"

text \<open>
  The options of a deployment that the deployer and the orchestration read, and the
  deployment as far as the event handlers read it.
\<close>

record DatapackDeploymentOptions =
  disableTriggers :: bool
  lookupFailedDependencies :: bool
  allowUnresolvedDependencies :: bool
  continueOnError :: bool

record DatapackDeployment =
  options :: DatapackDeploymentOptions
  isCancelled :: bool

section \<open>The target org and the state of the deployer\<close>

text \<open>
  The org holds the custom setting that switches all triggers: \<open>None\<close> when the setting
  record does not exist, otherwise the value of its \<^verbatim>\<open>IsTriggerOn__c\<close> field. The clock
  counts the remote operations so far, so that the outcome of a remote operation can
  depend on when it is made.
\<close>

record Org =
  triggerSetup :: "bool option"
  clock :: nat

datatype LogLevel = LogError | LogInfo | LogVerbose

text \<open>
  The state the deployer works on: the records, the org, the messages written to the
  logger, and the invocations of spec functions made so far (name of the spec, event,
  parameters passed). The invocations are recorded by the model only; the code keeps no
  such list.
\<close>

record DeployerState =
  store :: RecordStore
  org :: Org
  logged :: "(LogLevel \<times> string) list"
  invocations :: "(string \<times> string \<times> SpecParam list) list"

text \<open>A row of org data returned by a lookup, and a result of the corrective update.\<close>

record OrgRow =
  rowId :: string
  rowValues :: "(string \<times> FilterValue) list"

record UpdateResult =
  resultRecordId :: string
  resultError :: "string option"

text \<open>
  The collaborators of the deployer are parameters. \<open>removeNamespacePrefix\<close> is the
  utility of that name; \<open>createRecords\<close> is the record factory, returning the new records
  with their initial state; \<open>describeSObjectField\<close> returns the name of the field, or
  nothing when the object type has no such field; \<open>triggerSetupFails n\<close> tells whether a
  remote operation on the trigger setting made at time \<open>n\<close> throws; \<open>lookupById\<close> is the
  lookup service at time \<open>n\<close>, given the record ids as the deployer passes them (the id of
  a record that has none is undefined, \<open>None\<close>); \<open>executeBatch\<close> is the execution of a
  record batch of updates (object type, record id, fields) at time \<open>n\<close>, which yields
  results and may throw after them.
\<close>

record DeployerEnv =
  removeNamespacePrefix :: "string \<Rightarrow> string"
  createRecords :: "VlocityDatapack \<Rightarrow> error + (DatapackDeploymentRecord \<times> RecordState) list"
  describeSObjectField :: "string \<Rightarrow> string \<Rightarrow> string option"
  triggerSetupFails :: "nat \<Rightarrow> bool"
  lookupById :: "nat \<Rightarrow> string option list \<Rightarrow> string list \<Rightarrow> error + OrgRow list"
  executeBatch :: "nat \<Rightarrow> (string \<times> string \<times> (string \<times> FilterValue) list) list
                     \<Rightarrow> UpdateResult list \<times> error option"

text \<open>The message of a thrown error (\<^verbatim>\<open>getErrorMessage\<close>).\<close>

fun getErrorMessage :: "error \<Rightarrow> string" where
  "getErrorMessage (Error m) = m"
| "getErrorMessage (TypeError m) = m"
| "getErrorMessage (CustomError m e) = m"

section \<open>Filtering of spec parameters\<close>

text \<open>
  \<^verbatim>\<open>String.prototype.toLowerCase\<close>. The characters of a string are those with the
  codes 0 to 255. Of these the letters with a lower case form are \<^verbatim>\<open>A\<close> to \<^verbatim>\<open>Z\<close> and the
  codes 192 to 222 without the multiplication sign 215; the lower case form of a letter
  has the code of the letter plus 32. Every other character is kept.
\<close>

definition toLowerChar :: "char \<Rightarrow> char" where
  "toLowerChar c =
     (case map_of (zip ''ABCDEFGHIJKLMNOPQRSTUVWXYZ'' ''abcdefghijklmnopqrstuvwxyz'') c of
        Some l \<Rightarrow> l
      | None \<Rightarrow>
          (if (192::nat) \<le> of_char c \<and> of_char c \<le> (222::nat) \<and> of_char c \<noteq> (215::nat)
           then char_of (of_char c + (32::nat)) else c))"

definition toLowerCase :: "string \<Rightarrow> string" where
  "toLowerCase s = map toLowerChar s"

text \<open>\<^verbatim>\<open>isMatch\<close> of \<^verbatim>\<open>evalFilter\<close>, line 417.\<close>

fun isMatch :: "FilterPattern \<Rightarrow> string \<Rightarrow> bool" where
  "isMatch (StringPattern a) b = (toLowerCase a = toLowerCase b)"
| "isMatch (RegExpPattern a) b = a b"

text \<open>
  \<^verbatim>\<open>!!filter.datapackFilter && isMatch(filter.datapackFilter, b)\<close>: an absent pattern
  and the empty string are falsy and match nothing.
\<close>

fun matchesPattern :: "FilterPattern option \<Rightarrow> string \<Rightarrow> bool" where
  "matchesPattern None b = False"
| "matchesPattern (Some (StringPattern a)) b = (a \<noteq> [] \<and> isMatch (StringPattern a) b)"
| "matchesPattern (Some (RegExpPattern a)) b = isMatch (RegExpPattern a) b"

text \<open>\<^verbatim>\<open>evalFilter\<close>, lines 416 to 433, by the class of its argument.\<close>

definition evalFilterRecord :: "DatapackFilter \<Rightarrow> DatapackDeploymentRecord \<Rightarrow> bool" where
  "evalFilterRecord specFilter arg =
     (matchesPattern (datapackFilter specFilter) (datapackType arg)
      \<or> matchesPattern (recordFilter specFilter) (normalizedSObjectType arg))"

definition evalFilterDatapack :: "DeployerEnv \<Rightarrow> DatapackFilter \<Rightarrow> VlocityDatapack \<Rightarrow> bool" where
  "evalFilterDatapack env specFilter arg =
     (matchesPattern (datapackFilter specFilter) (dp_datapackType arg)
      \<or> matchesPattern (recordFilter specFilter) (removeNamespacePrefix env (dp_sobjectType arg)))"

definition evalFilterGroup :: "DatapackFilter \<Rightarrow> DatapackDeploymentRecordGroup \<Rightarrow> bool" where
  "evalFilterGroup specFilter arg = matchesPattern (datapackFilter specFilter) (group_datapackType arg)"

text \<open>\<^verbatim>\<open>filterApplicableRecords\<close>, lines 407 to 414, on an array and on a group.\<close>

definition filterApplicableRecords ::
  "DatapackFilter \<Rightarrow> DatapackDeploymentRecord list \<Rightarrow> DatapackDeploymentRecord list" where
  "filterApplicableRecords specFilter arg = filter (evalFilterRecord specFilter) arg"

definition filterApplicableGroup ::
  "DatapackFilter \<Rightarrow> DatapackDeploymentRecordGroup \<Rightarrow> DatapackDeploymentRecordGroup" where
  "filterApplicableGroup specFilter arg =
     \<lparr> key = key arg, group_datapackType = group_datapackType arg,
       records = filterApplicableRecords specFilter (records arg) \<rparr>"

text \<open>
  Lines 345 to 369 of \<^verbatim>\<open>runSpecFunction\<close>: the parameters narrowed to the filter of the
  spec. \<open>Inr None\<close> is the \<^verbatim>\<open>continue\<close> that skips the spec. With no argument at all,
  reading \<^verbatim>\<open>recordGroups\<close> of the missing first argument throws.
\<close>

definition narrowParams ::
  "DeployerEnv \<Rightarrow> DatapackFilter \<Rightarrow> SpecParam list \<Rightarrow> error + SpecParam list option" where
  "narrowParams env specFilter specParams =
     (case specParams of
        [] \<Rightarrow> Inl (TypeError ''Cannot read properties of undefined'')
      | RecordArray rs # others \<Rightarrow>
          (let narrowed = filterApplicableRecords specFilter rs
           in if narrowed = [] then Inr None else Inr (Some (RecordArray narrowed # others)))
      | Datapack dp # others \<Rightarrow>
          (if \<not> evalFilterDatapack env specFilter dp then Inr None else Inr (Some specParams))
      | DeploymentEvent groups # others \<Rightarrow>
          (let recordGroups =
                 filter (\<lambda>group. records group \<noteq> [])
                   (map (\<lambda>group. if evalFilterGroup specFilter group then group
                                  else filterApplicableGroup specFilter group) groups)
           in if recordGroups = [] then Inr None
              else Inr (Some (DeploymentEvent recordGroups # others))))"
section \<open>Dispatch of spec functions\<close>

text \<open>The elements of a list in the order of their first occurrence, as a \<^verbatim>\<open>Set\<close> keeps them.\<close>

definition distinctFirst :: "'a list \<Rightarrow> 'a list" where
  "distinctFirst xs = rev (remdups (rev xs))"

text \<open>
  \<^verbatim>\<open>getAffectedRecords\<close>, lines 393 to 405. Modelled from the spec: the records of a
  deployment event are the records of its groups.
\<close>

definition affectedOf :: "SpecParam \<Rightarrow> DatapackDeploymentRecord list" where
  "affectedOf param =
     (case param of
        DeploymentEvent groups \<Rightarrow> concat (map records groups)
      | RecordArray rs \<Rightarrow> rs
      | Datapack dp \<Rightarrow> [])"

definition getAffectedRecords :: "SpecParam list \<Rightarrow> DatapackDeploymentRecord list" where
  "getAffectedRecords parameters = distinctFirst (concat (map affectedOf parameters))"

text \<open>\<^verbatim>\<open>handleSpecFunctionError\<close>, lines 382 to 391.\<close>

definition specErrorMark :: "string \<Rightarrow> error \<Rightarrow> SpecExecuteOptions \<Rightarrow> RecordState \<Rightarrow> RecordState" where
  "specErrorMark eventType err opts =
     (if errorSeverity opts = Some ''warn''
      then addWarning (eventType @ '' spec error: '' @ getErrorMessage err)
      else if errorSeverity opts = Some ''error''
      then setFailed (eventType @ '' spec error: '' @ getErrorMessage err)
      else id)"

definition handleSpecFunctionError ::
  "string \<Rightarrow> error \<Rightarrow> SpecExecuteOptions \<Rightarrow> DeployerState \<Rightarrow> DeployerState" where
  "handleSpecFunctionError eventType err opts st =
     st\<lparr> logged := logged st @ [(LogError, ''Spec function failed to execute: '' @ getErrorMessage err)],
         store := foldl (\<lambda>s r. s(sourceKey r := specErrorMark eventType err opts (s (sourceKey r))))
                    (store st) (getAffectedRecords (args opts)) \<rparr>"

text \<open>
  \<^verbatim>\<open>runSpecFunction\<close>, lines 342 to 380, over the registered specs in their order. The
  result is the error thrown to the caller, if any, and the state reached.
\<close>

fun runSpecFunction ::
  "DeployerEnv \<Rightarrow> string \<Rightarrow> SpecExecuteOptions \<Rightarrow> (DatapackDeploymentSpec \<times> DatapackFilter) list
     \<Rightarrow> DeployerState \<Rightarrow> error option \<times> DeployerState" where
  "runSpecFunction env eventType opts [] st = (None, st)"
| "runSpecFunction env eventType opts ((spec, specFilter) # specs) st =
     (case specFunctions spec eventType of
        None \<Rightarrow> runSpecFunction env eventType opts specs st
      | Some specFunction \<Rightarrow>
          (case narrowParams env specFilter (args opts) of
             Inl e \<Rightarrow> (Some e, st)
           | Inr None \<Rightarrow> runSpecFunction env eventType opts specs st
           | Inr (Some specParams) \<Rightarrow>
               (let outcome = specFunction specParams (store st);
                    st' = st\<lparr> store := snd outcome,
                              invocations := invocations st @ [(specName spec, eventType, specParams)] \<rparr>
                in case fst outcome of
                     None \<Rightarrow> runSpecFunction env eventType opts specs st'
                   | Some err \<Rightarrow>
                       (if \<not> ignoreErrors opts then (Some err, st')
                        else runSpecFunction env eventType opts specs
                               (handleSpecFunctionError eventType err opts st')))))"

section \<open>Trigger state and verification of deployed field data\<close>

text \<open>
  \<^verbatim>\<open>setVlocityTriggerState\<close>, lines 201 to 219. The connection, the two describe calls and
  the lookup of the setting record are one remote read; the insert or update is a remote
  write, made when the setting record is missing or holds another value.
\<close>

definition setVlocityTriggerState ::
  "DeployerEnv \<Rightarrow> bool \<Rightarrow> DeployerState \<Rightarrow> error option \<times> DeployerState" where
  "setVlocityTriggerState env newTriggerState st =
     (let target = org st;
          afterRead = target\<lparr>clock := Suc (clock target)\<rparr>;
          afterWrite = afterRead\<lparr>clock := Suc (clock afterRead)\<rparr>;
          message = (LogVerbose, ''Update CustomSetting TriggerSetup__c.IsTriggerOn__c to ''
                       @ (if newTriggerState then ''true'' else ''false''))
      in if triggerSetupFails env (clock target)
         then (Some (Error ''lookup of the trigger setup failed''), st\<lparr>org := afterRead\<rparr>)
         else if triggerSetup target = Some newTriggerState
         then (None, st\<lparr>org := afterRead, logged := logged st @ [message]\<rparr>)
         else if triggerSetupFails env (clock afterRead)
         then (Some (Error ''update of the trigger setup failed''), st\<lparr>org := afterWrite\<rparr>)
         else (None, st\<lparr>org := afterWrite\<lparr>triggerSetup := Some newTriggerState\<rparr>,
                        logged := logged st @ [message]\<rparr>))"

text \<open>
  \<^verbatim>\<open>groupBy\<close> of the utilities, as \<^verbatim>\<open>Object.entries\<close> enumerates its result: the keys in
  the order of their first occurrence, each with its elements in order.
\<close>

definition groupBy :: "('a \<Rightarrow> 'k) \<Rightarrow> 'a list \<Rightarrow> ('k \<times> 'a list) list" where
  "groupBy f xs = map (\<lambda>k. (k, filter (\<lambda>x. f x = k) xs)) (distinctFirst (map f xs))"

text \<open>Reading a property of an object: a missing property reads as undefined.\<close>

definition property :: "(string \<times> FilterValue) list \<Rightarrow> string \<Rightarrow> FilterValue" where
  "property obj p = (case map_of obj p of None \<Rightarrow> VUndefined | Some v \<Rightarrow> v)"

text \<open>
  Lines 241 and 248: \<^verbatim>\<open>deployedData\<close> maps a record id to the last record of the type
  deployed under it, and the expected value of a field is the value of that record
  (undefined when the org returns an id that no record was deployed under).
\<close>

definition expectedValue ::
  "RecordStore \<Rightarrow> DatapackDeploymentRecord list \<Rightarrow> string \<Rightarrow> string \<Rightarrow> FilterValue" where
  "expectedValue s deployed resultId field =
     (case map_of (rev (map (\<lambda>r. (recordId (s (sourceKey r)), r)) deployed)) (Some resultId) of
        None \<Rightarrow> VUndefined
      | Some r \<Rightarrow> property (fieldValues (s (sourceKey r))) field)"

text \<open>
  Lines 245 to 249: the fields of a row of org data whose value differs from the deployed
  value, each with the value expected. Values are compared as primitive values.
\<close>

definition mismatchedFieldData ::
  "RecordStore \<Rightarrow> DatapackDeploymentRecord list \<Rightarrow> string list \<Rightarrow> OrgRow \<Rightarrow> (string \<times> FilterValue) list" where
  "mismatchedFieldData s deployed fieldList result =
     map (\<lambda>field. (field, expectedValue s deployed (rowId result) field))
       (filter (\<lambda>field. property (rowValues result) field \<noteq> expectedValue s deployed (rowId result) field)
          fieldList)"

text \<open>Lines 244 to 257: the updates added to the record batch for the rows of one type.\<close>

definition correctiveUpdates ::
  "RecordStore \<Rightarrow> string \<Rightarrow> DatapackDeploymentRecord list \<Rightarrow> string list \<Rightarrow> OrgRow list
     \<Rightarrow> (string \<times> string \<times> (string \<times> FilterValue) list) list" where
  "correctiveUpdates s t deployed fieldList orgData =
     map (\<lambda>result. (t, rowId result, mismatchedFieldData s deployed fieldList result))
       (filter (\<lambda>result. mismatchedFieldData s deployed fieldList result \<noteq> []) orgData)"

text \<open>
  The loop of lines 231 to 258 over the deployed records grouped by type. The result is
  the error thrown by a lookup, if any, the state, and the record batch.
\<close>

fun collectUpdates ::
  "DeployerEnv \<Rightarrow> string list \<Rightarrow> (string \<times> DatapackDeploymentRecord list) list \<Rightarrow> DeployerState
     \<Rightarrow> (string \<times> string \<times> (string \<times> FilterValue) list) list
     \<Rightarrow> error option \<times> DeployerState \<times> (string \<times> string \<times> (string \<times> FilterValue) list) list" where
  "collectUpdates env fieldNames [] st recordBatch = (None, st, recordBatch)"
| "collectUpdates env fieldNames ((t, deployed) # groups) st recordBatch =
     (let fieldList = List.map_filter (describeSObjectField env t) fieldNames
      in if fieldList = [] then collectUpdates env fieldNames groups st recordBatch
         else
           (let st1 = st\<lparr> logged := logged st @ [(LogVerbose, ''Verifying org-data after deployment on '' @ t)],
                          org := (org st)\<lparr>clock := Suc (clock (org st))\<rparr> \<rparr>
            in case lookupById env (clock (org st))
                      (distinctFirst (map (\<lambda>r. recordId (store st (sourceKey r))) deployed)) fieldList of
                 Inl e \<Rightarrow> (Some e, st1, recordBatch)
               | Inr orgData \<Rightarrow>
                   collectUpdates env fieldNames groups st1
                     (recordBatch @ correctiveUpdates (store st) t deployed fieldList orgData)))"

text \<open>The messages logged for the results of the corrective update, lines 266 to 270.\<close>

definition updateFailures :: "UpdateResult list \<Rightarrow> (LogLevel \<times> string) list" where
  "updateFailures results =
     List.map_filter (\<lambda>result. case resultError result of
                        None \<Rightarrow> None
                      | Some e \<Rightarrow> Some (LogError, ''Field update failed for '' @ resultRecordId result
                                                     @ '' -- '' @ e)) results"

text \<open>
  \<^verbatim>\<open>verifyDeployedFieldData\<close>, lines 227 to 275. The \<^verbatim>\<open>finally\<close> block runs whether or not
  the execution of the batch throws; an error thrown in it replaces the error of the
  execution.
\<close>

definition verifyDeployedFieldData ::
  "DeployerEnv \<Rightarrow> DatapackDeploymentRecord list \<Rightarrow> string list \<Rightarrow> DeployerState
     \<Rightarrow> error option \<times> DeployerState" where
  "verifyDeployedFieldData env recs fieldNames st =
     (let deployedRecordsByType =
            groupBy sobjectType (filter (\<lambda>r. isDeployed (store st (sourceKey r))) recs)
      in case collectUpdates env fieldNames deployedRecordsByType st [] of
           (Some e, st1, recordBatch) \<Rightarrow> (Some e, st1)
         | (None, st1, recordBatch) \<Rightarrow>
             (if recordBatch = [] then (None, st1)
              else
                (let st2 = st1\<lparr>logged := logged st1 @ [(LogInfo, ''Updating records with mismatching values'')]\<rparr>
                 in case setVlocityTriggerState env False st2 of
                      (Some e, st3) \<Rightarrow> (Some e, st3)
                    | (None, st3) \<Rightarrow>
                        (let executed = executeBatch env (clock (org st3)) recordBatch;
                             st4 = st3\<lparr> org := (org st3)\<lparr>clock := Suc (clock (org st3))\<rparr>,
                                        logged := logged st3 @ updateFailures (fst executed) \<rparr>
                         in case setVlocityTriggerState env True st4 of
                              (Some e, st5) \<Rightarrow> (Some e, st5)
                            | (None, st5) \<Rightarrow> (snd executed, st5)))))"

section \<open>Event handlers of the deployer\<close>

text \<open>\<^verbatim>\<open>beforeDeployRecord\<close>, lines 277 to 289.\<close>

definition beforeDeployRecord ::
  "DeployerEnv \<Rightarrow> (DatapackDeploymentSpec \<times> DatapackFilter) list \<Rightarrow> DatapackDeployment
     \<Rightarrow> DatapackDeploymentRecord list \<Rightarrow> DeployerState \<Rightarrow> error option \<times> DeployerState" where
  "beforeDeployRecord env specs deployment datapackRecords st =
     (case (if disableTriggers (options deployment) then setVlocityTriggerState env False st
            else (None, st)) of
        (Some e, st1) \<Rightarrow> (Some e, st1)
      | (None, st1) \<Rightarrow>
          (if isCancelled deployment then (None, st1)
           else runSpecFunction env ''beforeDeployRecord''
                  \<lparr> args = [RecordArray datapackRecords], ignoreErrors = True,
                    errorSeverity = Some ''error'' \<rparr> specs st1))"

text \<open>\<^verbatim>\<open>afterDeployRecord\<close>, lines 291 to 304.\<close>

definition afterDeployRecord ::
  "DeployerEnv \<Rightarrow> (DatapackDeploymentSpec \<times> DatapackFilter) list \<Rightarrow> DatapackDeployment
     \<Rightarrow> DatapackDeploymentRecord list \<Rightarrow> DeployerState \<Rightarrow> error option \<times> DeployerState" where
  "afterDeployRecord env specs deployment datapackRecords st =
     (case (if disableTriggers (options deployment) then setVlocityTriggerState env True st
            else (None, st)) of
        (Some e, st1) \<Rightarrow> (Some e, st1)
      | (None, st1) \<Rightarrow>
          (if isCancelled deployment then (None, st1)
           else case verifyDeployedFieldData env datapackRecords
                       [''GlobalKey__c'', ''GlobalKey2__c'', ''GlobalGroupKey__c''] st1 of
                  (Some e, st2) \<Rightarrow> (Some e, st2)
                | (None, st2) \<Rightarrow>
                    runSpecFunction env ''afterDeployRecord''
                      \<lparr> args = [RecordArray datapackRecords], ignoreErrors = True,
                        errorSeverity = Some ''warn'' \<rparr> specs st2))"

text \<open>\<^verbatim>\<open>beforeDeployRecordGroup\<close>, lines 310 to 319.\<close>

definition beforeDeployRecordGroup ::
  "DeployerEnv \<Rightarrow> (DatapackDeploymentSpec \<times> DatapackFilter) list \<Rightarrow> DatapackDeployment
     \<Rightarrow> DatapackDeploymentRecordGroup list \<Rightarrow> DeployerState \<Rightarrow> error option \<times> DeployerState" where
  "beforeDeployRecordGroup env specs deployment datapackGroups st =
     (if isCancelled deployment then (None, st)
      else runSpecFunction env ''beforeDeploy''
             \<lparr> args = [DeploymentEvent datapackGroups], ignoreErrors = True,
               errorSeverity = Some ''error'' \<rparr> specs st)"

text \<open>\<^verbatim>\<open>afterDeployRecordGroup\<close>, lines 325 to 334.\<close>

definition afterDeployRecordGroup ::
  "DeployerEnv \<Rightarrow> (DatapackDeploymentSpec \<times> DatapackFilter) list \<Rightarrow> DatapackDeployment
     \<Rightarrow> DatapackDeploymentRecordGroup list \<Rightarrow> DeployerState \<Rightarrow> error option \<times> DeployerState" where
  "afterDeployRecordGroup env specs deployment datapackGroups st =
     (if isCancelled deployment then (None, st)
      else runSpecFunction env ''afterDeploy''
             \<lparr> args = [DeploymentEvent datapackGroups], ignoreErrors = True,
               errorSeverity = Some ''warn'' \<rparr> specs st)"

text \<open>
  The state right after a spec function has returned or thrown: the records as the
  function left them, and the invocation recorded.
\<close>

definition afterInvocation ::
  "DatapackDeploymentSpec \<Rightarrow> string \<Rightarrow> SpecParam list \<Rightarrow> SpecFunction \<Rightarrow> DeployerState \<Rightarrow> DeployerState" where
  "afterInvocation spec eventType specParams specFunction st =
     st\<lparr> store := snd (specFunction specParams (store st)),
         invocations := invocations st @ [(specName spec, eventType, specParams)] \<rparr>"

text \<open>
  The invocations a dispatch has to make: of the registered specs, in their order, those
  that have a function for the event and for which narrowing the parameters to their
  filter leaves something, each with its function and the narrowed parameters.
\<close>

definition applicableHooks ::
  "DeployerEnv \<Rightarrow> string \<Rightarrow> SpecExecuteOptions \<Rightarrow> (DatapackDeploymentSpec \<times> DatapackFilter) list
     \<Rightarrow> (DatapackDeploymentSpec \<times> SpecFunction \<times> SpecParam list) list" where
  "applicableHooks env ev opts specs =
     List.map_filter
       (\<lambda>sf. case specFunctions (fst sf) ev of
               None \<Rightarrow> None
             | Some fn \<Rightarrow>
                 (case narrowParams env (snd sf) (args opts) of
                    Inl e \<Rightarrow> None
                  | Inr None \<Rightarrow> None
                  | Inr (Some ps) \<Rightarrow> Some (fst sf, fn, ps))) specs"

text \<open>
  Making these invocations one after the other: each function is applied to the records
  as the invocations before it left them; an error it throws is handled and the next
  invocation made when errors are ignored, and ends the dispatch otherwise.
\<close>

fun dispatchHooks ::
  "string \<Rightarrow> SpecExecuteOptions \<Rightarrow> (DatapackDeploymentSpec \<times> SpecFunction \<times> SpecParam list) list
     \<Rightarrow> DeployerState \<Rightarrow> error option \<times> DeployerState" where
  "dispatchHooks ev opts [] st = (None, st)"
| "dispatchHooks ev opts ((spec, fn, ps) # hooks) st =
     (case fst (fn ps (store st)) of
        None \<Rightarrow> dispatchHooks ev opts hooks (afterInvocation spec ev ps fn st)
      | Some err \<Rightarrow>
          (if ignoreErrors opts
           then dispatchHooks ev opts hooks (handleSpecFunctionError ev err opts (afterInvocation spec ev ps fn st))
           else (Some err, afterInvocation spec ev ps fn st)))"

section \<open>Creating a deployment\<close>

text \<open>
  The body of the \<^verbatim>\<open>try\<close> block of \<^verbatim>\<open>createDeployment\<close>, lines 168 to 171, for one
  datapack: the result is the thrown error or the records to add to the deployment. The
  records made by the record factory enter the store with their initial state.
\<close>

definition loadDatapack ::
  "DeployerEnv \<Rightarrow> (DatapackDeploymentSpec \<times> DatapackFilter) list \<Rightarrow> DatapackDeploymentOptions
     \<Rightarrow> VlocityDatapack \<Rightarrow> DeployerState \<Rightarrow> (error + DatapackDeploymentRecord list) \<times> DeployerState" where
  "loadDatapack env specs opts datapack st =
     (case runSpecFunction env ''preprocess''
             \<lparr> args = [Datapack datapack], ignoreErrors = False, errorSeverity = None \<rparr> specs st of
        (Some e, st1) \<Rightarrow> (Inl e, st1)
      | (None, st1) \<Rightarrow>
          (case createRecords env datapack of
             Inl e \<Rightarrow> (Inl e, st1)
           | Inr created \<Rightarrow>
               (let st2 = st1\<lparr>store := foldl (\<lambda>s (r, initial). s(sourceKey r := initial)) (store st1) created\<rparr>
                in case runSpecFunction env ''afterRecordConversion''
                          \<lparr> args = [RecordArray (map fst created)], ignoreErrors = continueOnError opts,
                            errorSeverity = Some ''error'' \<rparr> specs st2 of
                     (Some e, st3) \<Rightarrow> (Inl e, st3)
                   | (None, st3) \<Rightarrow> (Inr (map fst created), st3))))"

text \<open>
  The loop of \<^verbatim>\<open>createDeployment\<close> over the datapacks, lines 163 to 179, taken in their
  order; the overlap of up to eight conversions by \<^verbatim>\<open>forEachAsyncParallel\<close> is not
  modelled. \<open>cancelled i\<close> is the state of the cancellation token when datapack \<open>i\<close> is
  reached, and \<open>added\<close> are the records added to the deployment so far.
\<close>

fun convertDatapacks ::
  "DeployerEnv \<Rightarrow> (DatapackDeploymentSpec \<times> DatapackFilter) list \<Rightarrow> DatapackDeploymentOptions
     \<Rightarrow> (nat \<Rightarrow> bool) \<Rightarrow> nat \<Rightarrow> VlocityDatapack list \<Rightarrow> DatapackDeploymentRecord list
     \<Rightarrow> DeployerState \<Rightarrow> (error + DatapackDeploymentRecord list) \<times> DeployerState" where
  "convertDatapacks env specs opts cancelled i [] added st = (Inr added, st)"
| "convertDatapacks env specs opts cancelled i (datapack # datapacks) added st =
     (if cancelled i then convertDatapacks env specs opts cancelled (Suc i) datapacks added st
      else case loadDatapack env specs opts datapack st of
             (Inr created, st1) \<Rightarrow>
               convertDatapacks env specs opts cancelled (Suc i) datapacks (added @ created) st1
           | (Inl err, st1) \<Rightarrow>
               (let errorMessage = ''Error while loading Datapack '' @ [CHR 0x27] @ dp_headerFile datapack
                                     @ [CHR 0x27] @ '' -- '' @ getErrorMessage err
                in if \<not> continueOnError opts then (Inl (CustomError errorMessage err), st1)
                   else convertDatapacks env specs opts cancelled (Suc i) datapacks added
                          (st1\<lparr>logged := logged st1 @ [(LogError, errorMessage)]\<rparr>)))"

text \<open>
  \<^verbatim>\<open>createDeployment\<close>, lines 151 to 183: the error raised, or the records of the
  deployment created.
\<close>

definition createDeployment ::
  "DeployerEnv \<Rightarrow> (DatapackDeploymentSpec \<times> DatapackFilter) list \<Rightarrow> DatapackDeploymentOptions
     \<Rightarrow> (nat \<Rightarrow> bool) \<Rightarrow> VlocityDatapack list \<Rightarrow> DeployerState
     \<Rightarrow> (error + DatapackDeploymentRecord list) \<times> DeployerState" where
  "createDeployment env specs opts cancelled datapacks st =
     (case convertDatapacks env specs opts cancelled 0 datapacks []
             (st\<lparr>logged := logged st @ [(LogInfo, ''Converting datapacks to Salesforce records...'')]\<rparr>) of
        (Inl e, st1) \<Rightarrow> (Inl e, st1)
      | (Inr added, st1) \<Rightarrow>
          (Inr added, st1\<lparr>logged := logged st1 @ [(LogInfo, ''Converted datapacks to records'')]\<rparr>))"

section \<open>The run of a deployment\<close>

text \<open>
  Modelled from the spec: the class \<^verbatim>\<open>DatapackDeployment\<close>, whose \<^verbatim>\<open>start\<close> runs the
  deployment and emits the events that the handlers above are registered for, is not
  among the source files. Section 4.3 of the specification: each batch of records is
  announced by a \<^verbatim>\<open>beforeDeployRecord\<close> event and followed by an \<^verbatim>\<open>afterDeployRecord\<close>
  event, and the trigger flag is restored in a cleanup that is guaranteed to run, also
  when the batch throws. The batch itself is a parameter: a step on the state that may
  throw. The two flags of a wave are the cancellation state of the deployment at the
  event before and at the event after the batch.
\<close>

record DeploymentWave =
  cancelledBefore :: bool
  cancelledAfter :: bool
  waveRecords :: "DatapackDeploymentRecord list"
  waveBatch :: "DeployerState \<Rightarrow> error option \<times> DeployerState"

definition deployRecords ::
  "DeployerEnv \<Rightarrow> (DatapackDeploymentSpec \<times> DatapackFilter) list \<Rightarrow> DatapackDeploymentOptions
     \<Rightarrow> DeploymentWave \<Rightarrow> DeployerState \<Rightarrow> error option \<times> DeployerState" where
  "deployRecords env specs opts wave st =
     (case beforeDeployRecord env specs \<lparr>options = opts, isCancelled = cancelledBefore wave\<rparr>
             (waveRecords wave) st of
        (Some e, st1) \<Rightarrow> (Some e, st1)
      | (None, st1) \<Rightarrow>
          (case waveBatch wave st1 of
             (thrown, st2) \<Rightarrow>
               (case afterDeployRecord env specs \<lparr>options = opts, isCancelled = cancelledAfter wave\<rparr>
                       (waveRecords wave) st2 of
                  (Some e, st3) \<Rightarrow> (Some e, st3)
                | (None, st3) \<Rightarrow> (thrown, st3))))"

text \<open>Modelled from the spec: the run deploys wave after wave and stops at a thrown error.\<close>

fun startDeployment ::
  "DeployerEnv \<Rightarrow> (DatapackDeploymentSpec \<times> DatapackFilter) list \<Rightarrow> DatapackDeploymentOptions
     \<Rightarrow> DeploymentWave list \<Rightarrow> DeployerState \<Rightarrow> error option \<times> DeployerState" where
  "startDeployment env specs opts [] st = (None, st)"
| "startDeployment env specs opts (wave # waves) st =
     (case deployRecords env specs opts wave st of
        (Some e, st1) \<Rightarrow> (Some e, st1)
      | (None, st1) \<Rightarrow> startDeployment env specs opts waves st1)"
section \<open>An example deployment\<close>

text \<open>
  Records, groups, specs and an org for evaluating the deployer: an account and a
  contact, each in a group of its datapack type; a spec filtered to the datapack type
  Account whose functions return; a spec for all records whose functions throw; an org
  whose remote operations succeed, that reports a changed global key for the record with
  id 001 and rejects the corrective update of it.
\<close>

definition accountRecord :: DatapackDeploymentRecord where
  "accountRecord = \<lparr> sourceKey = ''a1'', sobjectType = ''Account'',
     normalizedSObjectType = ''Account'', datapackType = ''Account'' \<rparr>"

definition contactRecord :: DatapackDeploymentRecord where
  "contactRecord = \<lparr> sourceKey = ''c1'', sobjectType = ''Contact'',
     normalizedSObjectType = ''Contact'', datapackType = ''Contact'' \<rparr>"

definition accountGroup :: DatapackDeploymentRecordGroup where
  "accountGroup = \<lparr> key = ''Account/a1'', group_datapackType = ''Account'', records = [accountRecord] \<rparr>"

definition contactGroup :: DatapackDeploymentRecordGroup where
  "contactGroup = \<lparr> key = ''Contact/c1'', group_datapackType = ''Contact'', records = [contactRecord] \<rparr>"

definition accountFilter :: DatapackFilter where
  "accountFilter = \<lparr> recordFilter = None, datapackFilter = Some (StringPattern ''Account'') \<rparr>"

definition anyRecordFilter :: DatapackFilter where
  "anyRecordFilter = \<lparr> recordFilter = Some (RegExpPattern (\<lambda>s. True)), datapackFilter = None \<rparr>"

text \<open>
  A filter with the datapack filter Account and a record filter besides, and a group of
  datapack type Contact that holds an account record besides its contact record.
\<close>

definition accountOrContactFilter :: DatapackFilter where
  "accountOrContactFilter =
     \<lparr> recordFilter = Some (StringPattern ''Contact''), datapackFilter = Some (StringPattern ''Account'') \<rparr>"

definition mixedGroup :: DatapackDeploymentRecordGroup where
  "mixedGroup = \<lparr> key = ''Contact/c1'', group_datapackType = ''Contact'',
     records = [contactRecord, accountRecord] \<rparr>"

text \<open>A spec whose function fails the record with the source key \<open>c1\<close> and returns.\<close>

definition markingSpec :: DatapackDeploymentSpec where
  "markingSpec = \<lparr> specName = ''marking'',
     specFunctions = (\<lambda>ev. Some (\<lambda>ps s. (None, s(''c1'' := setFailed ''marked'' (s ''c1''))))) \<rparr>"

definition returningSpec :: DatapackDeploymentSpec where
  "returningSpec = \<lparr> specName = ''returning'', specFunctions = (\<lambda>ev. Some (\<lambda>ps s. (None, s))) \<rparr>"

definition throwingSpec :: DatapackDeploymentSpec where
  "throwingSpec = \<lparr> specName = ''throwing'',
     specFunctions = (\<lambda>ev. Some (\<lambda>ps s. (Some (Error ''boom''), s))) \<rparr>"

definition pendingRecord :: RecordState where
  "pendingRecord = \<lparr> status = Pending, recordId = None, fieldValues = [], warnings = [], errors = [] \<rparr>"

definition deployedAccount :: RecordState where
  "deployedAccount = \<lparr> status = Deployed, recordId = Some ''001'',
     fieldValues = [(''GlobalKey__c'', VString ''key-1'')], warnings = [], errors = [] \<rparr>"

definition exampleState :: DeployerState where
  "exampleState = \<lparr> store = (\<lambda>k. pendingRecord), org = \<lparr> triggerSetup = Some True, clock = 0 \<rparr>,
     logged = [], invocations = [] \<rparr>"

definition deployedState :: DeployerState where
  "deployedState = \<lparr> store = (\<lambda>k. if k = ''a1'' then deployedAccount else pendingRecord),
     org = \<lparr> triggerSetup = Some False, clock = 0 \<rparr>, logged = [], invocations = [] \<rparr>"

definition exampleDeployerEnv :: DeployerEnv where
  "exampleDeployerEnv = \<lparr>
     removeNamespacePrefix = (\<lambda>s. s),
     createRecords = (\<lambda>dp. if dp_headerFile dp = ''bad.json'' then Inl (Error ''invalid datapack'')
                            else Inr [(accountRecord, pendingRecord)]),
     describeSObjectField = (\<lambda>t f. if f = ''GlobalKey__c'' then Some f else None),
     triggerSetupFails = (\<lambda>n. False),
     lookupById = (\<lambda>n ids fs. Inr [\<lparr> rowId = ''001'', rowValues = [(''GlobalKey__c'', VString ''changed'')] \<rparr>]),
     executeBatch = (\<lambda>n b. (map (\<lambda>u. \<lparr> resultRecordId = fst (snd u), resultError = Some ''locked'' \<rparr>) b, None)) \<rparr>"

text \<open>
  A spec function is confined when it leaves every record unchanged that is not among
  the records of its parameters.
\<close>

definition confinedFunction :: "SpecFunction \<Rightarrow> bool" where
  "confinedFunction fn =
     (\<forall>ps s k. k \<notin> sourceKey ` set (getAffectedRecords ps) \<longrightarrow> snd (fn ps s) k = s k)"

definition confinedSpecs :: "string \<Rightarrow> (DatapackDeploymentSpec \<times> DatapackFilter) list \<Rightarrow> bool" where
  "confinedSpecs ev specs =
     list_all (\<lambda>sf. case specFunctions (fst sf) ev of None \<Rightarrow> True | Some fn \<Rightarrow> confinedFunction fn) specs"

text \<open>The message of the error raised or logged for a datapack, line 173.\<close>

definition loadErrorMessage :: "VlocityDatapack \<Rightarrow> error \<Rightarrow> string" where
  "loadErrorMessage datapack err =
     ''Error while loading Datapack '' @ [CHR 0x27] @ dp_headerFile datapack @ [CHR 0x27]
       @ '' -- '' @ getErrorMessage err"

text \<open>The records the record factory makes of a datapack; none when the conversion throws.\<close>

definition convertedRecords :: "DeployerEnv \<Rightarrow> VlocityDatapack \<Rightarrow> DatapackDeploymentRecord list" where
  "convertedRecords env datapack =
     (case createRecords env datapack of Inl e \<Rightarrow> [] | Inr created \<Rightarrow> map fst created)"

definition preprocessOptions :: "VlocityDatapack \<Rightarrow> SpecExecuteOptions" where
  "preprocessOptions datapack = \<lparr> args = [Datapack datapack], ignoreErrors = False, errorSeverity = None \<rparr>"

definition goodDatapack :: VlocityDatapack where
  "goodDatapack = \<lparr> dp_headerFile = ''good.json'', dp_datapackType = ''Account'', dp_sobjectType = ''Account'' \<rparr>"

definition badDatapack :: VlocityDatapack where
  "badDatapack = \<lparr> dp_headerFile = ''bad.json'', dp_datapackType = ''Account'', dp_sobjectType = ''Account'' \<rparr>"

definition strictOptions :: DatapackDeploymentOptions where
  "strictOptions = \<lparr> disableTriggers = False, lookupFailedDependencies = False,
     allowUnresolvedDependencies = False, continueOnError = False \<rparr>"

definition lenientOptions :: DatapackDeploymentOptions where
  "lenientOptions = strictOptions\<lparr>continueOnError := True\<rparr>"

text \<open>A cancelled deployment with the trigger option set, for evaluating the handlers.\<close>

definition cancelledDeployment :: DatapackDeployment where
  "cancelledDeployment = \<lparr> options = strictOptions\<lparr>disableTriggers := True\<rparr>, isCancelled = True \<rparr>"

text \<open>A spec function keeps the status when it changes the status of no record.\<close>

definition keepsStatus :: "SpecFunction \<Rightarrow> bool" where
  "keepsStatus fn = (\<forall>ps s k. status (snd (fn ps s) k) = status (s k))"

definition statusKeepingSpecs :: "string \<Rightarrow> (DatapackDeploymentSpec \<times> DatapackFilter) list \<Rightarrow> bool" where
  "statusKeepingSpecs ev specs =
     list_all (\<lambda>sf. case specFunctions (fst sf) ev of None \<Rightarrow> True | Some fn \<Rightarrow> keepsStatus fn) specs"

text \<open>The deployed records of an event grouped by object type, line 228.\<close>

definition deployedRecordsByType ::
  "DeployerState \<Rightarrow> DatapackDeploymentRecord list \<Rightarrow> (string \<times> DatapackDeploymentRecord list) list" where
  "deployedRecordsByType st recs =
     groupBy sobjectType (filter (\<lambda>r. isDeployed (store st (sourceKey r))) recs)"

text \<open>
  An org in which the execution of a record batch is rejected as a whole: it yields no
  result and throws. And the same org holding the deployed value, so that the verification
  finds no mismatch.
\<close>

definition rejectingBatchEnv :: DeployerEnv where
  "rejectingBatchEnv =
     exampleDeployerEnv\<lparr> executeBatch := (\<lambda>n b. ([], Some (Error ''connection lost''))) \<rparr>"

definition matchingOrgEnv :: DeployerEnv where
  "matchingOrgEnv =
     rejectingBatchEnv\<lparr> lookupById :=
       (\<lambda>n ids fs. Inr [\<lparr> rowId = ''001'', rowValues = [(''GlobalKey__c'', VString ''key-1'')] \<rparr>]) \<rparr>"

text \<open>A wave whose batch throws, for evaluating the run.\<close>

definition throwingWave :: DeploymentWave where
  "throwingWave = \<lparr> cancelledBefore = False, cancelledAfter = False, waveRecords = [accountRecord],
     waveBatch = (\<lambda>st. (Some (Error ''connection lost''), st)) \<rparr>"

section \<open>The orchestration of a deployment\<close>

text \<open>
  Modelled from the spec: the orchestrator and the dependency graph (the class
  \<^verbatim>\<open>DatapackDeployment\<close>) are not among the source files. Sections 3, 4.3 and 4.4 of the
  specification: a record carries its source key and its dependencies; a record is ready
  when every entry of its dependency set is deployed or is a lookup dependency that was
  resolved; ready records are submitted together, each result marks its record deployed
  or failed; records that depend by matching key on a failed or skipped record are
  skipped; the loop goes on while records get resolved and the deployment is not
  cancelled. A matching key that names no record of the deployment is left to a lookup
  (section 4.1). The options are those documented in \<^verbatim>\<open>DatapackDeploymentOptions\<close>:
  \<^verbatim>\<open>lookupFailedDependencies\<close> resolves a failed dependency by a lookup of existing org
  data, \<^verbatim>\<open>allowUnresolvedDependencies\<close> deploys a record without resolving a dependency
  that cannot be resolved. The detection of cycles by the graph builder is not
  modelled: the records of a cycle never become ready.
\<close>

record DeploymentRecord =
  recordKey :: string
  dependencies :: "DatapackRecordDependency list"

type_synonym StatusMap = "string \<Rightarrow> DeploymentStatus"

text \<open>
  Modelled from the spec: the remote system as the orchestrator sees it. \<open>deploys k\<close>
  tells whether the remote call accepts the record with source key \<open>k\<close>, and
  \<open>lookupResolves k\<close> whether a lookup of the key \<open>k\<close> finds a record in the org.
\<close>

record OrchestratorEnv =
  deploys :: "string \<Rightarrow> bool"
  lookupResolves :: "string \<Rightarrow> bool"


definition recordKeys :: "DeploymentRecord list \<Rightarrow> string set" where
  "recordKeys recs = recordKey ` set recs"

text \<open>
  Modelled from the spec: a dependency that is resolved (section 3, the invariant of the
  graph, and sections 4.1 and 4.4). A matching-key dependency on a record of the
  deployment is resolved once that record is deployed; a matching key that names no
  record of the deployment, and a lookup dependency, are resolved by a lookup of the org.
\<close>

fun dependencySatisfied ::
  "OrchestratorEnv \<Rightarrow> DeploymentRecord list \<Rightarrow> StatusMap \<Rightarrow> DatapackRecordDependency \<Rightarrow> bool" where
  "dependencySatisfied env recs st (MatchingKeyDependency t k xs) =
     (if k \<in> recordKeys recs then st k = Deployed else lookupResolves env k)"
| "dependencySatisfied env recs st (LookupKeyDependency t k xs) = lookupResolves env k"

text \<open>Modelled from the spec: a matching-key dependency on a record that failed or was skipped.\<close>

fun dependencyFailed :: "DeploymentRecord list \<Rightarrow> StatusMap \<Rightarrow> DatapackRecordDependency \<Rightarrow> bool" where
  "dependencyFailed recs st (MatchingKeyDependency t k xs) =
     (k \<in> recordKeys recs \<and> (st k = Failed \<or> st k = Skipped))"
| "dependencyFailed recs st (LookupKeyDependency t k xs) = False"

text \<open>Modelled from the spec: a dependency that cannot be resolved any more.\<close>

fun dependencyUnresolved ::
  "OrchestratorEnv \<Rightarrow> DeploymentRecord list \<Rightarrow> StatusMap \<Rightarrow> DatapackRecordDependency \<Rightarrow> bool" where
  "dependencyUnresolved env recs st (MatchingKeyDependency t k xs) =
     (if k \<in> recordKeys recs then st k = Failed \<or> st k = Skipped else \<not> lookupResolves env k)"
| "dependencyUnresolved env recs st (LookupKeyDependency t k xs) = (\<not> lookupResolves env k)"

fun dependencyKey :: "DatapackRecordDependency \<Rightarrow> string" where
  "dependencyKey (MatchingKeyDependency t k xs) = k"
| "dependencyKey (LookupKeyDependency t k xs) = k"

text \<open>
  Modelled from the spec: a dependency lets its record be submitted when it is resolved,
  or, by configuration, when it failed and a lookup finds an existing record for it, or
  when it cannot be resolved and unresolved dependencies are allowed.
\<close>

definition dependencyPassable ::
  "DatapackDeploymentOptions \<Rightarrow> OrchestratorEnv \<Rightarrow> DeploymentRecord list \<Rightarrow> StatusMap
     \<Rightarrow> DatapackRecordDependency \<Rightarrow> bool" where
  "dependencyPassable opts env recs st d =
     (dependencySatisfied env recs st d
      \<or> (lookupFailedDependencies opts \<and> dependencyFailed recs st d \<and> lookupResolves env (dependencyKey d))
      \<or> (allowUnresolvedDependencies opts \<and> dependencyUnresolved env recs st d))"


text \<open>Modelled from the spec: a pending record that skip propagation applies to.\<close>

definition mustSkip ::
  "DatapackDeploymentOptions \<Rightarrow> OrchestratorEnv \<Rightarrow> DeploymentRecord list \<Rightarrow> StatusMap
     \<Rightarrow> DeploymentRecord \<Rightarrow> bool" where
  "mustSkip opts env recs st r =
     (st (recordKey r) = Pending
      \<and> list_ex (\<lambda>d. dependencyFailed recs st d \<and> \<not> dependencyPassable opts env recs st d) (dependencies r))"

text \<open>Modelled from the spec: one pass of skip propagation over the records, in order.\<close>

fun propagateSkips ::
  "DatapackDeploymentOptions \<Rightarrow> OrchestratorEnv \<Rightarrow> DeploymentRecord list \<Rightarrow> DeploymentRecord list
     \<Rightarrow> StatusMap \<Rightarrow> StatusMap" where
  "propagateSkips opts env recs [] st = st"
| "propagateSkips opts env recs (r # rs) st =
     propagateSkips opts env recs rs (if mustSkip opts env recs st r then st(recordKey r := Skipped) else st)"














section \<open>Properties of the dependency type\<close>

text \<open>
  Claim C9. In every dependency value exactly one of the matching key and the lookup key
  is set, and which one is decided by the discriminant \<^verbatim>\<open>VlocityDataPackType\<close>.
\<close>

theorem dependency_exactly_one_key:
  "(VlocityMatchingRecordSourceKey d = None) = (VlocityLookupRecordSourceKey d \<noteq> None)
   \<and> (VlocityDataPackType d = VlocityMatchingKeyObject) = (VlocityMatchingRecordSourceKey d \<noteq> None)
   \<and> (VlocityDataPackType d = VlocityLookupMatchingKeyObject) = (VlocityLookupRecordSourceKey d \<noteq> None)"
  by (cases d) simp_all

theorem dependency_exactly_one_key_witness:
  "VlocityMatchingRecordSourceKey (MatchingKeyDependency ''Account'' ''a1'' []) = Some ''a1''
   \<and> VlocityLookupRecordSourceKey (MatchingKeyDependency ''Account'' ''a1'' []) = None
   \<and> VlocityDataPackType (MatchingKeyDependency ''Account'' ''a1'' []) = VlocityMatchingKeyObject"
  using dependency_exactly_one_key [of "MatchingKeyDependency ''Account'' ''a1'' []"]
  by simp

section \<open>Properties of the batch executor\<close>


lemma chunks_Nil [simp]: "chunks k [] = []"
  by (subst chunks.simps) simp

lemma chunks_zero [simp]: "chunks 0 xs = []"
  by (subst chunks.simps) simp








lemma oneResultPerRecord_length:
  "oneResultPerRecord api \<Longrightarrow> api c = Inr rs \<Longrightarrow> length rs = length c"
  unfolding oneResultPerRecord_def by (erule allE [of _ c]) simp


lemma length_mapResults:
  assumes "oneResultPerRecord api"
  shows "length (mapResults c (api c)) = length c"
proof (cases "api c")
  case (Inl msg)
  then show ?thesis by (simp add: mapResults_def)
next
  case (Inr rs)
  have "length rs = length c"
    using assms Inr by (rule oneResultPerRecord_length)
  then show ?thesis using Inr by (simp add: mapResults_def)
qed







lemma mergeRetried_Nil [simp]: "mergeRetried ps [] = ps"
  by (induction ps) simp_all














section \<open>Properties of the lookup service\<close>

lemmas comparison_defs = comparison_def inferOperator_def matchSalesforceId_def
  documentedOperator_def strippedValue_def comparesSalesforceId_def

lemma comparison_string:
  "comparison env f (VString s) =
     (if comparesSalesforceId env f (VString s)
      then (if documentedOperator f (VString s) = ''='' then ''in'' else ''not in'',
            VArray [strippedValue (VString s),
                    VString (take 15 (case strippedValue (VString s) of VString x \<Rightarrow> x | _ \<Rightarrow> []))])
      else (documentedOperator f (VString s), strippedValue (VString s)))"
proof -
  consider (ne) "startsWith s ''!=''"
    | (gt) "\<not> startsWith s ''!=''" "startsWith s ''>''"
    | (lt) "\<not> startsWith s ''!=''" "\<not> startsWith s ''>''" "startsWith s ''<''"
    | (like) "\<not> startsWith s ''!=''" "\<not> startsWith s ''>''" "\<not> startsWith s ''<''" "startsWith s ''~''"
    | (eq) "\<not> startsWith s ''!=''" "\<not> startsWith s ''>''" "\<not> startsWith s ''<''" "\<not> startsWith s ''~''"
    by blast
  then show ?thesis
  proof cases
    case ne then show ?thesis by (simp add: comparison_defs)
  next
    case gt then show ?thesis by (simp add: comparison_defs)
  next
    case lt then show ?thesis by (simp add: comparison_defs)
  next
    case like then show ?thesis by (simp add: comparison_defs)
  next
    case eq then show ?thesis by (simp add: comparison_defs)
  qed
qed

lemma comparison_other:
  "(\<forall>s. v \<noteq> VString s) \<Longrightarrow> comparison env f v = (documentedOperator f v, strippedValue v)
     \<and> \<not> comparesSalesforceId env f v"
  by (cases v) (simp_all add: comparison_defs)

lemma comparison_plain:
  "\<not> comparesSalesforceId env f v \<Longrightarrow> comparison env f v = (documentedOperator f v, strippedValue v)"
  by (cases "\<exists>s. v = VString s") (auto simp: comparison_string comparison_other)

lemma stripped_string: "\<exists>x. strippedValue (VString s) = VString x"
  by (simp add: strippedValue_def)

lemma comparison_id_equals:
  assumes "comparesSalesforceId env f v" "documentedOperator f v = ''=''"
  shows "\<exists>s. strippedValue v = VString s \<and> comparison env f v = (''in'', VArray [VString s, VString (take 15 s)])"
proof -
  obtain s0 where v: "v = VString s0" using assms(1) comparison_other [of v env f] by blast
  obtain x where x: "strippedValue (VString s0) = VString x" using stripped_string by blast
  show ?thesis using assms x unfolding v by (simp add: comparison_string)
qed

lemma comparison_id_not_equals:
  assumes "comparesSalesforceId env f v" "documentedOperator f v = ''!=''"
  shows "\<exists>s. strippedValue v = VString s \<and> comparison env f v = (''not in'', VArray [VString s, VString (take 15 s)])"
proof -
  obtain s0 where v: "v = VString s0" using assms(1) comparison_other [of v env f] by blast
  obtain x where x: "strippedValue (VString s0) = VString x" using stripped_string by blast
  show ?thesis using assms x unfolding v by (simp add: comparison_string)
qed

lemma lookupFilters_comparison:
  assumes "describeSObjectFieldPath env t p = Inr [f]" "\<not> isObject v" "lookupFilters env t rest = Inr others"
  shows "lookupFilters env t ((p, v) # rest) =
     Inr ((name f @ '' '' @ fst (comparison env f v) @ '' '' @ formatFieldValue env (snd (comparison env f v)) f) # others)"
  using assms by (cases v) (simp_all add: isObject_def split: prod.splits)

lemma lookupSingle_single_chunk:
  assumes "whereClauses env t filters = Inr ws"
    and "joinLimit env (map (\<lambda>f. ''('' @ f @ '')'') (filter (\<lambda>f. \<not> isBlank f) ws))
           (8000 - (case lookupFields of None \<Rightarrow> 1000 | Some fs \<Rightarrow> int (sum_list (map length fs)))) '' or '' = [w]"
    and "\<not> cancelled 0"
  shows "lookupSingle env cancelled t filters lookupFields =
     (case lookupWhere env t (Some w) lookupFields (Some 1) of
        Inl e \<Rightarrow> Inl e
      | Inr rows \<Rightarrow> Inr (case rows of [] \<Rightarrow> None | r # rs \<Rightarrow> Some r))"
  using assms by (simp add: lookupSingle_def lookup_def split: sum.splits)

text \<open>
  Claim C7. The claim as worded fails: a string that is a Salesforce id, compared on a
  field of type \<^verbatim>\<open>string\<close>, is not compared with equals but with \<^verbatim>\<open>in\<close>, against its
  full and its 15 character form.
\<close>

theorem where_clause_operator_counterexample:
  "documentedOperator (exampleField ''ExternalId__c'') (VString ''001000000000001AAA'') = ''=''
   \<and> comparison exampleEnv (exampleField ''ExternalId__c'') (VString ''001000000000001AAA'')
       = (''in'', VArray [VString ''001000000000001AAA'', VString ''001000000000001''])"
  by (simp add: comparison_defs startsWith_def exampleEnv_def exampleField_def)

text \<open>
  Claim C7, amended. For a value that is not a Salesforce id compared on a field of type
  \<^verbatim>\<open>string\<close>, the operator is read from the value as documented (a leading \<^verbatim>\<open>!=\<close>,
  \<^verbatim>\<open>>\<close>, \<^verbatim>\<open><\<close> or \<^verbatim>\<open>~\<close> of a string, with the prefix removed; \<^verbatim>\<open>in\<close> or \<^verbatim>\<open>includes\<close>
  for an array; equals for every other value). A Salesforce id on a field of type
  \<^verbatim>\<open>string\<close> is compared against its full and its 15 character form, with \<^verbatim>\<open>in\<close> where
  equals is documented and \<^verbatim>\<open>not in\<close> where not-equals is. The comparison becomes the
  clause of its entry in the where condition. \<^verbatim>\<open>lookupSingle\<close> returns the first record
  of the lookup, and nothing exactly when the lookup returns no record.
\<close>

theorem where_clause_operator:
  "(\<not> comparesSalesforceId env f v \<longrightarrow>
      comparison env f v = (documentedOperator f v, strippedValue v))
   \<and> (comparesSalesforceId env f v \<and> documentedOperator f v = ''='' \<longrightarrow>
      (\<exists>s. strippedValue v = VString s
         \<and> comparison env f v = (''in'', VArray [VString s, VString (take 15 s)])))
   \<and> (comparesSalesforceId env f v \<and> documentedOperator f v = ''!='' \<longrightarrow>
      (\<exists>s. strippedValue v = VString s
         \<and> comparison env f v = (''not in'', VArray [VString s, VString (take 15 s)])))
   \<and> (describeSObjectFieldPath env t p = Inr [f] \<and> \<not> isObject v
        \<and> lookupFilters env t rest = Inr others \<longrightarrow>
      lookupFilters env t ((p, v) # rest) =
        Inr ((name f @ '' '' @ fst (comparison env f v) @ '' ''
               @ formatFieldValue env (snd (comparison env f v)) f) # others))
   \<and> ((lookupSingle env cancelled t filters lookupFields = Inr None)
        = (lookup env cancelled t filters lookupFields (Some 1) = Inr []))
   \<and> (lookup env cancelled t filters lookupFields (Some 1) = Inr (r # rs) \<longrightarrow>
        lookupSingle env cancelled t filters lookupFields = Inr (Some r))
   \<and> (whereClauses env t filters = Inr ws
        \<and> joinLimit env (map (\<lambda>f. ''('' @ f @ '')'') (filter (\<lambda>f. \<not> isBlank f) ws))
              (8000 - (case lookupFields of None \<Rightarrow> 1000 | Some fs \<Rightarrow> int (sum_list (map length fs))))
              '' or '' = [w]
        \<and> \<not> cancelled 0 \<longrightarrow>
        lookupSingle env cancelled t filters lookupFields =
          (case lookupWhere env t (Some w) lookupFields (Some 1) of
             Inl e \<Rightarrow> Inl e
           | Inr rows \<Rightarrow> Inr (case rows of [] \<Rightarrow> None | r # rs \<Rightarrow> Some r)))"
proof -
  have none: "(lookupSingle env cancelled t filters lookupFields = Inr None)
        = (lookup env cancelled t filters lookupFields (Some 1) = Inr [])"
    by (simp add: lookupSingle_def split: sum.splits list.splits)
  have first: "lookup env cancelled t filters lookupFields (Some 1) = Inr (r # rs) \<longrightarrow>
        lookupSingle env cancelled t filters lookupFields = Inr (Some r)"
    by (simp add: lookupSingle_def)
  show ?thesis
    using comparison_plain [of env f v] comparison_id_equals [of env f v]
      comparison_id_not_equals [of env f v] lookupFilters_comparison [of env t p f v rest others]
      lookupSingle_single_chunk [of env t filters ws lookupFields w cancelled] none first
    by (intro conjI impI) blast+
qed

theorem where_clause_operator_witness:
  "comparison exampleEnv (exampleField ''Name'') (VString ''~ACME'') = (''like'', VString ''ACME'')
   \<and> comparison exampleEnv (exampleField ''Name'') (VArray [VString ''Peter'', VString ''ACME''])
       = (''in'', VArray [VString ''Peter'', VString ''ACME''])
   \<and> (\<exists>s. comparison exampleEnv (exampleField ''Key'') (VString ''001000000000001AAA'')
            = (''in'', VArray [VString s, VString (take 15 s)]))
   \<and> (\<exists>s. comparison exampleEnv (exampleField ''Key'') (VString ''!=001000000000001AAA'')
            = (''not in'', VArray [VString s, VString (take 15 s)]))
   \<and> lookupFilters exampleEnv ''Account'' [(''Name'', VString ''ACME'')]
       = Inr [''Name = '' @ [CHR 0x27] @ ''ACME'' @ [CHR 0x27]]
   \<and> lookupSingle exampleEnv (\<lambda>i. False) ''Account'' [FilterObject [(''Name'', VString ''ACME'')]] None
       = Inr (Some ''001000000000001AAA'')
   \<and> lookupSingle exampleEnv (\<lambda>i. False) ''Account'' [FilterObject [(''Name'', VString ''Other'')]] None
       = Inr None"
proof -
  have h1: "\<not> comparesSalesforceId exampleEnv (exampleField ''Name'') (VString ''~ACME'')"
    by (simp add: comparesSalesforceId_def strippedValue_def startsWith_def exampleEnv_def)
  have c1: "comparison exampleEnv (exampleField ''Name'') (VString ''~ACME'') = (''like'', VString ''ACME'')"
    using where_clause_operator [of exampleEnv "exampleField ''Name''" "VString ''~ACME''"] h1
    by (simp add: documentedOperator_def strippedValue_def startsWith_def)
  have h2: "\<not> comparesSalesforceId exampleEnv (exampleField ''Name'') (VArray [VString ''Peter'', VString ''ACME''])"
    by (simp add: comparesSalesforceId_def strippedValue_def)
  have c2: "comparison exampleEnv (exampleField ''Name'') (VArray [VString ''Peter'', VString ''ACME''])
       = (''in'', VArray [VString ''Peter'', VString ''ACME''])"
    using where_clause_operator [of exampleEnv "exampleField ''Name''" "VArray [VString ''Peter'', VString ''ACME'']"] h2
    by (simp add: documentedOperator_def strippedValue_def exampleField_def)
  have h3: "comparesSalesforceId exampleEnv (exampleField ''Key'') (VString ''001000000000001AAA'')
      \<and> documentedOperator (exampleField ''Key'') (VString ''001000000000001AAA'') = ''=''"
    by (simp add: comparesSalesforceId_def strippedValue_def startsWith_def exampleEnv_def
        exampleField_def documentedOperator_def)
  have c3: "\<exists>s. comparison exampleEnv (exampleField ''Key'') (VString ''001000000000001AAA'')
            = (''in'', VArray [VString s, VString (take 15 s)])"
    using where_clause_operator [of exampleEnv "exampleField ''Key''" "VString ''001000000000001AAA''"] h3
    by blast
  have h4: "comparesSalesforceId exampleEnv (exampleField ''Key'') (VString ''!=001000000000001AAA'')
      \<and> documentedOperator (exampleField ''Key'') (VString ''!=001000000000001AAA'') = ''!=''"
    by (simp add: comparesSalesforceId_def strippedValue_def startsWith_def exampleEnv_def
        exampleField_def documentedOperator_def)
  have c4: "\<exists>s. comparison exampleEnv (exampleField ''Key'') (VString ''!=001000000000001AAA'')
            = (''not in'', VArray [VString s, VString (take 15 s)])"
    using where_clause_operator [of exampleEnv "exampleField ''Key''" "VString ''!=001000000000001AAA''"] h4
    by blast
  have h5: "describeSObjectFieldPath exampleEnv ''Account'' ''Name'' = Inr [exampleField ''Name'']
      \<and> \<not> isObject (VString ''ACME'') \<and> lookupFilters exampleEnv ''Account'' [] = Inr []"
    by (simp add: exampleEnv_def isObject_def)
  have c5: "lookupFilters exampleEnv ''Account'' [(''Name'', VString ''ACME'')]
       = Inr [''Name = '' @ [CHR 0x27] @ ''ACME'' @ [CHR 0x27]]"
  proof -
    have "lookupFilters exampleEnv ''Account'' [(''Name'', VString ''ACME'')] =
        Inr ((name (exampleField ''Name'') @ '' ''
               @ fst (comparison exampleEnv (exampleField ''Name'') (VString ''ACME'')) @ '' ''
               @ formatFieldValue exampleEnv
                   (snd (comparison exampleEnv (exampleField ''Name'') (VString ''ACME'')))
                   (exampleField ''Name'')) # [])"
      using where_clause_operator [of exampleEnv "exampleField ''Name''" "VString ''ACME''"
          "''Account''" "''Name''" "[]" "[]"] h5
      by blast
    then show ?thesis
      by (simp add: exampleEnv_def exampleField_def comparison_defs startsWith_def)
  qed
  have w: "whereClauses exampleEnv ''Account'' [FilterObject [(''Name'', VString ''ACME'')]]
       = Inr [''Name = '' @ [CHR 0x27] @ ''ACME'' @ [CHR 0x27]]"
    using c5 by (simp add: createWhereClause_def)
  have d1: "decimal (Suc 0) = ''1''"
    by (subst decimal.simps) simp
  have l6: "lookup exampleEnv (\<lambda>i. False) ''Account'' [FilterObject [(''Name'', VString ''ACME'')]] None (Some 1)
       = Inr [''001000000000001AAA'']"
    unfolding lookup_def w
    by (simp add: exampleEnv_def isBlank_def isWhitespace_def lookupWhere_def setAdd_def d1)
  have c6: "lookupSingle exampleEnv (\<lambda>i. False) ''Account'' [FilterObject [(''Name'', VString ''ACME'')]] None
       = Inr (Some ''001000000000001AAA'')"
    using where_clause_operator [where env = exampleEnv and cancelled = "\<lambda>i. False"
        and t = "''Account''" and filters = "[FilterObject [(''Name'', VString ''ACME'')]]"
        and lookupFields = None and r = "''001000000000001AAA''" and rs = "[]"] l6
    by blast
  have w7: "whereClauses exampleEnv ''Account'' [FilterObject [(''Name'', VString ''Other'')]]
       = Inr [''Name = '' @ [CHR 0x27] @ ''Other'' @ [CHR 0x27]]"
    by (simp add: createWhereClause_def exampleEnv_def exampleField_def comparison_defs startsWith_def)
  have l7: "lookup exampleEnv (\<lambda>i. False) ''Account'' [FilterObject [(''Name'', VString ''Other'')]] None (Some 1)
       = Inr []"
    unfolding lookup_def w7
    by (simp add: exampleEnv_def isBlank_def isWhitespace_def lookupWhere_def setAdd_def d1)
  have c7: "lookupSingle exampleEnv (\<lambda>i. False) ''Account'' [FilterObject [(''Name'', VString ''Other'')]] None
       = Inr None"
    using where_clause_operator [where env = exampleEnv and cancelled = "\<lambda>i. False"
        and t = "''Account''" and filters = "[FilterObject [(''Name'', VString ''Other'')]]"
        and lookupFields = None] l7
    by blast
  show ?thesis
    using c1 c2 c3 c4 c5 c6 c7 by (intro conjI)
qed

section \<open>Properties of the dispatch of spec functions\<close>

lemma handleSpecFunctionError_org [simp]: "org (handleSpecFunctionError ev err opts st) = org st"
  by (simp add: handleSpecFunctionError_def)

lemma handleSpecFunctionError_invocations [simp]:
  "invocations (handleSpecFunctionError ev err opts st) = invocations st"
  by (simp add: handleSpecFunctionError_def)

lemma afterInvocation_simps [simp]:
  "org (afterInvocation spec ev ps fn st) = org st"
  "logged (afterInvocation spec ev ps fn st) = logged st"
  "store (afterInvocation spec ev ps fn st) = snd (fn ps (store st))"
  "invocations (afterInvocation spec ev ps fn st) = invocations st @ [(specName spec, ev, ps)]"
  by (simp_all add: afterInvocation_def)

text \<open>The six ways one registered spec is passed by the loop of the dispatch.\<close>

lemma runSpecFunction_cases:
  obtains
    (no_function) "specFunctions spec ev = None"
      "runSpecFunction env ev opts ((spec, specFilter) # specs) st = runSpecFunction env ev opts specs st"
  | (narrow_error) fn e where "specFunctions spec ev = Some fn"
      "narrowParams env specFilter (args opts) = Inl e"
      "runSpecFunction env ev opts ((spec, specFilter) # specs) st = (Some e, st)"
  | (skipped) fn where "specFunctions spec ev = Some fn"
      "narrowParams env specFilter (args opts) = Inr None"
      "runSpecFunction env ev opts ((spec, specFilter) # specs) st = runSpecFunction env ev opts specs st"
  | (returned) fn ps where "specFunctions spec ev = Some fn"
      "narrowParams env specFilter (args opts) = Inr (Some ps)"
      "fst (fn ps (store st)) = None"
      "runSpecFunction env ev opts ((spec, specFilter) # specs) st
         = runSpecFunction env ev opts specs (afterInvocation spec ev ps fn st)"
  | (ignored) fn ps err where "specFunctions spec ev = Some fn"
      "narrowParams env specFilter (args opts) = Inr (Some ps)"
      "fst (fn ps (store st)) = Some err" "ignoreErrors opts"
      "runSpecFunction env ev opts ((spec, specFilter) # specs) st
         = runSpecFunction env ev opts specs
             (handleSpecFunctionError ev err opts (afterInvocation spec ev ps fn st))"
  | (propagated) fn ps err where "specFunctions spec ev = Some fn"
      "narrowParams env specFilter (args opts) = Inr (Some ps)"
      "fst (fn ps (store st)) = Some err" "\<not> ignoreErrors opts"
      "runSpecFunction env ev opts ((spec, specFilter) # specs) st
         = (Some err, afterInvocation spec ev ps fn st)"
proof (cases "specFunctions spec ev")
  case None
  then show ?thesis using no_function by simp
next
  case (Some fn)
  note fn = Some
  show ?thesis
  proof (cases "narrowParams env specFilter (args opts)")
    case (Inl e)
    then show ?thesis using narrow_error fn by simp
  next
    case (Inr n)
    show ?thesis
    proof (cases n)
      case None
      then show ?thesis using skipped fn Inr by simp
    next
      case (Some ps)
      note ps = Some
      show ?thesis
      proof (cases "fst (fn ps (store st))")
        case None
        then show ?thesis using returned [of fn ps] fn Inr ps
          by (simp add: Let_def afterInvocation_def)
      next
        case (Some err)
        show ?thesis
        proof (cases "ignoreErrors opts")
          case True
          then show ?thesis using ignored [of fn ps err] fn Inr ps Some
            by (simp add: Let_def afterInvocation_def)
        next
          case False
          then show ?thesis using propagated [of fn ps err] fn Inr ps Some
            by (simp add: Let_def afterInvocation_def)
        qed
      qed
    qed
  qed
qed

lemma runSpecFunction_org: "org (snd (runSpecFunction env ev opts specs st)) = org st"
proof (induction specs arbitrary: st)
  case Nil
  then show ?case by simp
next
  case (Cons a specs)
  obtain spec specFilter where a: "a = (spec, specFilter)" by (cases a)
  show ?case unfolding a
    by (cases rule: runSpecFunction_cases [where spec = spec and ev = ev and env = env and specFilter = specFilter and opts = opts and specs = specs and st = st])
       (simp_all add: Cons.IH)
qed

lemma narrowParams_no_error: "narrowParams env specFilter (p # ps) \<noteq> Inl e"
  by (cases p) (simp_all add: narrowParams_def Let_def)

lemma narrowParams_records:
  "narrowParams env specFilter (RecordArray rs # others) =
     (if filter (evalFilterRecord specFilter) rs = [] then Inr None
      else Inr (Some (RecordArray (filter (evalFilterRecord specFilter) rs) # others)))"
  by (simp add: narrowParams_def filterApplicableRecords_def Let_def)

lemma filterApplicableGroup_records:
  "filterApplicableGroup specFilter g = g\<lparr>records := filter (evalFilterRecord specFilter) (records g)\<rparr>"
  by (simp add: filterApplicableGroup_def filterApplicableRecords_def)

lemma narrowParams_event:
  "narrowParams env specFilter (DeploymentEvent groups # others) =
     (if filter (\<lambda>g. records g \<noteq> [])
           (map (\<lambda>g. if evalFilterGroup specFilter g then g
                      else g\<lparr>records := filter (evalFilterRecord specFilter) (records g)\<rparr>) groups) = []
      then Inr None
      else Inr (Some (DeploymentEvent
             (filter (\<lambda>g. records g \<noteq> [])
                (map (\<lambda>g. if evalFilterGroup specFilter g then g
                           else g\<lparr>records := filter (evalFilterRecord specFilter) (records g)\<rparr>) groups))
             # others)))"
proof -
  have m: "(\<lambda>group. if evalFilterGroup specFilter group then group
                  else filterApplicableGroup specFilter group)
         = (\<lambda>g. if evalFilterGroup specFilter g then g
                 else g\<lparr>records := filter (evalFilterRecord specFilter) (records g)\<rparr>)"
    by (rule ext) (simp add: filterApplicableGroup_records)
  show ?thesis by (simp add: narrowParams_def Let_def m)
qed

lemma lower_Account: "toLowerCase ''Account'' = ''account''"
  by (simp add: toLowerCase_def toLowerChar_def)

lemma lower_Contact: "toLowerCase ''Contact'' = ''contact''"
  by (simp add: toLowerCase_def toLowerChar_def)

text \<open>The loop of the dispatch makes the applicable invocations, one after the other.\<close>

lemma applicableHooks_Nil [simp]: "applicableHooks env ev opts [] = []"
  by (simp add: applicableHooks_def List.map_filter_simps)

lemma applicableHooks_Cons:
  "applicableHooks env ev opts ((spec, specFilter) # specs) =
     (case specFunctions spec ev of
        None \<Rightarrow> applicableHooks env ev opts specs
      | Some fn \<Rightarrow>
          (case narrowParams env specFilter (args opts) of
             Inl e \<Rightarrow> applicableHooks env ev opts specs
           | Inr None \<Rightarrow> applicableHooks env ev opts specs
           | Inr (Some ps) \<Rightarrow> (spec, fn, ps) # applicableHooks env ev opts specs))"
  by (simp add: applicableHooks_def List.map_filter_simps split: option.splits sum.splits)

lemma runSpecFunction_dispatch:
  assumes "args opts \<noteq> []"
  shows "runSpecFunction env ev opts specs st = dispatchHooks ev opts (applicableHooks env ev opts specs) st"
proof (induction specs arbitrary: st)
  case Nil
  then show ?case by simp
next
  case (Cons a specs)
  obtain spec specFilter where a: "a = (spec, specFilter)" by (cases a)
  obtain p ps0 where p: "args opts = p # ps0" using assms by (cases "args opts") auto
  show ?case
  proof (cases rule: runSpecFunction_cases [where spec = spec and ev = ev and env = env
        and specFilter = specFilter and opts = opts and specs = specs and st = st])
    case no_function
    then show ?thesis unfolding a by (simp add: applicableHooks_Cons Cons.IH)
  next
    case (narrow_error fn e)
    then show ?thesis using narrowParams_no_error [of env specFilter p ps0 e] p by simp
  next
    case (skipped fn)
    then show ?thesis unfolding a by (simp add: applicableHooks_Cons Cons.IH)
  next
    case (returned fn ps)
    then show ?thesis unfolding a by (simp add: applicableHooks_Cons Cons.IH)
  next
    case (ignored fn ps err)
    then show ?thesis unfolding a by (simp add: applicableHooks_Cons Cons.IH)
  next
    case (propagated fn ps err)
    then show ?thesis unfolding a by (simp add: applicableHooks_Cons Cons.IH)
  qed
qed

lemma dispatchHooks_returning:
  assumes "\<forall>spec fn ps s. (spec, fn, ps) \<in> set hooks \<longrightarrow> fst (fn ps s) = None"
  shows "dispatchHooks ev opts hooks st
     = (None, foldl (\<lambda>st' (spec, fn, ps). afterInvocation spec ev ps fn st') st hooks)"
  using assms
proof (induction hooks arbitrary: st)
  case Nil
  then show ?case by simp
next
  case (Cons h hooks)
  obtain spec fn ps where h: "h = (spec, fn, ps)" by (cases h)
  have r: "fst (fn ps (store st)) = None" using Cons.prems h by simp
  have rest: "\<forall>spec fn ps s. (spec, fn, ps) \<in> set hooks \<longrightarrow> fst (fn ps s) = None"
    using Cons.prems by simp
  show ?case unfolding h using r Cons.IH [OF rest] by simp
qed

lemma applicableHooks_set:
  "((spec, fn, ps) \<in> set (applicableHooks env ev opts specs))
     = (\<exists>specFilter. (spec, specFilter) \<in> set specs \<and> specFunctions spec ev = Some fn
          \<and> narrowParams env specFilter (args opts) = Inr (Some ps))"
proof (induction specs)
  case Nil
  then show ?case by simp
next
  case (Cons a specs)
  obtain spec' specFilter' where a: "a = (spec', specFilter')" by (cases a)
  show ?case unfolding a
    by (auto simp: applicableHooks_Cons Cons.IH split: option.splits sum.splits)
qed

lemma accountOnly_record:
  assumes "datapackFilter specFilter = Some (StringPattern ''Account'')" "recordFilter specFilter = None"
  shows "evalFilterRecord specFilter r = (toLowerCase (datapackType r) = ''account'')"
  using assms by (auto simp: evalFilterRecord_def lower_Account)

lemma accountOnly_group:
  assumes "datapackFilter specFilter = Some (StringPattern ''Account'')"
  shows "evalFilterGroup specFilter g = (toLowerCase (group_datapackType g) = ''account'')"
  using assms by (auto simp: evalFilterGroup_def lower_Account)

lemma accountOnly_event:
  assumes "datapackFilter specFilter = Some (StringPattern ''Account'')" "recordFilter specFilter = None"
  shows "narrowParams env specFilter (DeploymentEvent groups # others) =
     (if filter (\<lambda>g. records g \<noteq> [])
           (map (\<lambda>g. if toLowerCase (group_datapackType g) = ''account'' then g
                      else g\<lparr>records := filter (\<lambda>r. toLowerCase (datapackType r) = ''account'') (records g)\<rparr>)
              groups) = []
      then Inr None
      else Inr (Some (DeploymentEvent
             (filter (\<lambda>g. records g \<noteq> [])
                (map (\<lambda>g. if toLowerCase (group_datapackType g) = ''account'' then g
                           else g\<lparr>records := filter (\<lambda>r. toLowerCase (datapackType r) = ''account'') (records g)\<rparr>)
                   groups))
             # others)))"
proof -
  have r: "evalFilterRecord specFilter = (\<lambda>r. toLowerCase (datapackType r) = ''account'')"
    using accountOnly_record [OF assms] by auto
  have g: "evalFilterGroup specFilter = (\<lambda>g. toLowerCase (group_datapackType g) = ''account'')"
    using accountOnly_group [OF assms(1)] by auto
  show ?thesis unfolding narrowParams_event r g by (rule refl)
qed

lemma accountOnly_contact_groups:
  assumes "datapackFilter specFilter = Some (StringPattern ''Account'')" "recordFilter specFilter = None"
    and "list_all (\<lambda>g. group_datapackType g = ''Contact''
            \<and> list_all (\<lambda>r. toLowerCase (datapackType r) \<noteq> ''account'') (records g)) groups"
  shows "narrowParams env specFilter (DeploymentEvent groups # others) = Inr None"
proof -
  have "filter (\<lambda>g. records g \<noteq> [])
           (map (\<lambda>g. if toLowerCase (group_datapackType g) = ''account'' then g
                      else g\<lparr>records := filter (\<lambda>r. toLowerCase (datapackType r) = ''account'') (records g)\<rparr>)
              groups) = []"
    using assms(3)
    by (auto simp: filter_empty_conv list_all_iff lower_Contact)
  then show ?thesis unfolding accountOnly_event [OF assms(1,2)] by simp
qed

lemmas example_defs = accountRecord_def contactRecord_def accountGroup_def contactGroup_def
  accountFilter_def anyRecordFilter_def returningSpec_def throwingSpec_def pendingRecord_def
  exampleState_def

lemmas filter_defs = evalFilterRecord_def evalFilterGroup_def filterApplicableGroup_def
  filterApplicableRecords_def toLowerCase_def toLowerChar_def

text \<open>
  Claim C3. As stated, its last part does not hold: a spec whose datapack filter is
  Account and which has a record filter besides is invoked for a group of datapack type
  Contact, with the records of the group that match the record filter, and its function
  is applied to the records; and a spec filtered to the datapack type Account alone is
  invoked for a group of datapack type Contact that holds a record of datapack type
  Account, with that record.
\<close>

theorem spec_filter_dispatch_counterexample:
  "datapackFilter accountOrContactFilter = Some (StringPattern ''Account'')
   \<and> group_datapackType contactGroup = ''Contact''
   \<and> narrowParams exampleDeployerEnv accountOrContactFilter [DeploymentEvent [contactGroup]]
       = Inr (Some [DeploymentEvent [contactGroup]])
   \<and> status (store (snd (runSpecFunction exampleDeployerEnv ''beforeDeploy''
         \<lparr> args = [DeploymentEvent [contactGroup]], ignoreErrors = True, errorSeverity = Some ''error'' \<rparr>
         [(markingSpec, accountOrContactFilter)] exampleState)) ''c1'') = Failed
   \<and> status (store exampleState ''c1'') = Pending
   \<and> group_datapackType mixedGroup = ''Contact''
   \<and> narrowParams exampleDeployerEnv accountFilter [DeploymentEvent [mixedGroup]]
       = Inr (Some [DeploymentEvent [mixedGroup\<lparr>records := [accountRecord]\<rparr>]])"
  by (simp add: narrowParams_def Let_def example_defs filter_defs accountOrContactFilter_def
      mixedGroup_def markingSpec_def setFailed_def exampleDeployerEnv_def)

text \<open>
  Claim C3, amended. A string filter matches case-insensitively and a regular expression
  by its test; a record matches a filter by its datapack type or its object type, a group
  by its datapack type. For an array of records the parameters are narrowed to exactly the
  records that match, in their order; for a deployment event to the groups that match,
  whole, and of every other group the records that match, without the groups left empty.
  A dispatch applies, in the order of registration, the function of every spec that has
  one for the event and for which narrowing leaves something, to the narrowed parameters
  and to the records as the functions before it left them; when nothing is left for a
  spec its function is not applied and the dispatch goes on as if the spec were not
  registered. A spec whose filter is the datapack type Account alone is passed the groups
  of datapack type Account and, of any other group, the records whose own datapack type
  is Account; it is not invoked for groups of datapack type Contact that hold no record
  of datapack type Account.
\<close>

theorem spec_filter_dispatch:
  "matchesPattern (Some (StringPattern a)) b = (a \<noteq> [] \<and> toLowerCase a = toLowerCase b)
   \<and> matchesPattern (Some (RegExpPattern p)) b = p b
   \<and> evalFilterRecord specFilter r
       = (matchesPattern (datapackFilter specFilter) (datapackType r)
          \<or> matchesPattern (recordFilter specFilter) (normalizedSObjectType r))
   \<and> evalFilterGroup specFilter g = matchesPattern (datapackFilter specFilter) (group_datapackType g)
   \<and> narrowParams env specFilter (RecordArray rs # others) =
       (if filter (evalFilterRecord specFilter) rs = [] then Inr None
        else Inr (Some (RecordArray (filter (evalFilterRecord specFilter) rs) # others)))
   \<and> narrowParams env specFilter (DeploymentEvent groups # others) =
       (if filter (\<lambda>g. records g \<noteq> [])
             (map (\<lambda>g. if evalFilterGroup specFilter g then g
                        else g\<lparr>records := filter (evalFilterRecord specFilter) (records g)\<rparr>) groups) = []
        then Inr None
        else Inr (Some (DeploymentEvent
               (filter (\<lambda>g. records g \<noteq> [])
                  (map (\<lambda>g. if evalFilterGroup specFilter g then g
                             else g\<lparr>records := filter (evalFilterRecord specFilter) (records g)\<rparr>) groups))
               # others)))
   \<and> ((spec, fn, ps) \<in> set (applicableHooks env ev opts specs))
       = (\<exists>specFilter. (spec, specFilter) \<in> set specs \<and> specFunctions spec ev = Some fn
            \<and> narrowParams env specFilter (args opts) = Inr (Some ps))
   \<and> (args opts \<noteq> [] \<longrightarrow>
        runSpecFunction env ev opts specs st = dispatchHooks ev opts (applicableHooks env ev opts specs) st)
   \<and> (args opts \<noteq> []
        \<and> (\<forall>spec fn ps s. (spec, fn, ps) \<in> set (applicableHooks env ev opts specs) \<longrightarrow> fst (fn ps s) = None) \<longrightarrow>
        runSpecFunction env ev opts specs st
          = (None, foldl (\<lambda>st' (spec, fn, ps). afterInvocation spec ev ps fn st') st
                     (applicableHooks env ev opts specs)))
   \<and> (specFunctions spec ev = Some fn \<and> narrowParams env specFilter (args opts) = Inr (Some ps)
        \<and> fst (fn ps (store st)) = None \<longrightarrow>
        runSpecFunction env ev opts ((spec, specFilter) # specs) st
          = runSpecFunction env ev opts specs
              (st\<lparr> store := snd (fn ps (store st)),
                    invocations := invocations st @ [(specName spec, ev, ps)] \<rparr>))
   \<and> (narrowParams env specFilter (args opts) = Inr None \<longrightarrow>
        runSpecFunction env ev opts ((spec, specFilter) # specs) st = runSpecFunction env ev opts specs st)
   \<and> (datapackFilter specFilter = Some (StringPattern ''Account'') \<and> recordFilter specFilter = None \<longrightarrow>
        narrowParams env specFilter (DeploymentEvent groups # others) =
          (if filter (\<lambda>g. records g \<noteq> [])
                (map (\<lambda>g. if toLowerCase (group_datapackType g) = ''account'' then g
                           else g\<lparr>records := filter (\<lambda>r. toLowerCase (datapackType r) = ''account'')
                                                (records g)\<rparr>) groups) = []
           then Inr None
           else Inr (Some (DeploymentEvent
                  (filter (\<lambda>g. records g \<noteq> [])
                     (map (\<lambda>g. if toLowerCase (group_datapackType g) = ''account'' then g
                                else g\<lparr>records := filter (\<lambda>r. toLowerCase (datapackType r) = ''account'')
                                                     (records g)\<rparr>) groups))
                  # others))))
   \<and> (datapackFilter specFilter = Some (StringPattern ''Account'') \<and> recordFilter specFilter = None
        \<and> list_all (\<lambda>g. group_datapackType g = ''Contact''
              \<and> list_all (\<lambda>r. toLowerCase (datapackType r) \<noteq> ''account'') (records g)) groups
        \<and> args opts = DeploymentEvent groups # others \<longrightarrow>
        narrowParams env specFilter (args opts) = Inr None
        \<and> runSpecFunction env ev opts ((spec, specFilter) # specs) st = runSpecFunction env ev opts specs st)"
proof -
  have c1: "matchesPattern (Some (StringPattern a)) b = (a \<noteq> [] \<and> toLowerCase a = toLowerCase b)"
    by simp
  have c2: "matchesPattern (Some (RegExpPattern p)) b = p b"
    by simp
  have c3: "evalFilterRecord specFilter r
       = (matchesPattern (datapackFilter specFilter) (datapackType r)
          \<or> matchesPattern (recordFilter specFilter) (normalizedSObjectType r))"
    by (simp add: evalFilterRecord_def)
  have c4: "evalFilterGroup specFilter g = matchesPattern (datapackFilter specFilter) (group_datapackType g)"
    by (simp add: evalFilterGroup_def)
  have c8: "args opts \<noteq> [] \<longrightarrow>
        runSpecFunction env ev opts specs st = dispatchHooks ev opts (applicableHooks env ev opts specs) st"
    using runSpecFunction_dispatch by blast
  have c9: "args opts \<noteq> []
        \<and> (\<forall>spec fn ps s. (spec, fn, ps) \<in> set (applicableHooks env ev opts specs) \<longrightarrow> fst (fn ps s) = None) \<longrightarrow>
        runSpecFunction env ev opts specs st
          = (None, foldl (\<lambda>st' (spec, fn, ps). afterInvocation spec ev ps fn st') st
                     (applicableHooks env ev opts specs))"
  proof (intro impI, elim conjE)
    assume a: "args opts \<noteq> []"
      and r: "\<forall>spec fn ps s. (spec, fn, ps) \<in> set (applicableHooks env ev opts specs) \<longrightarrow> fst (fn ps s) = None"
    show "runSpecFunction env ev opts specs st
          = (None, foldl (\<lambda>st' (spec, fn, ps). afterInvocation spec ev ps fn st') st
                     (applicableHooks env ev opts specs))"
      unfolding runSpecFunction_dispatch [OF a] using r by (rule dispatchHooks_returning)
  qed
  have c10: "specFunctions spec ev = Some fn \<and> narrowParams env specFilter (args opts) = Inr (Some ps)
        \<and> fst (fn ps (store st)) = None \<longrightarrow>
        runSpecFunction env ev opts ((spec, specFilter) # specs) st
          = runSpecFunction env ev opts specs
              (st\<lparr> store := snd (fn ps (store st)),
                    invocations := invocations st @ [(specName spec, ev, ps)] \<rparr>)"
    by (simp add: Let_def)
  have c11: "narrowParams env specFilter (args opts) = Inr None \<longrightarrow>
        runSpecFunction env ev opts ((spec, specFilter) # specs) st = runSpecFunction env ev opts specs st"
    by (simp split: option.splits)
  have c12: "datapackFilter specFilter = Some (StringPattern ''Account'') \<and> recordFilter specFilter = None \<longrightarrow>
        narrowParams env specFilter (DeploymentEvent groups # others) =
          (if filter (\<lambda>g. records g \<noteq> [])
                (map (\<lambda>g. if toLowerCase (group_datapackType g) = ''account'' then g
                           else g\<lparr>records := filter (\<lambda>r. toLowerCase (datapackType r) = ''account'')
                                                (records g)\<rparr>) groups) = []
           then Inr None
           else Inr (Some (DeploymentEvent
                  (filter (\<lambda>g. records g \<noteq> [])
                     (map (\<lambda>g. if toLowerCase (group_datapackType g) = ''account'' then g
                                else g\<lparr>records := filter (\<lambda>r. toLowerCase (datapackType r) = ''account'')
                                                     (records g)\<rparr>) groups))
                  # others)))"
    using accountOnly_event by blast
  have c13: "datapackFilter specFilter = Some (StringPattern ''Account'') \<and> recordFilter specFilter = None
        \<and> list_all (\<lambda>g. group_datapackType g = ''Contact''
              \<and> list_all (\<lambda>r. toLowerCase (datapackType r) \<noteq> ''account'') (records g)) groups
        \<and> args opts = DeploymentEvent groups # others \<longrightarrow>
        narrowParams env specFilter (args opts) = Inr None
        \<and> runSpecFunction env ev opts ((spec, specFilter) # specs) st = runSpecFunction env ev opts specs st"
  proof (intro impI, elim conjE)
    assume h: "datapackFilter specFilter = Some (StringPattern ''Account'')" "recordFilter specFilter = None"
      "list_all (\<lambda>g. group_datapackType g = ''Contact''
              \<and> list_all (\<lambda>r. toLowerCase (datapackType r) \<noteq> ''account'') (records g)) groups"
      and a: "args opts = DeploymentEvent groups # others"
    have n: "narrowParams env specFilter (args opts) = Inr None"
      unfolding a using h by (rule accountOnly_contact_groups)
    then show "narrowParams env specFilter (args opts) = Inr None
        \<and> runSpecFunction env ev opts ((spec, specFilter) # specs) st = runSpecFunction env ev opts specs st"
      by (simp split: option.splits)
  qed
  show ?thesis
    using c1 c2 c3 c4 narrowParams_records [of env specFilter rs others]
      narrowParams_event [of env specFilter groups others]
      applicableHooks_set [of spec fn ps env ev opts specs] c8 c9 c10 c11 c12 c13
    by (intro conjI)
qed

theorem spec_filter_dispatch_witness:
  "narrowParams exampleDeployerEnv accountFilter [RecordArray [accountRecord, contactRecord]]
     = Inr (Some [RecordArray [accountRecord]])
   \<and> narrowParams exampleDeployerEnv accountFilter [DeploymentEvent [accountGroup, contactGroup]]
     = Inr (Some [DeploymentEvent [accountGroup]])
   \<and> narrowParams exampleDeployerEnv accountFilter [DeploymentEvent [contactGroup]] = Inr None
   \<and> runSpecFunction exampleDeployerEnv ''beforeDeploy''
         \<lparr> args = [DeploymentEvent [contactGroup]], ignoreErrors = True, errorSeverity = Some ''error'' \<rparr>
         [(markingSpec, accountFilter)] exampleState = (None, exampleState)
   \<and> fst (runSpecFunction exampleDeployerEnv ''beforeDeploy''
         \<lparr> args = [DeploymentEvent [accountGroup, contactGroup]], ignoreErrors = True,
           errorSeverity = Some ''error'' \<rparr>
         [(returningSpec, accountFilter), (markingSpec, anyRecordFilter)] exampleState) = None
   \<and> status (store (snd (runSpecFunction exampleDeployerEnv ''beforeDeploy''
         \<lparr> args = [DeploymentEvent [accountGroup, contactGroup]], ignoreErrors = True,
           errorSeverity = Some ''error'' \<rparr>
         [(returningSpec, accountFilter), (markingSpec, anyRecordFilter)] exampleState)) ''c1'') = Failed
   \<and> invocations (snd (runSpecFunction exampleDeployerEnv ''beforeDeploy''
         \<lparr> args = [DeploymentEvent [accountGroup, contactGroup]], ignoreErrors = True,
           errorSeverity = Some ''error'' \<rparr>
         [(returningSpec, accountFilter), (markingSpec, anyRecordFilter)] exampleState))
       = [(''returning'', ''beforeDeploy'', [DeploymentEvent [accountGroup]]),
          (''marking'', ''beforeDeploy'', [DeploymentEvent [accountGroup, contactGroup]])]"
proof -
  let ?contact = "\<lparr> args = [DeploymentEvent [contactGroup]], ignoreErrors = True,
                    errorSeverity = Some ''error'' \<rparr>"
  let ?both = "\<lparr> args = [DeploymentEvent [accountGroup, contactGroup]], ignoreErrors = True,
                 errorSeverity = Some ''error'' \<rparr>"
  let ?specs = "[(returningSpec, accountFilter), (markingSpec, anyRecordFilter)]"
  let ?mark = "\<lambda>(ps::SpecParam list) (s::RecordStore). (None::error option, s(''c1'' := setFailed ''marked'' (s ''c1'')))"
  let ?ret = "\<lambda>(ps::SpecParam list) (s::RecordStore). (None::error option, s)"
  note t = spec_filter_dispatch [where env = exampleDeployerEnv and specFilter = accountFilter
      and others = "[]" and spec = markingSpec and ev = "''beforeDeploy''" and st = exampleState]
  have f: "datapackFilter accountFilter = Some (StringPattern ''Account'')" "recordFilter accountFilter = None"
    by (simp_all add: accountFilter_def)
  have w1: "narrowParams exampleDeployerEnv accountFilter [RecordArray [accountRecord, contactRecord]]
     = Inr (Some [RecordArray [accountRecord]])"
  proof -
    have "narrowParams exampleDeployerEnv accountFilter (RecordArray [accountRecord, contactRecord] # []) =
       (if filter (evalFilterRecord accountFilter) [accountRecord, contactRecord] = [] then Inr None
        else Inr (Some (RecordArray (filter (evalFilterRecord accountFilter) [accountRecord, contactRecord]) # [])))"
      by (rule t [where rs = "[accountRecord, contactRecord]", THEN conjunct2, THEN conjunct2,
            THEN conjunct2, THEN conjunct2, THEN conjunct1])
    then show ?thesis by (simp add: example_defs filter_defs)
  qed
  have acc: "datapackFilter accountFilter = Some (StringPattern ''Account'') \<and> recordFilter accountFilter = None \<longrightarrow>
        narrowParams exampleDeployerEnv accountFilter (DeploymentEvent gs # []) =
          (if filter (\<lambda>g. records g \<noteq> [])
                (map (\<lambda>g. if toLowerCase (group_datapackType g) = ''account'' then g
                           else g\<lparr>records := filter (\<lambda>r. toLowerCase (datapackType r) = ''account'')
                                                (records g)\<rparr>) gs) = []
           then Inr None
           else Inr (Some (DeploymentEvent
                  (filter (\<lambda>g. records g \<noteq> [])
                     (map (\<lambda>g. if toLowerCase (group_datapackType g) = ''account'' then g
                                else g\<lparr>records := filter (\<lambda>r. toLowerCase (datapackType r) = ''account'')
                                                     (records g)\<rparr>) gs))
                  # [])))" for gs
    by (rule t [where groups = gs, THEN conjunct2, THEN conjunct2, THEN conjunct2, THEN conjunct2,
          THEN conjunct2, THEN conjunct2, THEN conjunct2, THEN conjunct2, THEN conjunct2,
          THEN conjunct2, THEN conjunct2, THEN conjunct1])
  have w2: "narrowParams exampleDeployerEnv accountFilter [DeploymentEvent [accountGroup, contactGroup]]
     = Inr (Some [DeploymentEvent [accountGroup]])"
    using acc [of "[accountGroup, contactGroup]"] f
    by (simp add: accountGroup_def contactGroup_def accountRecord_def contactRecord_def
        toLowerCase_def toLowerChar_def)
  have skip: "datapackFilter accountFilter = Some (StringPattern ''Account'') \<and> recordFilter accountFilter = None
        \<and> list_all (\<lambda>g. group_datapackType g = ''Contact''
              \<and> list_all (\<lambda>r. toLowerCase (datapackType r) \<noteq> ''account'') (records g)) [contactGroup]
        \<and> args ?contact = DeploymentEvent [contactGroup] # [] \<longrightarrow>
        narrowParams exampleDeployerEnv accountFilter (args ?contact) = Inr None
        \<and> runSpecFunction exampleDeployerEnv ''beforeDeploy'' ?contact ((markingSpec, accountFilter) # []) exampleState
            = runSpecFunction exampleDeployerEnv ''beforeDeploy'' ?contact [] exampleState"
    by (rule t [where groups = "[contactGroup]" and opts = ?contact and specs = "[]",
          THEN conjunct2, THEN conjunct2, THEN conjunct2, THEN conjunct2,
          THEN conjunct2, THEN conjunct2, THEN conjunct2, THEN conjunct2, THEN conjunct2,
          THEN conjunct2, THEN conjunct2, THEN conjunct2])
  have c: "list_all (\<lambda>g. group_datapackType g = ''Contact''
              \<and> list_all (\<lambda>r. toLowerCase (datapackType r) \<noteq> ''account'') (records g)) [contactGroup]"
    by (simp add: contactGroup_def contactRecord_def toLowerCase_def toLowerChar_def)
  have w34: "narrowParams exampleDeployerEnv accountFilter [DeploymentEvent [contactGroup]] = Inr None
      \<and> runSpecFunction exampleDeployerEnv ''beforeDeploy'' ?contact [(markingSpec, accountFilter)] exampleState
          = (None, exampleState)"
    using skip f c by simp
  have n2: "narrowParams exampleDeployerEnv anyRecordFilter [DeploymentEvent [accountGroup, contactGroup]]
      = Inr (Some [DeploymentEvent [accountGroup, contactGroup]])"
    by (simp add: narrowParams_def Let_def example_defs filter_defs)
  have hooks: "applicableHooks exampleDeployerEnv ''beforeDeploy'' ?both ?specs
      = [(returningSpec, ?ret, [DeploymentEvent [accountGroup]]),
         (markingSpec, ?mark, [DeploymentEvent [accountGroup, contactGroup]])]"
    by (simp add: applicableHooks_Cons w2 n2 returningSpec_def markingSpec_def)
  have run: "args ?both \<noteq> []
        \<and> (\<forall>spec fn ps s. (spec, fn, ps) \<in> set (applicableHooks exampleDeployerEnv ''beforeDeploy'' ?both ?specs)
               \<longrightarrow> fst (fn ps s) = None) \<longrightarrow>
        runSpecFunction exampleDeployerEnv ''beforeDeploy'' ?both ?specs exampleState
          = (None, foldl (\<lambda>st' (spec, fn, ps). afterInvocation spec ''beforeDeploy'' ps fn st') exampleState
                     (applicableHooks exampleDeployerEnv ''beforeDeploy'' ?both ?specs))"
    by (rule t [where opts = ?both and specs = ?specs, THEN conjunct2, THEN conjunct2, THEN conjunct2,
          THEN conjunct2, THEN conjunct2, THEN conjunct2, THEN conjunct2, THEN conjunct2, THEN conjunct1])
  have ret: "\<forall>spec fn ps s. (spec, fn, ps) \<in> set (applicableHooks exampleDeployerEnv ''beforeDeploy'' ?both ?specs)
               \<longrightarrow> fst (fn ps s) = None"
    unfolding hooks by auto
  have result: "runSpecFunction exampleDeployerEnv ''beforeDeploy'' ?both ?specs exampleState
      = (None, afterInvocation markingSpec ''beforeDeploy'' [DeploymentEvent [accountGroup, contactGroup]] ?mark
                 (afterInvocation returningSpec ''beforeDeploy'' [DeploymentEvent [accountGroup]] ?ret exampleState))"
    using run ret unfolding hooks by simp
  have w5: "fst (runSpecFunction exampleDeployerEnv ''beforeDeploy'' ?both ?specs exampleState) = None"
    unfolding result by simp
  have w6: "status (store (snd (runSpecFunction exampleDeployerEnv ''beforeDeploy'' ?both ?specs exampleState)) ''c1'')
      = Failed"
    unfolding result by (simp add: setFailed_def)
  have w7: "invocations (snd (runSpecFunction exampleDeployerEnv ''beforeDeploy'' ?both ?specs exampleState))
       = [(''returning'', ''beforeDeploy'', [DeploymentEvent [accountGroup]]),
          (''marking'', ''beforeDeploy'', [DeploymentEvent [accountGroup, contactGroup]])]"
    unfolding result by (simp add: exampleState_def returningSpec_def markingSpec_def)
  show ?thesis using w1 w2 w34 w5 w6 w7 by (intro conjI) simp_all
qed

section \<open>Properties of the handling of spec errors\<close>

lemma set_distinctFirst [simp]: "set (distinctFirst xs) = set xs"
  by (simp add: distinctFirst_def)

lemma mark_outside:
  "k \<notin> sourceKey ` set rs \<Longrightarrow>
     foldl (\<lambda>s r. s(sourceKey r := m (s (sourceKey r)))) s0 rs k = s0 k"
  by (induction rs arbitrary: s0) auto

lemma mark_established:
  assumes "\<And>x. Q (m x)" "r \<in> set rs"
  shows "Q (foldl (\<lambda>s r. s(sourceKey r := m (s (sourceKey r)))) s0 rs (sourceKey r))"
  using assms(2)
proof (induction rs arbitrary: s0 rule: rev_induct)
  case Nil
  then show ?case by simp
next
  case (snoc x xs)
  show ?case
  proof (cases "sourceKey x = sourceKey r")
    case True
    then show ?thesis using assms(1) by simp
  next
    case False
    then have "r \<in> set xs" using snoc.prems by auto
    then show ?thesis using snoc.IH False by simp
  qed
qed

lemma mark_preserved:
  assumes "\<And>x. g (m x) = g x"
  shows "g (foldl (\<lambda>s r. s(sourceKey r := m (s (sourceKey r)))) s0 rs k) = g (s0 k)"
  by (induction rs arbitrary: s0 k rule: rev_induct) (auto simp: assms)

lemma handleSpecFunctionError_outside:
  "k \<notin> sourceKey ` set (getAffectedRecords (args opts)) \<Longrightarrow>
     store (handleSpecFunctionError ev err opts st) k = store st k"
  by (simp add: handleSpecFunctionError_def mark_outside)

lemma handleSpecFunctionError_warn:
  assumes "errorSeverity opts = Some ''warn''" "r \<in> set (getAffectedRecords (args opts))"
  shows "(ev @ '' spec error: '' @ getErrorMessage err)
           \<in> set (warnings (store (handleSpecFunctionError ev err opts st) (sourceKey r)))"
    and "status (store (handleSpecFunctionError ev err opts st) (sourceKey r)) = status (store st (sourceKey r))"
proof -
  let ?m = "addWarning (ev @ '' spec error: '' @ getErrorMessage err)"
  have m: "specErrorMark ev err opts = ?m" using assms(1) by (simp add: specErrorMark_def)
  have "\<And>x. (ev @ '' spec error: '' @ getErrorMessage err) \<in> set (warnings (?m x))"
    by (simp add: addWarning_def)
  from mark_established [of "\<lambda>x. (ev @ '' spec error: '' @ getErrorMessage err) \<in> set (warnings x)" ?m,
      OF this assms(2)]
  show "(ev @ '' spec error: '' @ getErrorMessage err)
           \<in> set (warnings (store (handleSpecFunctionError ev err opts st) (sourceKey r)))"
    by (simp add: handleSpecFunctionError_def m)
  have "\<And>x. status (?m x) = status x" by (simp add: addWarning_def)
  from mark_preserved [of status ?m, OF this]
  show "status (store (handleSpecFunctionError ev err opts st) (sourceKey r)) = status (store st (sourceKey r))"
    by (simp add: handleSpecFunctionError_def m)
qed

lemma handleSpecFunctionError_error:
  assumes "errorSeverity opts = Some ''error''" "r \<in> set (getAffectedRecords (args opts))"
  shows "status (store (handleSpecFunctionError ev err opts st) (sourceKey r)) = Failed
     \<and> (ev @ '' spec error: '' @ getErrorMessage err)
           \<in> set (errors (store (handleSpecFunctionError ev err opts st) (sourceKey r)))"
proof -
  let ?m = "setFailed (ev @ '' spec error: '' @ getErrorMessage err)"
  have m: "specErrorMark ev err opts = ?m" using assms(1) by (simp add: specErrorMark_def)
  have "\<And>x. status (?m x) = Failed \<and> (ev @ '' spec error: '' @ getErrorMessage err) \<in> set (errors (?m x))"
    by (simp add: setFailed_def)
  from mark_established [of "\<lambda>x. status x = Failed
        \<and> (ev @ '' spec error: '' @ getErrorMessage err) \<in> set (errors x)" ?m, OF this assms(2)]
  show ?thesis by (simp add: handleSpecFunctionError_def m)
qed

lemma affected_narrowed:
  assumes "narrowParams env specFilter params = Inr (Some ps)"
  shows "set (getAffectedRecords ps) \<subseteq> set (getAffectedRecords params)"
proof (cases params)
  case Nil
  then show ?thesis using assms by (simp add: narrowParams_def)
next
  case (Cons p others)
  show ?thesis
  proof (cases p)
    case (RecordArray rs)
    then show ?thesis using assms Cons
      by (auto simp: narrowParams_def Let_def getAffectedRecords_def affectedOf_def
          filterApplicableRecords_def split: if_splits)
  next
    case (Datapack dp)
    then show ?thesis using assms Cons
      by (auto simp: narrowParams_def split: if_splits)
  next
    case (DeploymentEvent groups)
    let ?gs = "filter (\<lambda>group. records group \<noteq> [])
                 (map (\<lambda>group. if evalFilterGroup specFilter group then group
                                else filterApplicableGroup specFilter group) groups)"
    have ps: "ps = DeploymentEvent ?gs # others"
      using assms Cons DeploymentEvent by (auto simp: narrowParams_def Let_def split: if_splits)
    have "set (records g') \<subseteq> set (concat (map records groups))" if "g' \<in> set ?gs" for g'
    proof -
      have "g' \<in> (\<lambda>group. if evalFilterGroup specFilter group then group
                                else filterApplicableGroup specFilter group) ` set groups"
        using that by simp
      then obtain g where g0: "g \<in> set groups"
        "g' = (if evalFilterGroup specFilter g then g else filterApplicableGroup specFilter g)"
        by blast
      then have g: "g \<in> set groups" "g' = g \<or> g' = filterApplicableGroup specFilter g"
        by (simp_all split: if_splits)
      then have "set (records g') \<subseteq> set (records g)"
        by (auto simp: filterApplicableGroup_def filterApplicableRecords_def)
      then show ?thesis using g(1) by auto
    qed
    then have "set (concat (map records ?gs)) \<subseteq> set (concat (map records groups))"
      by auto
    then show ?thesis unfolding ps Cons DeploymentEvent
      by (auto simp: getAffectedRecords_def affectedOf_def)
  qed
qed

lemma runSpecFunction_confined:
  assumes "confinedSpecs ev specs" "k \<notin> sourceKey ` set (getAffectedRecords (args opts))"
  shows "store (snd (runSpecFunction env ev opts specs st)) k = store st k"
  using assms(1)
proof (induction specs arbitrary: st)
  case Nil
  then show ?case by simp
next
  case (Cons a specs)
  obtain spec specFilter where a: "a = (spec, specFilter)" by (cases a)
  have rest: "confinedSpecs ev specs" using Cons.prems by (simp add: confinedSpecs_def)
  have hook: "snd (fn ps (store st)) k = store st k"
    if "specFunctions spec ev = Some fn" "narrowParams env specFilter (args opts) = Inr (Some ps)" for fn ps
  proof -
    have "confinedFunction fn" using Cons.prems that(1) a by (simp add: confinedSpecs_def)
    moreover have "k \<notin> sourceKey ` set (getAffectedRecords ps)"
      using affected_narrowed [OF that(2)] assms(2) by blast
    ultimately show ?thesis unfolding confinedFunction_def by blast
  qed
  show ?case
  proof (cases rule: runSpecFunction_cases [where spec = spec and ev = ev and env = env
        and specFilter = specFilter and opts = opts and specs = specs and st = st])
    case no_function
    then show ?thesis unfolding a using Cons.IH [OF rest] by simp
  next
    case (narrow_error fn e)
    then show ?thesis unfolding a by simp
  next
    case (skipped fn)
    then show ?thesis unfolding a using Cons.IH [OF rest] by simp
  next
    case (returned fn ps)
    then show ?thesis unfolding a using Cons.IH [OF rest] hook by simp
  next
    case (ignored fn ps err)
    then show ?thesis unfolding a
      using Cons.IH [OF rest] hook handleSpecFunctionError_outside [OF assms(2)] by simp
  next
    case (propagated fn ps err)
    then show ?thesis unfolding a using hook by simp
  qed
qed

section \<open>Properties of creating a deployment\<close>

lemma convert_raises:
  assumes "\<not> cancelled i" "loadDatapack env specs opts datapack st = (Inl err, st1)"
    "\<not> continueOnError opts"
  shows "convertDatapacks env specs opts cancelled i (datapack # datapacks) added st
     = (Inl (CustomError (loadErrorMessage datapack err) err), st1)"
  using assms by (simp add: loadErrorMessage_def Let_def)

lemma convert_continues:
  assumes "\<not> cancelled i" "loadDatapack env specs opts datapack st = (Inl err, st1)"
    "continueOnError opts"
  shows "convertDatapacks env specs opts cancelled i (datapack # datapacks) added st
     = convertDatapacks env specs opts cancelled (Suc i) datapacks added
         (st1\<lparr>logged := logged st1 @ [(LogError, loadErrorMessage datapack err)]\<rparr>)"
  using assms by (simp add: loadErrorMessage_def Let_def)

lemma load_conversion_throws:
  assumes "runSpecFunction env ''preprocess'' (preprocessOptions datapack) specs st = (None, st1)"
    "createRecords env datapack = Inl e"
  shows "loadDatapack env specs opts datapack st = (Inl e, st1)"
  using assms by (simp add: loadDatapack_def preprocessOptions_def)

lemma load_preprocess_throws:
  assumes "runSpecFunction env ''preprocess'' (preprocessOptions datapack) specs st = (Some e, st1)"
  shows "loadDatapack env specs opts datapack st = (Inl e, st1)"
  using assms by (simp add: loadDatapack_def preprocessOptions_def)

lemma load_fails_when_conversion_throws:
  assumes "createRecords env datapack = Inl e"
  shows "\<exists>err. fst (loadDatapack env specs opts datapack st) = Inl err"
  using assms by (simp add: loadDatapack_def split: prod.splits option.splits)

lemma load_records:
  assumes "loadDatapack env specs opts datapack st = (Inr created, st1)"
  shows "created = convertedRecords env datapack \<and> (\<exists>x. createRecords env datapack = Inr x)"
  using assms
  by (auto simp: loadDatapack_def convertedRecords_def Let_def split: prod.splits option.splits sum.splits)

lemma convert_never_raises:
  assumes "continueOnError opts"
  shows "\<exists>recs. fst (convertDatapacks env specs opts cancelled i datapacks added st) = Inr recs"
proof (induction datapacks arbitrary: i added st)
  case Nil
  then show ?case by simp
next
  case (Cons datapack datapacks)
  show ?case
  proof (cases "cancelled i")
    case True
    then show ?thesis using Cons.IH by simp
  next
    case False
    obtain r st1 where l: "loadDatapack env specs opts datapack st = (r, st1)"
      by (cases "loadDatapack env specs opts datapack st")
    show ?thesis
    proof (cases r)
      case (Inl err)
      have l': "loadDatapack env specs opts datapack st = (Inl err, st1)" using l Inl by simp
      show ?thesis using convert_continues [where cancelled = cancelled and i = i, OF False l' assms] Cons.IH by simp
    next
      case (Inr created)
      then show ?thesis using False l Cons.IH by simp
    qed
  qed
qed

lemma convert_raises_somewhere:
  assumes "\<not> continueOnError opts" "j < length datapacks" "\<not> cancelled (i + j)"
    "createRecords env (datapacks ! j) = Inl e"
  shows "\<exists>m err. fst (convertDatapacks env specs opts cancelled i datapacks added st)
           = Inl (CustomError m err)"
  using assms(2-4)
proof (induction datapacks arbitrary: i j added st)
  case Nil
  then show ?case by simp
next
  case (Cons datapack datapacks)
  obtain r st1 where l: "loadDatapack env specs opts datapack st = (r, st1)"
    by (cases "loadDatapack env specs opts datapack st")
  show ?case
  proof (cases j)
    case 0
    then have nc: "\<not> cancelled i" and thr: "createRecords env datapack = Inl e"
      using Cons.prems by simp_all
    obtain err where "r = Inl err"
      using load_fails_when_conversion_throws [OF thr, of specs opts st] l by auto
    then have l': "loadDatapack env specs opts datapack st = (Inl err, st1)" using l by simp
    show ?thesis using convert_raises [where cancelled = cancelled and i = i, OF nc l' assms(1)] by simp
  next
    case (Suc j')
    then have later: "j' < length datapacks" "\<not> cancelled (Suc i + j')"
      "createRecords env (datapacks ! j') = Inl e"
      using Cons.prems by simp_all
    show ?thesis
    proof (cases "cancelled i")
      case True
      then show ?thesis using Cons.IH [OF later] by simp
    next
      case False
      show ?thesis
      proof (cases r)
        case (Inl err)
        then have l': "loadDatapack env specs opts datapack st = (Inl err, st1)" using l by simp
        show ?thesis using convert_raises [where cancelled = cancelled and i = i, OF False l' assms(1)] by simp
      next
        case (Inr created)
        then show ?thesis using False l Cons.IH [OF later] by simp
      qed
    qed
  qed
qed

lemma convert_provenance:
  assumes "fst (convertDatapacks env specs opts cancelled i datapacks added st) = Inr recs"
  shows "\<exists>new. recs = added @ new
     \<and> set new \<subseteq> (\<Union>dp \<in> set datapacks. set (convertedRecords env dp))"
  using assms
proof (induction datapacks arbitrary: i added st)
  case Nil
  then show ?case by simp
next
  case (Cons datapack datapacks)
  obtain r st1 where l: "loadDatapack env specs opts datapack st = (r, st1)"
    by (cases "loadDatapack env specs opts datapack st")
  show ?case
  proof (cases "cancelled i")
    case True
    then have "fst (convertDatapacks env specs opts cancelled (Suc i) datapacks added st) = Inr recs"
      using Cons.prems by simp
    then obtain new where "recs = added @ new"
      "set new \<subseteq> (\<Union>dp \<in> set datapacks. set (convertedRecords env dp))"
      using Cons.IH by blast
    then show ?thesis by auto
  next
    case False
    show ?thesis
    proof (cases r)
      case (Inl err)
      then have l': "loadDatapack env specs opts datapack st = (Inl err, st1)" using l by simp
      show ?thesis
      proof (cases "continueOnError opts")
        case True
        have "fst (convertDatapacks env specs opts cancelled (Suc i) datapacks added
            (st1\<lparr>logged := logged st1 @ [(LogError, loadErrorMessage datapack err)]\<rparr>)) = Inr recs"
          using convert_continues [where cancelled = cancelled and i = i, OF False l' True] Cons.prems by simp
        then obtain new where "recs = added @ new"
          "set new \<subseteq> (\<Union>dp \<in> set datapacks. set (convertedRecords env dp))"
          using Cons.IH by blast
        then show ?thesis by auto
      next
        case nc: False
        show ?thesis using convert_raises [where cancelled = cancelled and i = i, OF False l' nc] Cons.prems by simp
      qed
    next
      case (Inr created)
      have c: "created = convertedRecords env datapack" using load_records l Inr by blast
      have "fst (convertDatapacks env specs opts cancelled (Suc i) datapacks (added @ created) st1) = Inr recs"
        using False l Inr Cons.prems by simp
      then obtain new where "recs = (added @ created) @ new"
        "set new \<subseteq> (\<Union>dp \<in> set datapacks. set (convertedRecords env dp))"
        using Cons.IH by blast
      then have "recs = added @ (created @ new)"
        "set (created @ new) \<subseteq> (\<Union>dp \<in> set (datapack # datapacks). set (convertedRecords env dp))"
        using c by auto
      then show ?thesis by blast
    qed
  qed
qed

lemma createDeployment_fst:
  "fst (createDeployment env specs opts cancelled datapacks st)
     = fst (convertDatapacks env specs opts cancelled 0 datapacks []
             (st\<lparr>logged := logged st @ [(LogInfo, ''Converting datapacks to Salesforce records...'')]\<rparr>))"
  by (simp add: createDeployment_def split: prod.splits sum.splits)

text \<open>
  Claim C6. When the conversion of a datapack throws while the deployment is created:
  without \<^verbatim>\<open>continueOnError\<close> the operation raises an error that wraps the conversion
  error, with the message naming the datapack; with \<^verbatim>\<open>continueOnError\<close> the error is
  logged, the records added so far stay as they are, and the loop goes on with the
  remaining datapacks. As a whole: without \<^verbatim>\<open>continueOnError\<close> the operation raises a
  wrapped error whenever the conversion of a datapack that is not cancelled throws; with
  it the operation never raises, and every record of the deployment comes from a
  datapack whose conversion returned.
\<close>

theorem conversion_error_policy:
  "(\<not> cancelled i
      \<and> runSpecFunction env ''preprocess'' (preprocessOptions datapack) specs st = (None, st1)
      \<and> createRecords env datapack = Inl e \<and> \<not> continueOnError opts \<longrightarrow>
      convertDatapacks env specs opts cancelled i (datapack # datapacks) added st
        = (Inl (CustomError (loadErrorMessage datapack e) e), st1))
   \<and> (\<not> cancelled i
      \<and> runSpecFunction env ''preprocess'' (preprocessOptions datapack) specs st = (None, st1)
      \<and> createRecords env datapack = Inl e \<and> continueOnError opts \<longrightarrow>
      convertDatapacks env specs opts cancelled i (datapack # datapacks) added st
        = convertDatapacks env specs opts cancelled (Suc i) datapacks added
            (st1\<lparr>logged := logged st1 @ [(LogError, loadErrorMessage datapack e)]\<rparr>))
   \<and> (\<not> continueOnError opts \<and> j < length all \<and> \<not> cancelled j
      \<and> createRecords env (all ! j) = Inl e \<longrightarrow>
      (\<exists>m err. fst (createDeployment env specs opts cancelled all st) = Inl (CustomError m err)))
   \<and> (continueOnError opts \<longrightarrow>
      (\<exists>recs. fst (createDeployment env specs opts cancelled all st) = Inr recs
         \<and> set recs \<subseteq> (\<Union>dp \<in> set all. set (convertedRecords env dp))))
   \<and> (createRecords env datapack = Inl e \<longrightarrow> convertedRecords env datapack = [])"
proof -
  have c1: "\<not> cancelled i
      \<and> runSpecFunction env ''preprocess'' (preprocessOptions datapack) specs st = (None, st1)
      \<and> createRecords env datapack = Inl e \<and> \<not> continueOnError opts \<longrightarrow>
      convertDatapacks env specs opts cancelled i (datapack # datapacks) added st
        = (Inl (CustomError (loadErrorMessage datapack e) e), st1)"
    using convert_raises [where cancelled = cancelled and i = i] load_conversion_throws by blast
  have c2: "\<not> cancelled i
      \<and> runSpecFunction env ''preprocess'' (preprocessOptions datapack) specs st = (None, st1)
      \<and> createRecords env datapack = Inl e \<and> continueOnError opts \<longrightarrow>
      convertDatapacks env specs opts cancelled i (datapack # datapacks) added st
        = convertDatapacks env specs opts cancelled (Suc i) datapacks added
            (st1\<lparr>logged := logged st1 @ [(LogError, loadErrorMessage datapack e)]\<rparr>)"
    using convert_continues [where cancelled = cancelled and i = i] load_conversion_throws by blast
  have c3: "\<not> continueOnError opts \<and> j < length all \<and> \<not> cancelled j
      \<and> createRecords env (all ! j) = Inl e \<longrightarrow>
      (\<exists>m err. fst (createDeployment env specs opts cancelled all st) = Inl (CustomError m err))"
    unfolding createDeployment_fst
    using convert_raises_somewhere [where cancelled = cancelled and i = 0 and j = j] by simp
  have c4: "continueOnError opts \<longrightarrow>
      (\<exists>recs. fst (createDeployment env specs opts cancelled all st) = Inr recs
         \<and> set recs \<subseteq> (\<Union>dp \<in> set all. set (convertedRecords env dp)))"
  proof
    assume c: "continueOnError opts"
    let ?st = "st\<lparr>logged := logged st @ [(LogInfo, ''Converting datapacks to Salesforce records...'')]\<rparr>"
    obtain recs where r: "fst (convertDatapacks env specs opts cancelled 0 all [] ?st) = Inr recs"
      using convert_never_raises [OF c] by blast
    obtain new where "recs = [] @ new" "set new \<subseteq> (\<Union>dp \<in> set all. set (convertedRecords env dp))"
      using convert_provenance [OF r] by blast
    then show "\<exists>recs. fst (createDeployment env specs opts cancelled all st) = Inr recs
         \<and> set recs \<subseteq> (\<Union>dp \<in> set all. set (convertedRecords env dp))"
      unfolding createDeployment_fst using r by auto
  qed
  have c5: "createRecords env datapack = Inl e \<longrightarrow> convertedRecords env datapack = []"
    by (simp add: convertedRecords_def)
  show ?thesis using c1 c2 c3 c4 c5 by (intro conjI)
qed

lemmas datapack_defs = goodDatapack_def badDatapack_def strictOptions_def lenientOptions_def
  preprocessOptions_def loadErrorMessage_def

theorem conversion_error_policy_witness:
  "fst (createDeployment exampleDeployerEnv [] strictOptions (\<lambda>i. False) [goodDatapack, badDatapack] exampleState)
     = Inl (CustomError (''Error while loading Datapack '' @ [CHR 0x27] @ ''bad.json'' @ [CHR 0x27]
                          @ '' -- invalid datapack'') (Error ''invalid datapack''))
   \<and> fst (createDeployment exampleDeployerEnv [] lenientOptions (\<lambda>i. False) [badDatapack, goodDatapack] exampleState)
     = Inr [accountRecord]
   \<and> (\<exists>m err. fst (createDeployment exampleDeployerEnv [(returningSpec, accountFilter)] strictOptions
         (\<lambda>i. False) [goodDatapack, badDatapack] exampleState) = Inl (CustomError m err))
   \<and> convertedRecords exampleDeployerEnv badDatapack = []"
proof -
  have bad: "createRecords exampleDeployerEnv badDatapack = Inl (Error ''invalid datapack'')"
    by (simp add: exampleDeployerEnv_def badDatapack_def)
  have good: "createRecords exampleDeployerEnv goodDatapack = Inr [(accountRecord, pendingRecord)]"
    by (simp add: exampleDeployerEnv_def goodDatapack_def)
  have lg: "loadDatapack exampleDeployerEnv [] opts goodDatapack S
      = (Inr [accountRecord], S\<lparr>store := (store S)(sourceKey accountRecord := pendingRecord)\<rparr>)" for opts S
    by (simp add: loadDatapack_def good)
  have step_good: "convertDatapacks exampleDeployerEnv [] opts (\<lambda>i. False) i (goodDatapack # rest) added S
      = convertDatapacks exampleDeployerEnv [] opts (\<lambda>i. False) (Suc i) rest (added @ [accountRecord])
          (S\<lparr>store := (store S)(sourceKey accountRecord := pendingRecord)\<rparr>)" for opts i rest added S
    by (simp add: lg)
  have pre: "runSpecFunction exampleDeployerEnv ''preprocess'' (preprocessOptions badDatapack) [] S = (None, S)" for S
    by simp
  note t = conversion_error_policy [where env = exampleDeployerEnv and cancelled = "\<lambda>i. False"
      and datapack = badDatapack and e = "Error ''invalid datapack''"]
  have s1: "convertDatapacks exampleDeployerEnv [] strictOptions (\<lambda>i. False) i (badDatapack # rest) added S
      = (Inl (CustomError (loadErrorMessage badDatapack (Error ''invalid datapack'')) (Error ''invalid datapack'')), S)"
    for i rest added S
    using t [where specs = "[]" and opts = strictOptions and st = S and ?st1.0 = S and i = i
        and datapacks = rest and added = added] pre bad
    by (simp add: strictOptions_def)
  have w1: "fst (createDeployment exampleDeployerEnv [] strictOptions (\<lambda>i. False) [goodDatapack, badDatapack] exampleState)
     = Inl (CustomError (''Error while loading Datapack '' @ [CHR 0x27] @ ''bad.json'' @ [CHR 0x27]
                          @ '' -- invalid datapack'') (Error ''invalid datapack''))"
    unfolding createDeployment_fst step_good s1
    by (simp add: loadErrorMessage_def badDatapack_def)
  have s2: "convertDatapacks exampleDeployerEnv [] lenientOptions (\<lambda>i. False) i (badDatapack # rest) added S
      = convertDatapacks exampleDeployerEnv [] lenientOptions (\<lambda>i. False) (Suc i) rest added
          (S\<lparr>logged := logged S @ [(LogError, loadErrorMessage badDatapack (Error ''invalid datapack''))]\<rparr>)"
    for i rest added S
    using t [where specs = "[]" and opts = lenientOptions and st = S and ?st1.0 = S and i = i
        and datapacks = rest and added = added] pre bad
    by (simp add: lenientOptions_def strictOptions_def)
  have w2: "fst (createDeployment exampleDeployerEnv [] lenientOptions (\<lambda>i. False) [badDatapack, goodDatapack] exampleState)
     = Inr [accountRecord]"
    unfolding createDeployment_fst s2 step_good
    by simp
  have w3: "\<exists>m err. fst (createDeployment exampleDeployerEnv [(returningSpec, accountFilter)] strictOptions
         (\<lambda>i. False) [goodDatapack, badDatapack] exampleState) = Inl (CustomError m err)"
    using t [where specs = "[(returningSpec, accountFilter)]" and opts = strictOptions
        and all = "[goodDatapack, badDatapack]" and j = 1 and st = exampleState] bad
    by (simp add: strictOptions_def)
  have w4: "convertedRecords exampleDeployerEnv badDatapack = []"
    using t bad by blast
  show ?thesis using w1 w2 w3 w4 by (intro conjI)
qed

text \<open>
  Claim C2. The claim as worded fails: a thrown error that is not ignored does not always
  abort the run. The preprocess functions are dispatched without \<^verbatim>\<open>ignoreErrors\<close>; when
  one throws while a deployment is created with \<^verbatim>\<open>continueOnError\<close>, the error reaches
  the caller, is logged there, and the deployment is created all the same.
\<close>

theorem spec_error_policy_counterexample:
  "\<not> ignoreErrors (preprocessOptions goodDatapack)
   \<and> fst (runSpecFunction exampleDeployerEnv ''preprocess'' (preprocessOptions goodDatapack)
            [(throwingSpec, anyRecordFilter)]
            (exampleState\<lparr>logged := [(LogInfo, ''Converting datapacks to Salesforce records...'')]\<rparr>))
       = Some (Error ''boom'')
   \<and> fst (createDeployment exampleDeployerEnv [(throwingSpec, anyRecordFilter)] lenientOptions
            (\<lambda>i. False) [goodDatapack] exampleState) = Inr []"
proof -
  have n: "narrowParams exampleDeployerEnv anyRecordFilter [Datapack goodDatapack]
      = Inr (Some [Datapack goodDatapack])"
    by (simp add: narrowParams_def evalFilterDatapack_def anyRecordFilter_def)
  have r: "runSpecFunction exampleDeployerEnv ''preprocess'' (preprocessOptions goodDatapack)
      [(throwingSpec, anyRecordFilter)] S
      = (Some (Error ''boom''), afterInvocation throwingSpec ''preprocess'' [Datapack goodDatapack]
            (\<lambda>ps s. (Some (Error ''boom''), s)) S)" for S
    by (simp add: preprocessOptions_def n throwingSpec_def Let_def afterInvocation_def)
  have l: "loadDatapack exampleDeployerEnv [(throwingSpec, anyRecordFilter)] lenientOptions goodDatapack S
      = (Inl (Error ''boom''), afterInvocation throwingSpec ''preprocess'' [Datapack goodDatapack]
            (\<lambda>ps s. (Some (Error ''boom''), s)) S)" for S
    using load_preprocess_throws [OF r] by simp
  have c: "continueOnError lenientOptions"
    by (simp add: lenientOptions_def)
  have "fst (createDeployment exampleDeployerEnv [(throwingSpec, anyRecordFilter)] lenientOptions
            (\<lambda>i. False) [goodDatapack] exampleState) = Inr []"
    unfolding createDeployment_fst
    using convert_continues [where cancelled = "\<lambda>i. False" and i = 0, OF _ l c] by simp
  then show ?thesis using r by (simp add: preprocessOptions_def)
qed

text \<open>
  Claim C2, amended. When the function of a spec throws: with \<^verbatim>\<open>ignoreErrors\<close> the
  dispatch handles the error and goes on with the specs registered after it; without,
  the error is returned to the caller at once and no further spec is called, and the
  caller in \<^verbatim>\<open>createDeployment\<close> raises unless \<^verbatim>\<open>continueOnError\<close> is set, in which case it
  logs the error and goes on with the next datapack. Handling attaches the
  error to every record of the event payload: with severity \<^verbatim>\<open>warn\<close> as a warning,
  leaving the status, with severity \<^verbatim>\<open>error\<close> by failing the record. The records of the
  payload are all records of the array, or of the groups of the event. The handling of
  the error changes no record outside the payload, and a dispatch whose spec functions
  are confined to the records they are passed changes no record outside the payload.
\<close>

theorem spec_error_policy:
  "(specFunctions spec ev = Some fn \<and> narrowParams env specFilter (args opts) = Inr (Some ps)
      \<and> fst (fn ps (store st)) = Some err \<and> ignoreErrors opts \<longrightarrow>
      runSpecFunction env ev opts ((spec, specFilter) # specs) st
        = runSpecFunction env ev opts specs
            (handleSpecFunctionError ev err opts (afterInvocation spec ev ps fn st)))
   \<and> (specFunctions spec ev = Some fn \<and> narrowParams env specFilter (args opts) = Inr (Some ps)
      \<and> fst (fn ps (store st)) = Some err \<and> \<not> ignoreErrors opts \<longrightarrow>
      runSpecFunction env ev opts ((spec, specFilter) # specs) st
        = (Some err, afterInvocation spec ev ps fn st))
   \<and> (errorSeverity opts = Some ''warn'' \<longrightarrow>
      list_all (\<lambda>r. (ev @ '' spec error: '' @ getErrorMessage err)
                      \<in> set (warnings (store (handleSpecFunctionError ev err opts st) (sourceKey r)))
                  \<and> status (store (handleSpecFunctionError ev err opts st) (sourceKey r))
                      = status (store st (sourceKey r)))
        (getAffectedRecords (args opts)))
   \<and> (errorSeverity opts = Some ''error'' \<longrightarrow>
      list_all (\<lambda>r. status (store (handleSpecFunctionError ev err opts st) (sourceKey r)) = Failed
                  \<and> (ev @ '' spec error: '' @ getErrorMessage err)
                      \<in> set (errors (store (handleSpecFunctionError ev err opts st) (sourceKey r))))
        (getAffectedRecords (args opts)))
   \<and> set (getAffectedRecords [RecordArray rs]) = set rs
   \<and> set (getAffectedRecords [DeploymentEvent groups]) = (\<Union>g \<in> set groups. set (records g))
   \<and> (k \<notin> sourceKey ` set (getAffectedRecords (args opts)) \<longrightarrow>
        store (handleSpecFunctionError ev err opts st) k = store st k)
   \<and> (confinedSpecs ev specs \<and> k \<notin> sourceKey ` set (getAffectedRecords (args opts)) \<longrightarrow>
        store (snd (runSpecFunction env ev opts specs st)) k = store st k)
   \<and> (\<not> cancelled i
        \<and> runSpecFunction env ''preprocess'' (preprocessOptions datapack) specs st = (Some e, st1) \<longrightarrow>
        convertDatapacks env specs dopts cancelled i (datapack # datapacks) added st
          = (if \<not> continueOnError dopts
             then (Inl (CustomError (loadErrorMessage datapack e) e), st1)
             else convertDatapacks env specs dopts cancelled (Suc i) datapacks added
                    (st1\<lparr>logged := logged st1 @ [(LogError, loadErrorMessage datapack e)]\<rparr>)))"
proof -
  have c9: "\<not> cancelled i
        \<and> runSpecFunction env ''preprocess'' (preprocessOptions datapack) specs st = (Some e, st1) \<longrightarrow>
        convertDatapacks env specs dopts cancelled i (datapack # datapacks) added st
          = (if \<not> continueOnError dopts
             then (Inl (CustomError (loadErrorMessage datapack e) e), st1)
             else convertDatapacks env specs dopts cancelled (Suc i) datapacks added
                    (st1\<lparr>logged := logged st1 @ [(LogError, loadErrorMessage datapack e)]\<rparr>))"
    using convert_raises [where cancelled = cancelled and i = i and opts = dopts]
      convert_continues [where cancelled = cancelled and i = i and opts = dopts]
      load_preprocess_throws [where opts = dopts]
    by (cases "continueOnError dopts") (simp_all del: convertDatapacks.simps)
  have c1: "specFunctions spec ev = Some fn \<and> narrowParams env specFilter (args opts) = Inr (Some ps)
      \<and> fst (fn ps (store st)) = Some err \<and> ignoreErrors opts \<longrightarrow>
      runSpecFunction env ev opts ((spec, specFilter) # specs) st
        = runSpecFunction env ev opts specs
            (handleSpecFunctionError ev err opts (afterInvocation spec ev ps fn st))"
    by (simp add: Let_def afterInvocation_def)
  have c2: "specFunctions spec ev = Some fn \<and> narrowParams env specFilter (args opts) = Inr (Some ps)
      \<and> fst (fn ps (store st)) = Some err \<and> \<not> ignoreErrors opts \<longrightarrow>
      runSpecFunction env ev opts ((spec, specFilter) # specs) st
        = (Some err, afterInvocation spec ev ps fn st)"
    by (simp add: Let_def afterInvocation_def)
  have c3: "errorSeverity opts = Some ''warn'' \<longrightarrow>
      list_all (\<lambda>r. (ev @ '' spec error: '' @ getErrorMessage err)
                      \<in> set (warnings (store (handleSpecFunctionError ev err opts st) (sourceKey r)))
                  \<and> status (store (handleSpecFunctionError ev err opts st) (sourceKey r))
                      = status (store st (sourceKey r)))
        (getAffectedRecords (args opts))"
    unfolding list_all_iff using handleSpecFunctionError_warn [of opts _ ev err st] by blast
  have c4: "errorSeverity opts = Some ''error'' \<longrightarrow>
      list_all (\<lambda>r. status (store (handleSpecFunctionError ev err opts st) (sourceKey r)) = Failed
                  \<and> (ev @ '' spec error: '' @ getErrorMessage err)
                      \<in> set (errors (store (handleSpecFunctionError ev err opts st) (sourceKey r))))
        (getAffectedRecords (args opts))"
    unfolding list_all_iff using handleSpecFunctionError_error [of opts _ ev err st] by blast
  have c5: "set (getAffectedRecords [RecordArray rs]) = set rs"
    by (simp add: getAffectedRecords_def affectedOf_def)
  have c6: "set (getAffectedRecords [DeploymentEvent groups]) = (\<Union>g \<in> set groups. set (records g))"
    by (simp add: getAffectedRecords_def affectedOf_def)
  have c7: "k \<notin> sourceKey ` set (getAffectedRecords (args opts)) \<longrightarrow>
        store (handleSpecFunctionError ev err opts st) k = store st k"
    using handleSpecFunctionError_outside by blast
  have c8: "confinedSpecs ev specs \<and> k \<notin> sourceKey ` set (getAffectedRecords (args opts)) \<longrightarrow>
        store (snd (runSpecFunction env ev opts specs st)) k = store st k"
    using runSpecFunction_confined by blast
  show ?thesis using c1 c2 c3 c4 c5 c6 c7 c8 c9 by (intro conjI)
qed

theorem spec_error_policy_witness:
  "status (store (snd (runSpecFunction exampleDeployerEnv ''beforeDeployRecord''
       \<lparr> args = [RecordArray [accountRecord]], ignoreErrors = True, errorSeverity = Some ''error'' \<rparr>
       [(throwingSpec, anyRecordFilter), (returningSpec, accountFilter)] exampleState)) ''a1'') = Failed
   \<and> store (snd (runSpecFunction exampleDeployerEnv ''beforeDeployRecord''
       \<lparr> args = [RecordArray [accountRecord]], ignoreErrors = True, errorSeverity = Some ''error'' \<rparr>
       [(throwingSpec, anyRecordFilter), (returningSpec, accountFilter)] exampleState)) ''c1'' = pendingRecord
   \<and> invocations (snd (runSpecFunction exampleDeployerEnv ''beforeDeployRecord''
       \<lparr> args = [RecordArray [accountRecord]], ignoreErrors = True, errorSeverity = Some ''error'' \<rparr>
       [(throwingSpec, anyRecordFilter), (returningSpec, accountFilter)] exampleState))
     = [(''throwing'', ''beforeDeployRecord'', [RecordArray [accountRecord]]),
        (''returning'', ''beforeDeployRecord'', [RecordArray [accountRecord]])]
   \<and> warnings (store (handleSpecFunctionError ''afterDeployRecord'' (Error ''boom'')
       \<lparr> args = [RecordArray [accountRecord]], ignoreErrors = True, errorSeverity = Some ''warn'' \<rparr>
       exampleState) ''a1'') = [''afterDeployRecord spec error: boom'']
   \<and> runSpecFunction exampleDeployerEnv ''preprocess''
       \<lparr> args = [RecordArray [accountRecord]], ignoreErrors = False, errorSeverity = None \<rparr>
       [(throwingSpec, anyRecordFilter), (returningSpec, accountFilter)] exampleState
     = (Some (Error ''boom''),
        exampleState\<lparr>invocations := [(''throwing'', ''preprocess'', [RecordArray [accountRecord]])]\<rparr>)
   \<and> ''afterDeployRecord spec error: boom''
       \<in> set (warnings (store (handleSpecFunctionError ''afterDeployRecord'' (Error ''boom'')
             \<lparr> args = [RecordArray [accountRecord]], ignoreErrors = True, errorSeverity = Some ''warn'' \<rparr>
             exampleState) ''a1''))
   \<and> fst (convertDatapacks exampleDeployerEnv [(throwingSpec, anyRecordFilter)] strictOptions
            (\<lambda>i. False) 0 [goodDatapack] [] exampleState)
       = Inl (CustomError (loadErrorMessage goodDatapack (Error ''boom'')) (Error ''boom''))"
proof -
  let ?specs = "[(throwingSpec, anyRecordFilter), (returningSpec, accountFilter)]"
  let ?fail = "\<lparr> args = [RecordArray [accountRecord]], ignoreErrors = True, errorSeverity = Some ''error'' \<rparr>"
  let ?warn = "\<lparr> args = [RecordArray [accountRecord]], ignoreErrors = True, errorSeverity = Some ''warn'' \<rparr>"
  let ?strict = "\<lparr> args = [RecordArray [accountRecord]], ignoreErrors = False, errorSeverity = None \<rparr>"
  let ?throw = "\<lambda>(ps::SpecParam list) (s::RecordStore). (Some (Error ''boom''), s)"
  have n: "narrowParams exampleDeployerEnv anyRecordFilter [RecordArray [accountRecord]]
      = Inr (Some [RecordArray [accountRecord]])"
    by (simp add: narrowParams_def Let_def example_defs filter_defs)
  have na: "narrowParams exampleDeployerEnv accountFilter [RecordArray [accountRecord]]
      = Inr (Some [RecordArray [accountRecord]])"
    by (simp add: narrowParams_def Let_def example_defs filter_defs)
  have run: "runSpecFunction exampleDeployerEnv ''beforeDeployRecord'' ?fail ?specs exampleState
      = runSpecFunction exampleDeployerEnv ''beforeDeployRecord'' ?fail [(returningSpec, accountFilter)]
          (handleSpecFunctionError ''beforeDeployRecord'' (Error ''boom'') ?fail
             (afterInvocation throwingSpec ''beforeDeployRecord'' [RecordArray [accountRecord]] ?throw exampleState))"
    using spec_error_policy [where spec = throwingSpec and ev = "''beforeDeployRecord''" and fn = ?throw
        and env = exampleDeployerEnv and specFilter = anyRecordFilter and opts = ?fail
        and ps = "[RecordArray [accountRecord]]" and st = exampleState and err = "Error ''boom''"
        and specs = "[(returningSpec, accountFilter)]"] n
    by (simp add: throwingSpec_def)
  have a: "getAffectedRecords [RecordArray [accountRecord]] = [accountRecord]"
    by (simp add: getAffectedRecords_def affectedOf_def distinctFirst_def)
  have sk: "sourceKey accountRecord = ''a1''"
    by (simp add: accountRecord_def)
  have second: "runSpecFunction exampleDeployerEnv ''beforeDeployRecord'' ?fail [(returningSpec, accountFilter)] S
      = (None, afterInvocation returningSpec ''beforeDeployRecord'' [RecordArray [accountRecord]]
                 (\<lambda>ps s. (None, s)) S)" for S
    by (simp add: na returningSpec_def Let_def afterInvocation_def)
  have w1: "status (store (snd (runSpecFunction exampleDeployerEnv ''beforeDeployRecord'' ?fail ?specs
      exampleState)) ''a1'') = Failed"
    unfolding run second
    by (simp add: handleSpecFunctionError_def a specErrorMark_def setFailed_def sk)
  have conf: "confinedSpecs ''beforeDeployRecord'' ?specs"
    by (simp add: confinedSpecs_def confinedFunction_def throwingSpec_def returningSpec_def)
  have out: "''c1'' \<notin> sourceKey ` set (getAffectedRecords (args ?fail))"
    by (simp add: a sk)
  have w2: "store (snd (runSpecFunction exampleDeployerEnv ''beforeDeployRecord'' ?fail ?specs
      exampleState)) ''c1'' = pendingRecord"
    using spec_error_policy [where ev = "''beforeDeployRecord''" and env = exampleDeployerEnv
        and opts = ?fail and st = exampleState and specs = ?specs and k = "''c1''"] conf out
    by (simp add: exampleState_def)
  have w3: "invocations (snd (runSpecFunction exampleDeployerEnv ''beforeDeployRecord'' ?fail ?specs
      exampleState))
     = [(''throwing'', ''beforeDeployRecord'', [RecordArray [accountRecord]]),
        (''returning'', ''beforeDeployRecord'', [RecordArray [accountRecord]])]"
    unfolding run second
    by (simp add: returningSpec_def throwingSpec_def exampleState_def)
  have w4: "warnings (store (handleSpecFunctionError ''afterDeployRecord'' (Error ''boom'') ?warn
       exampleState) ''a1'') = [''afterDeployRecord spec error: boom'']"
    by (simp add: handleSpecFunctionError_def a specErrorMark_def addWarning_def sk
        exampleState_def pendingRecord_def)
  have w5: "runSpecFunction exampleDeployerEnv ''preprocess'' ?strict ?specs exampleState
     = (Some (Error ''boom''),
        exampleState\<lparr>invocations := [(''throwing'', ''preprocess'', [RecordArray [accountRecord]])]\<rparr>)"
    using spec_error_policy [where spec = throwingSpec and ev = "''preprocess''" and fn = ?throw
        and env = exampleDeployerEnv and specFilter = anyRecordFilter and opts = ?strict
        and ps = "[RecordArray [accountRecord]]" and st = exampleState and err = "Error ''boom''"
        and specs = "[(returningSpec, accountFilter)]"] n
    by (simp add: throwingSpec_def afterInvocation_def exampleState_def)
  have w6: "''afterDeployRecord spec error: boom''
       \<in> set (warnings (store (handleSpecFunctionError ''afterDeployRecord'' (Error ''boom'') ?warn
             exampleState) ''a1''))"
    using spec_error_policy [where ev = "''afterDeployRecord''" and opts = ?warn
        and err = "Error ''boom''" and st = exampleState]
    by (simp add: a sk)
  have nd: "narrowParams exampleDeployerEnv anyRecordFilter [Datapack goodDatapack]
      = Inr (Some [Datapack goodDatapack])"
    by (simp add: narrowParams_def evalFilterDatapack_def anyRecordFilter_def)
  have pre: "runSpecFunction exampleDeployerEnv ''preprocess'' (preprocessOptions goodDatapack)
      [(throwingSpec, anyRecordFilter)] exampleState
      = (Some (Error ''boom''), afterInvocation throwingSpec ''preprocess'' [Datapack goodDatapack]
            ?throw exampleState)"
    by (simp add: preprocessOptions_def nd throwingSpec_def Let_def afterInvocation_def)
  have w7: "fst (convertDatapacks exampleDeployerEnv [(throwingSpec, anyRecordFilter)] strictOptions
            (\<lambda>i. False) 0 [goodDatapack] [] exampleState)
       = Inl (CustomError (loadErrorMessage goodDatapack (Error ''boom'')) (Error ''boom''))"
    using spec_error_policy [where env = exampleDeployerEnv and cancelled = "\<lambda>i. False" and i = 0
        and datapack = goodDatapack and specs = "[(throwingSpec, anyRecordFilter)]"
        and st = exampleState and e = "Error ''boom''" and dopts = strictOptions
        and datapacks = "[]" and added = "[]"
        and ?st1.0 = "afterInvocation throwingSpec ''preprocess'' [Datapack goodDatapack] ?throw exampleState"]
      pre
    by (simp add: strictOptions_def del: convertDatapacks.simps)
  show ?thesis using w1 w2 w3 w4 w5 w6 w7 by (intro conjI)
qed

section \<open>Properties of the trigger state and of the verification\<close>

lemma setVlocityTriggerState_frame [simp]:
  "store (snd (setVlocityTriggerState env b st)) = store st"
  "invocations (snd (setVlocityTriggerState env b st)) = invocations st"
  by (simp_all add: setVlocityTriggerState_def Let_def)

lemma setVlocityTriggerState_frameD:
  assumes "setVlocityTriggerState env b st = (r, st')"
  shows "store st' = store st" "invocations st' = invocations st"
  using setVlocityTriggerState_frame [of env b st] assms by simp_all

lemma setVlocityTriggerState_ok:
  assumes "\<forall>n. \<not> triggerSetupFails env n"
  shows "fst (setVlocityTriggerState env b st) = None"
    and "triggerSetup (org (snd (setVlocityTriggerState env b st))) = Some b"
  using assms by (simp_all add: setVlocityTriggerState_def Let_def)

lemma collectUpdates_frame:
  "store (fst (snd (collectUpdates env fieldNames groups st recordBatch))) = store st
   \<and> invocations (fst (snd (collectUpdates env fieldNames groups st recordBatch))) = invocations st
   \<and> triggerSetup (org (fst (snd (collectUpdates env fieldNames groups st recordBatch)))) = triggerSetup (org st)"
proof (induction groups arbitrary: st recordBatch)
  case Nil
  then show ?case by simp
next
  case (Cons a groups)
  obtain t deployed where a: "a = (t, deployed)" by (cases a)
  show ?case unfolding a
    by (simp add: Let_def Cons.IH split: sum.splits)
qed

lemma collectUpdates_no_error:
  assumes "\<forall>n ids fs. \<exists>rows. lookupById env n ids fs = Inr rows"
  shows "fst (collectUpdates env fieldNames groups st recordBatch) = None"
proof (induction groups arbitrary: st recordBatch)
  case Nil
  then show ?case by simp
next
  case (Cons a groups)
  obtain t deployed where a: "a = (t, deployed)" by (cases a)
  let ?fl = "List.map_filter (describeSObjectField env t) fieldNames"
  obtain rows where "lookupById env (clock (org st))
      (distinctFirst (map (\<lambda>r. recordId (store st (sourceKey r))) deployed)) ?fl = Inr rows"
    using assms by blast
  then show ?case unfolding a
    by (simp add: Let_def Cons.IH)
qed

text \<open>The verification, written with projections instead of case distinctions on pairs.\<close>

lemma verify_unfold:
  assumes "collectUpdates env fieldNames
      (groupBy sobjectType (filter (\<lambda>r. isDeployed (store st (sourceKey r))) recs)) st []
      = (e, st1, recordBatch)"
  shows "verifyDeployedFieldData env recs fieldNames st =
     (case e of
        Some x \<Rightarrow> (Some x, st1)
      | None \<Rightarrow>
          if recordBatch = [] then (None, st1)
          else
            (let st2 = st1\<lparr>logged := logged st1 @ [(LogInfo, ''Updating records with mismatching values'')]\<rparr>;
                 off = setVlocityTriggerState env False st2;
                 st3 = snd off;
                 executed = executeBatch env (clock (org st3)) recordBatch;
                 st4 = st3\<lparr> org := (org st3)\<lparr>clock := Suc (clock (org st3))\<rparr>,
                            logged := logged st3 @ updateFailures (fst executed) \<rparr>;
                 on = setVlocityTriggerState env True st4
             in if fst off \<noteq> None then off
                else if fst on \<noteq> None then on
                else (snd executed, snd on)))"
proof (cases e)
  case (Some x)
  then show ?thesis using assms by (simp add: verifyDeployedFieldData_def Let_def)
next
  case None
  show ?thesis
  proof (cases "recordBatch = []")
    case True
    then show ?thesis using assms None by (simp add: verifyDeployedFieldData_def Let_def)
  next
    case False
    let ?st2 = "st1\<lparr>logged := logged st1 @ [(LogInfo, ''Updating records with mismatching values'')]\<rparr>"
    obtain r1 st3 where off: "setVlocityTriggerState env False ?st2 = (r1, st3)"
      by (cases "setVlocityTriggerState env False ?st2")
    let ?st4 = "st3\<lparr> org := (org st3)\<lparr>clock := Suc (clock (org st3))\<rparr>,
                     logged := logged st3 @ updateFailures (fst (executeBatch env (clock (org st3)) recordBatch)) \<rparr>"
    obtain r2 st5 where on: "setVlocityTriggerState env True ?st4 = (r2, st5)"
      by (cases "setVlocityTriggerState env True ?st4")
    show ?thesis
      using assms None False off on
      by (cases r1; cases r2) (simp_all add: verifyDeployedFieldData_def Let_def)
  qed
qed

lemma verify_frame:
  "store (snd (verifyDeployedFieldData env recs fieldNames st)) = store st
   \<and> invocations (snd (verifyDeployedFieldData env recs fieldNames st)) = invocations st"
proof -
  let ?groups = "groupBy sobjectType (filter (\<lambda>r. isDeployed (store st (sourceKey r))) recs)"
  obtain e st1 recordBatch where c: "collectUpdates env fieldNames ?groups st [] = (e, st1, recordBatch)"
    by (cases "collectUpdates env fieldNames ?groups st []") auto
  have f: "store st1 = store st" "invocations st1 = invocations st"
    using collectUpdates_frame [of env fieldNames ?groups st "[]"] c by simp_all
  show ?thesis
    unfolding verify_unfold [OF c]
    using f by (cases e) (simp_all add: Let_def)
qed

lemma verify_no_error:
  assumes "\<forall>n. \<not> triggerSetupFails env n"
    and "\<forall>n ids fs. \<exists>rows. lookupById env n ids fs = Inr rows"
    and "\<forall>n b. snd (executeBatch env n b) = None"
  shows "fst (verifyDeployedFieldData env recs fieldNames st) = None"
proof -
  let ?groups = "groupBy sobjectType (filter (\<lambda>r. isDeployed (store st (sourceKey r))) recs)"
  obtain e st1 recordBatch where c: "collectUpdates env fieldNames ?groups st [] = (e, st1, recordBatch)"
    by (cases "collectUpdates env fieldNames ?groups st []") auto
  have e: "e = None"
    using collectUpdates_no_error [OF assms(2), of fieldNames ?groups st "[]"] c by simp
  show ?thesis
    unfolding verify_unfold [OF c] e
    by (simp add: Let_def setVlocityTriggerState_ok [OF assms(1)] assms(3))
qed

lemma verify_trigger:
  assumes "\<forall>n. \<not> triggerSetupFails env n"
  shows "triggerSetup (org (snd (verifyDeployedFieldData env recs fieldNames st))) = Some True
     \<or> triggerSetup (org (snd (verifyDeployedFieldData env recs fieldNames st))) = triggerSetup (org st)"
proof -
  let ?groups = "groupBy sobjectType (filter (\<lambda>r. isDeployed (store st (sourceKey r))) recs)"
  obtain e st1 recordBatch where c: "collectUpdates env fieldNames ?groups st [] = (e, st1, recordBatch)"
    by (cases "collectUpdates env fieldNames ?groups st []") auto
  have f: "triggerSetup (org st1) = triggerSetup (org st)"
    using collectUpdates_frame [of env fieldNames ?groups st "[]"] c by simp
  show ?thesis
    unfolding verify_unfold [OF c]
    using f by (cases e) (simp_all add: Let_def setVlocityTriggerState_ok [OF assms])
qed

text \<open>The cleanup of the corrective update: the triggers are on after it, thrown or not.\<close>

lemma verify_finally:
  assumes "\<forall>n. \<not> triggerSetupFails env n"
    and "collectUpdates env fieldNames
      (groupBy sobjectType (filter (\<lambda>r. isDeployed (store st (sourceKey r))) recs)) st []
      = (None, st1, recordBatch)"
    and "recordBatch \<noteq> []"
  shows "triggerSetup (org (snd (verifyDeployedFieldData env recs fieldNames st))) = Some True"
  unfolding verify_unfold [OF assms(2)]
  using assms(3) by (simp add: Let_def setVlocityTriggerState_ok [OF assms(1)])

lemma filter_deployed_idem:
  "filter (\<lambda>r. isDeployed (store st (sourceKey r)))
     (filter (\<lambda>r. status (store st (sourceKey r)) = Deployed) recs)
   = filter (\<lambda>r. isDeployed (store st (sourceKey r))) recs"
  by (induction recs) (simp_all add: isDeployed_def)

lemma verify_deployed_only:
  "verifyDeployedFieldData env recs fieldNames st
     = verifyDeployedFieldData env (filter (\<lambda>r. status (store st (sourceKey r)) = Deployed) recs) fieldNames st"
  by (simp only: verifyDeployedFieldData_def filter_deployed_idem)

section \<open>Properties of the event handlers\<close>

lemma case_pair_option_id:
  "(case p of (None, s) \<Rightarrow> (None, s) | (Some e, s) \<Rightarrow> (Some e, s)) = p"
  by (cases p) (auto split: option.splits)

lemma cancelled_before:
  assumes "isCancelled deployment"
  shows "beforeDeployRecord env specs deployment recs st
     = (if disableTriggers (options deployment) then setVlocityTriggerState env False st else (None, st))"
proof -
  obtain r st1 where s: "setVlocityTriggerState env False st = (r, st1)"
    by (cases "setVlocityTriggerState env False st")
  show ?thesis using assms s by (cases r) (simp_all add: beforeDeployRecord_def)
qed

lemma cancelled_after:
  assumes "isCancelled deployment"
  shows "afterDeployRecord env specs deployment recs st
     = (if disableTriggers (options deployment) then setVlocityTriggerState env True st else (None, st))"
proof -
  obtain r st1 where s: "setVlocityTriggerState env True st = (r, st1)"
    by (cases "setVlocityTriggerState env True st")
  show ?thesis using assms s by (cases r) (simp_all add: afterDeployRecord_def)
qed

text \<open>
  Claim C10. Once the deployment is cancelled, the four handlers call no spec function:
  the group handlers return at once, leaving the state as it is, and the record handlers
  do nothing but switch the triggers when the option \<^verbatim>\<open>disableTriggers\<close> is set, off
  before and on after the records are deployed.
\<close>

theorem cancelled_handlers:
  "isCancelled deployment \<longrightarrow>
     beforeDeployRecordGroup env specs deployment groups st = (None, st)
     \<and> afterDeployRecordGroup env specs deployment groups st = (None, st)
     \<and> beforeDeployRecord env specs deployment recs st
         = (if disableTriggers (options deployment) then setVlocityTriggerState env False st else (None, st))
     \<and> afterDeployRecord env specs deployment recs st
         = (if disableTriggers (options deployment) then setVlocityTriggerState env True st else (None, st))
     \<and> invocations (snd (beforeDeployRecord env specs deployment recs st)) = invocations st
     \<and> invocations (snd (afterDeployRecord env specs deployment recs st)) = invocations st
     \<and> store (snd (beforeDeployRecord env specs deployment recs st)) = store st
     \<and> store (snd (afterDeployRecord env specs deployment recs st)) = store st
     \<and> (disableTriggers (options deployment) \<and> (\<forall>n. \<not> triggerSetupFails env n) \<longrightarrow>
          triggerSetup (org (snd (beforeDeployRecord env specs deployment recs st))) = Some False
          \<and> triggerSetup (org (snd (afterDeployRecord env specs deployment recs st))) = Some True)"
proof
  assume c: "isCancelled deployment"
  have g1: "beforeDeployRecordGroup env specs deployment groups st = (None, st)"
    using c by (simp add: beforeDeployRecordGroup_def)
  have g2: "afterDeployRecordGroup env specs deployment groups st = (None, st)"
    using c by (simp add: afterDeployRecordGroup_def)
  note b = cancelled_before [OF c, of env specs recs st]
  note a = cancelled_after [OF c, of env specs recs st]
  have i1: "invocations (snd (beforeDeployRecord env specs deployment recs st)) = invocations st"
    and s1: "store (snd (beforeDeployRecord env specs deployment recs st)) = store st"
    unfolding b by simp_all
  have i2: "invocations (snd (afterDeployRecord env specs deployment recs st)) = invocations st"
    and s2: "store (snd (afterDeployRecord env specs deployment recs st)) = store st"
    unfolding a by simp_all
  have t: "disableTriggers (options deployment) \<and> (\<forall>n. \<not> triggerSetupFails env n) \<longrightarrow>
          triggerSetup (org (snd (beforeDeployRecord env specs deployment recs st))) = Some False
          \<and> triggerSetup (org (snd (afterDeployRecord env specs deployment recs st))) = Some True"
    unfolding a b by (simp add: setVlocityTriggerState_ok)
  show "beforeDeployRecordGroup env specs deployment groups st = (None, st)
     \<and> afterDeployRecordGroup env specs deployment groups st = (None, st)
     \<and> beforeDeployRecord env specs deployment recs st
         = (if disableTriggers (options deployment) then setVlocityTriggerState env False st else (None, st))
     \<and> afterDeployRecord env specs deployment recs st
         = (if disableTriggers (options deployment) then setVlocityTriggerState env True st else (None, st))
     \<and> invocations (snd (beforeDeployRecord env specs deployment recs st)) = invocations st
     \<and> invocations (snd (afterDeployRecord env specs deployment recs st)) = invocations st
     \<and> store (snd (beforeDeployRecord env specs deployment recs st)) = store st
     \<and> store (snd (afterDeployRecord env specs deployment recs st)) = store st
     \<and> (disableTriggers (options deployment) \<and> (\<forall>n. \<not> triggerSetupFails env n) \<longrightarrow>
          triggerSetup (org (snd (beforeDeployRecord env specs deployment recs st))) = Some False
          \<and> triggerSetup (org (snd (afterDeployRecord env specs deployment recs st))) = Some True)"
    using g1 g2 a b i1 i2 s1 s2 t by (intro conjI)
qed

theorem cancelled_handlers_witness:
  "beforeDeployRecordGroup exampleDeployerEnv [(throwingSpec, anyRecordFilter)] cancelledDeployment
       [accountGroup] exampleState = (None, exampleState)
   \<and> invocations (snd (beforeDeployRecord exampleDeployerEnv [(throwingSpec, anyRecordFilter)]
       cancelledDeployment [accountRecord] exampleState)) = []
   \<and> triggerSetup (org (snd (beforeDeployRecord exampleDeployerEnv [(throwingSpec, anyRecordFilter)]
       cancelledDeployment [accountRecord] exampleState))) = Some False
   \<and> triggerSetup (org (snd (afterDeployRecord exampleDeployerEnv [(throwingSpec, anyRecordFilter)]
       cancelledDeployment [accountRecord] deployedState))) = Some True
   \<and> invocations (snd (beforeDeployRecord exampleDeployerEnv [(throwingSpec, anyRecordFilter)]
       (cancelledDeployment\<lparr>isCancelled := False\<rparr>) [accountRecord] exampleState))
       = [(''throwing'', ''beforeDeployRecord'', [RecordArray [accountRecord]])]"
proof -
  have c: "isCancelled cancelledDeployment"
    and d: "disableTriggers (options cancelledDeployment)"
    by (simp_all add: cancelledDeployment_def)
  have f: "\<forall>n. \<not> triggerSetupFails exampleDeployerEnv n"
    by (simp add: exampleDeployerEnv_def)
  note t1 = cancelled_handlers [where deployment = cancelledDeployment and env = exampleDeployerEnv
      and specs = "[(throwingSpec, anyRecordFilter)]" and groups = "[accountGroup]"
      and recs = "[accountRecord]" and st = exampleState, rule_format, OF c]
  note t2 = cancelled_handlers [where deployment = cancelledDeployment and env = exampleDeployerEnv
      and specs = "[(throwingSpec, anyRecordFilter)]" and groups = "[accountGroup]"
      and recs = "[accountRecord]" and st = deployedState, rule_format, OF c]
  have w1: "beforeDeployRecordGroup exampleDeployerEnv [(throwingSpec, anyRecordFilter)] cancelledDeployment
       [accountGroup] exampleState = (None, exampleState)"
    using t1 by blast
  have w2: "invocations (snd (beforeDeployRecord exampleDeployerEnv [(throwingSpec, anyRecordFilter)]
       cancelledDeployment [accountRecord] exampleState)) = []"
    using t1 by (simp add: exampleState_def)
  have w3: "triggerSetup (org (snd (beforeDeployRecord exampleDeployerEnv [(throwingSpec, anyRecordFilter)]
       cancelledDeployment [accountRecord] exampleState))) = Some False"
    using t1 d f by blast
  have w4: "triggerSetup (org (snd (afterDeployRecord exampleDeployerEnv [(throwingSpec, anyRecordFilter)]
       cancelledDeployment [accountRecord] deployedState))) = Some True"
    using t2 d f by blast
  have n: "narrowParams exampleDeployerEnv anyRecordFilter [RecordArray [accountRecord]]
      = Inr (Some [RecordArray [accountRecord]])"
    by (simp add: narrowParams_def Let_def example_defs filter_defs)
  have w5: "invocations (snd (beforeDeployRecord exampleDeployerEnv [(throwingSpec, anyRecordFilter)]
       (cancelledDeployment\<lparr>isCancelled := False\<rparr>) [accountRecord] exampleState))
       = [(''throwing'', ''beforeDeployRecord'', [RecordArray [accountRecord]])]"
    by (simp add: beforeDeployRecord_def cancelledDeployment_def strictOptions_def
        setVlocityTriggerState_def exampleDeployerEnv_def exampleState_def Let_def n [unfolded exampleDeployerEnv_def]
        throwingSpec_def)
  show ?thesis using w1 w2 w3 w4 w5 by (intro conjI)
qed

lemma handleSpecFunctionError_warn_status:
  assumes "errorSeverity opts = Some ''warn''"
  shows "status (store (handleSpecFunctionError ev err opts st) k) = status (store st k)"
proof -
  let ?m = "addWarning (ev @ '' spec error: '' @ getErrorMessage err)"
  have m: "specErrorMark ev err opts = ?m" using assms by (simp add: specErrorMark_def)
  have "\<And>x. status (?m x) = status x" by (simp add: addWarning_def)
  from mark_preserved [of status ?m, OF this]
  show ?thesis by (simp add: handleSpecFunctionError_def m)
qed

lemma runSpecFunction_warn_status:
  assumes "errorSeverity opts = Some ''warn''" "statusKeepingSpecs ev specs"
  shows "status (store (snd (runSpecFunction env ev opts specs st)) k) = status (store st k)"
  using assms(2)
proof (induction specs arbitrary: st)
  case Nil
  then show ?case by simp
next
  case (Cons a specs)
  obtain spec specFilter where a: "a = (spec, specFilter)" by (cases a)
  have rest: "statusKeepingSpecs ev specs" using Cons.prems by (simp add: statusKeepingSpecs_def)
  have hook: "status (snd (fn ps (store st)) k) = status (store st k)"
    if "specFunctions spec ev = Some fn" for fn ps
  proof -
    have "keepsStatus fn" using Cons.prems that a by (simp add: statusKeepingSpecs_def)
    then show ?thesis unfolding keepsStatus_def by blast
  qed
  show ?case
  proof (cases rule: runSpecFunction_cases [where spec = spec and ev = ev and env = env
        and specFilter = specFilter and opts = opts and specs = specs and st = st])
    case no_function
    then show ?thesis unfolding a using Cons.IH [OF rest] by simp
  next
    case (narrow_error fn e)
    then show ?thesis unfolding a by simp
  next
    case (skipped fn)
    then show ?thesis unfolding a using Cons.IH [OF rest] by simp
  next
    case (returned fn ps)
    then show ?thesis unfolding a using Cons.IH [OF rest] hook by simp
  next
    case (ignored fn ps err)
    then show ?thesis unfolding a
      using Cons.IH [OF rest] hook handleSpecFunctionError_warn_status [OF assms(1)] by simp
  next
    case (propagated fn ps err)
    then show ?thesis unfolding a using hook by simp
  qed
qed

lemma afterDeployRecord_status:
  assumes "statusKeepingSpecs ''afterDeployRecord'' specs"
  shows "status (store (snd (afterDeployRecord env specs deployment recs st)) k) = status (store st k)"
proof -
  let ?opts = "\<lparr> args = [RecordArray recs], ignoreErrors = True, errorSeverity = Some ''warn'' \<rparr>"
  let ?first = "if disableTriggers (options deployment) then setVlocityTriggerState env True st
                else (None, st)"
  obtain r1 st1 where f: "?first = (r1, st1)" by (cases ?first)
  have s1: "store st1 = store st"
    using f setVlocityTriggerState_frameD(1) [of env True st r1 st1] by (auto split: if_splits)
  let ?fields = "[''GlobalKey__c'', ''GlobalKey2__c'', ''GlobalGroupKey__c'']"
  obtain r2 st2 where v: "verifyDeployedFieldData env recs ?fields st1 = (r2, st2)"
    by (cases "verifyDeployedFieldData env recs ?fields st1")
  have s2: "store st2 = store st"
    using verify_frame [of env recs ?fields st1] v s1 by simp
  have run: "status (store (snd (runSpecFunction env ''afterDeployRecord'' ?opts specs st2)) k)
      = status (store st k)"
    using runSpecFunction_warn_status [OF _ assms, of ?opts env st2 k] s2 by simp
  show ?thesis
    unfolding afterDeployRecord_def f
    using s1 s2 v run by (cases r1; cases r2) simp_all
qed

lemma set_mismatchedFieldData:
  "set (mismatchedFieldData s deployed fieldList row)
     = {(f, expectedValue s deployed (rowId row) f) | f.
          f \<in> set fieldList \<and> property (rowValues row) f \<noteq> expectedValue s deployed (rowId row) f}"
  by (auto simp: mismatchedFieldData_def)

lemma set_correctiveUpdates:
  "set (correctiveUpdates s t deployed fieldList rows)
     = {(t, rowId row, mismatchedFieldData s deployed fieldList row) | row.
          row \<in> set rows \<and> mismatchedFieldData s deployed fieldList row \<noteq> []}"
  by (auto simp: correctiveUpdates_def)

lemma collectUpdates_step:
  assumes "List.map_filter (describeSObjectField env t) fieldNames = fieldList" "fieldList \<noteq> []"
    "lookupById env (clock (org st))
       (distinctFirst (map (\<lambda>r. recordId (store st (sourceKey r))) deployed)) fieldList = Inr orgData"
  shows "collectUpdates env fieldNames ((t, deployed) # groups) st recordBatch
     = collectUpdates env fieldNames groups
         (st\<lparr> logged := logged st @ [(LogVerbose, ''Verifying org-data after deployment on '' @ t)],
               org := (org st)\<lparr>clock := Suc (clock (org st))\<rparr> \<rparr>)
         (recordBatch @ correctiveUpdates (store st) t deployed fieldList orgData)"
  using assms by (simp add: Let_def)

lemma setVlocityTriggerState_logged:
  "\<exists>extra. logged (snd (setVlocityTriggerState env b st)) = logged st @ extra"
  by (simp add: setVlocityTriggerState_def Let_def)

lemma verify_executes:
  assumes "collectUpdates env fieldNames (deployedRecordsByType st recs) st [] = (None, st1, recordBatch)"
    "recordBatch \<noteq> []" "\<forall>n. \<not> triggerSetupFails env n"
  shows "\<exists>n. fst (verifyDeployedFieldData env recs fieldNames st) = snd (executeBatch env n recordBatch)
     \<and> set (updateFailures (fst (executeBatch env n recordBatch)))
         \<subseteq> set (logged (snd (verifyDeployedFieldData env recs fieldNames st)))"
proof -
  let ?st2 = "st1\<lparr>logged := logged st1 @ [(LogInfo, ''Updating records with mismatching values'')]\<rparr>"
  let ?st3 = "snd (setVlocityTriggerState env False ?st2)"
  let ?n = "clock (org ?st3)"
  let ?st4 = "?st3\<lparr> org := (org ?st3)\<lparr>clock := Suc (clock (org ?st3))\<rparr>,
                     logged := logged ?st3 @ updateFailures (fst (executeBatch env ?n recordBatch)) \<rparr>"
  have v: "verifyDeployedFieldData env recs fieldNames st
      = (snd (executeBatch env ?n recordBatch), snd (setVlocityTriggerState env True ?st4))"
    unfolding verify_unfold [OF assms(1) [unfolded deployedRecordsByType_def]]
    using assms(2) by (simp add: Let_def setVlocityTriggerState_ok [OF assms(3)])
  obtain extra where "logged (snd (setVlocityTriggerState env True ?st4)) = logged ?st4 @ extra"
    using setVlocityTriggerState_logged by blast
  then have "set (updateFailures (fst (executeBatch env ?n recordBatch)))
      \<subseteq> set (logged (snd (verifyDeployedFieldData env recs fieldNames st)))"
    unfolding v by auto
  then show ?thesis using v by auto
qed

lemma runSpecFunction_ignored:
  assumes "ignoreErrors opts" "args opts \<noteq> []"
  shows "fst (runSpecFunction env ev opts specs st) = None"
proof (induction specs arbitrary: st)
  case Nil
  then show ?case by simp
next
  case (Cons a specs)
  obtain spec specFilter where a: "a = (spec, specFilter)" by (cases a)
  obtain p ps where args: "args opts = p # ps" using assms(2) by (cases "args opts") auto
  show ?case
  proof (cases rule: runSpecFunction_cases [where spec = spec and ev = ev and env = env
        and specFilter = specFilter and opts = opts and specs = specs and st = st])
    case no_function
    then show ?thesis unfolding a using Cons.IH by simp
  next
    case (narrow_error fn e)
    then show ?thesis using narrowParams_no_error [of env specFilter p ps e] args by simp
  next
    case (skipped fn)
    then show ?thesis unfolding a using Cons.IH by simp
  next
    case (returned fn ps)
    then show ?thesis unfolding a using Cons.IH by simp
  next
    case (ignored fn ps err)
    then show ?thesis unfolding a using Cons.IH by simp
  next
    case (propagated fn ps err)
    then show ?thesis using assms(1) by simp
  qed
qed

lemma handleSpecFunctionError_logged:
  "\<exists>extra. logged (handleSpecFunctionError ev err opts st) = logged st @ extra"
  by (simp add: handleSpecFunctionError_def)

lemma runSpecFunction_logged:
  "\<exists>extra. logged (snd (runSpecFunction env ev opts specs st)) = logged st @ extra"
proof (induction specs arbitrary: st)
  case Nil
  then show ?case by simp
next
  case (Cons a specs)
  obtain spec specFilter where a: "a = (spec, specFilter)" by (cases a)
  show ?case
  proof (cases rule: runSpecFunction_cases [where spec = spec and ev = ev and env = env
        and specFilter = specFilter and opts = opts and specs = specs and st = st])
    case no_function
    then show ?thesis unfolding a using Cons.IH by simp
  next
    case (narrow_error fn e)
    then show ?thesis unfolding a by simp
  next
    case (skipped fn)
    then show ?thesis unfolding a using Cons.IH by simp
  next
    case (returned fn ps)
    then show ?thesis unfolding a using Cons.IH [of "afterInvocation spec ev ps fn st"] by simp
  next
    case (ignored fn ps err)
    let ?st1 = "afterInvocation spec ev ps fn st"
    let ?st2 = "handleSpecFunctionError ev err opts ?st1"
    obtain x where x: "logged ?st2 = logged ?st1 @ x"
      using handleSpecFunctionError_logged by blast
    obtain y where y: "logged (snd (runSpecFunction env ev opts specs ?st2)) = logged ?st2 @ y"
      using Cons.IH by blast
    have "logged (snd (runSpecFunction env ev opts specs ?st2)) = logged st @ (x @ y)"
      unfolding y x by simp
    then show ?thesis unfolding a using ignored by auto
  next
    case (propagated fn ps err)
    then show ?thesis unfolding a by simp
  qed
qed

text \<open>
  The handler \<^verbatim>\<open>afterDeployRecord\<close> of a deployment that is not cancelled, from the state
  in which the triggers have been switched on again when the deployment disables them.
\<close>

lemma afterDeployRecord_verifies:
  assumes "\<not> isCancelled deployment"
    and "(if disableTriggers (options deployment) then setVlocityTriggerState env True st
          else (None, st)) = (None, st0)"
  shows "afterDeployRecord env specs deployment recs st =
       (case verifyDeployedFieldData env recs [''GlobalKey__c'', ''GlobalKey2__c'', ''GlobalGroupKey__c''] st0 of
          (Some e, st2) \<Rightarrow> (Some e, st2)
        | (None, st2) \<Rightarrow>
            runSpecFunction env ''afterDeployRecord''
              \<lparr> args = [RecordArray recs], ignoreErrors = True, errorSeverity = Some ''warn'' \<rparr> specs st2)"
    and "fst (afterDeployRecord env specs deployment recs st)
       = fst (verifyDeployedFieldData env recs [''GlobalKey__c'', ''GlobalKey2__c'', ''GlobalGroupKey__c''] st0)"
    and "\<exists>extra. logged (snd (afterDeployRecord env specs deployment recs st))
       = logged (snd (verifyDeployedFieldData env recs
                        [''GlobalKey__c'', ''GlobalKey2__c'', ''GlobalGroupKey__c''] st0)) @ extra"
proof -
  let ?fields = "[''GlobalKey__c'', ''GlobalKey2__c'', ''GlobalGroupKey__c'']"
  let ?opts = "\<lparr> args = [RecordArray recs], ignoreErrors = True, errorSeverity = Some ''warn'' \<rparr>"
  show eq: "afterDeployRecord env specs deployment recs st =
       (case verifyDeployedFieldData env recs ?fields st0 of
          (Some e, st2) \<Rightarrow> (Some e, st2)
        | (None, st2) \<Rightarrow> runSpecFunction env ''afterDeployRecord'' ?opts specs st2)"
    unfolding afterDeployRecord_def assms(2) using assms(1) by simp
  obtain r st2 where v: "verifyDeployedFieldData env recs ?fields st0 = (r, st2)"
    by (cases "verifyDeployedFieldData env recs ?fields st0")
  have run: "fst (runSpecFunction env ''afterDeployRecord'' ?opts specs st2) = None"
    by (rule runSpecFunction_ignored) simp_all
  show "fst (afterDeployRecord env specs deployment recs st) = fst (verifyDeployedFieldData env recs ?fields st0)"
    unfolding eq v using run by (cases r) simp_all
  obtain extra where "logged (snd (runSpecFunction env ''afterDeployRecord'' ?opts specs st2)) = logged st2 @ extra"
    using runSpecFunction_logged by blast
  then show "\<exists>extra. logged (snd (afterDeployRecord env specs deployment recs st))
       = logged (snd (verifyDeployedFieldData env recs ?fields st0)) @ extra"
    unfolding eq v by (cases r) simp_all
qed

lemma verify_no_mismatch:
  assumes "collectUpdates env fieldNames (deployedRecordsByType st recs) st [] = (None, st1, [])"
  shows "verifyDeployedFieldData env recs fieldNames st = (None, st1)"
  unfolding verify_unfold [OF assms [unfolded deployedRecordsByType_def]] by simp

lemma verify_lookup_error:
  assumes "collectUpdates env fieldNames (deployedRecordsByType st recs) st [] = (Some e, st1, collected)"
  shows "verifyDeployedFieldData env recs fieldNames st = (Some e, st1)"
  unfolding verify_unfold [OF assms [unfolded deployedRecordsByType_def]] by simp

text \<open>
  Claim C8. As stated, its last part does not hold: the execution of the corrective update
  is in a block with a cleanup and no handler for errors (lines 265 to 273), so when the
  org rejects the corrective batch as a whole the error is thrown out of the verification
  and of the handler \<^verbatim>\<open>afterDeployRecord\<close>. With the same org and no mismatch nothing is
  executed and nothing is thrown.
\<close>

theorem verification_corrects_without_failing_counterexample:
  "fst (verifyDeployedFieldData rejectingBatchEnv [accountRecord]
          [''GlobalKey__c'', ''GlobalKey2__c'', ''GlobalGroupKey__c''] deployedState)
     = Some (Error ''connection lost'')
   \<and> fst (afterDeployRecord rejectingBatchEnv [] \<lparr> options = strictOptions, isCancelled = False \<rparr>
            [accountRecord] deployedState)
     = Some (Error ''connection lost'')
   \<and> fst (afterDeployRecord matchingOrgEnv [] \<lparr> options = strictOptions, isCancelled = False \<rparr>
            [accountRecord] deployedState)
     = None"
proof -
  let ?fields = "[''GlobalKey__c'', ''GlobalKey2__c'', ''GlobalGroupKey__c'']"
  have sk: "sourceKey accountRecord = ''a1''" "sobjectType accountRecord = ''Account''"
    by (simp_all add: accountRecord_def)
  have st: "store deployedState ''a1'' = deployedAccount"
    by (simp add: deployedState_def)
  have g: "groupBy sobjectType (filter (\<lambda>r. isDeployed (store deployedState (sourceKey r))) [accountRecord])
      = [(''Account'', [accountRecord])]"
    by (simp add: groupBy_def distinctFirst_def isDeployed_def sk st deployedAccount_def)
  have fl: "List.map_filter (describeSObjectField rejectingBatchEnv ''Account'') ?fields = [''GlobalKey__c'']"
    "List.map_filter (describeSObjectField matchingOrgEnv ''Account'') ?fields = [''GlobalKey__c'']"
    by (simp_all add: List.map_filter_def matchingOrgEnv_def rejectingBatchEnv_def exampleDeployerEnv_def)
  have v1: "fst (verifyDeployedFieldData rejectingBatchEnv [accountRecord] ?fields deployedState)
      = Some (Error ''connection lost'')"
    unfolding verifyDeployedFieldData_def g
    by (simp add: fl Let_def correctiveUpdates_def mismatchedFieldData_def expectedValue_def property_def
        sk st deployedAccount_def rejectingBatchEnv_def exampleDeployerEnv_def setVlocityTriggerState_def
        deployedState_def)
  have v2: "fst (verifyDeployedFieldData matchingOrgEnv [accountRecord] ?fields deployedState) = None"
    unfolding verifyDeployedFieldData_def g
    by (simp add: fl Let_def correctiveUpdates_def mismatchedFieldData_def expectedValue_def property_def
        sk st deployedAccount_def matchingOrgEnv_def rejectingBatchEnv_def exampleDeployerEnv_def)
  have a1: "fst (afterDeployRecord rejectingBatchEnv [] \<lparr> options = strictOptions, isCancelled = False \<rparr>
            [accountRecord] deployedState) = Some (Error ''connection lost'')"
    using afterDeployRecord_verifies(2) [of "\<lparr> options = strictOptions, isCancelled = False \<rparr>"
        rejectingBatchEnv deployedState deployedState "[]" "[accountRecord]"] v1
    by (simp add: strictOptions_def)
  have a2: "fst (afterDeployRecord matchingOrgEnv [] \<lparr> options = strictOptions, isCancelled = False \<rparr>
            [accountRecord] deployedState) = None"
    using afterDeployRecord_verifies(2) [of "\<lparr> options = strictOptions, isCancelled = False \<rparr>"
        matchingOrgEnv deployedState deployedState "[]" "[accountRecord]"] v2
    by (simp add: strictOptions_def)
  show ?thesis using v1 a1 a2 by (intro conjI)
qed

text \<open>
  Claim C8, amended. The handler \<^verbatim>\<open>afterDeployRecord\<close> of a deployment that is not
  cancelled runs the verification on the three global key fields and then the spec
  functions; it throws exactly what the verification throws, and what the verification
  logs stays in the log. The verification compares org data with deployed values for the
  records whose status is \<open>Deployed\<close> only. For every row of org data, the fields whose
  value differs from the deployed value, and no others, are put into one update of that
  row with the deployed values, and the updates are executed as one record batch. Failures
  that the execution reports for a record are written to the log. The verification
  changes no record. With no mismatch it executes nothing and does not throw; it throws
  what a lookup throws; with a mismatch and the trigger setting writable it throws exactly
  what the execution of the corrective batch throws; and it never throws when no remote
  operation throws. With spec functions that keep the status, the handler leaves the
  status of every record as it was.
\<close>

theorem verification_corrects_without_failing:
  "verifyDeployedFieldData env recs fieldNames st
     = verifyDeployedFieldData env (filter (\<lambda>r. status (store st (sourceKey r)) = Deployed) recs) fieldNames st
   \<and> store (snd (verifyDeployedFieldData env recs fieldNames st)) = store st
   \<and> ((\<forall>n. \<not> triggerSetupFails env n) \<and> (\<forall>n ids fs. \<exists>rows. lookupById env n ids fs = Inr rows)
        \<and> (\<forall>n b. snd (executeBatch env n b) = None) \<longrightarrow>
        fst (verifyDeployedFieldData env recs fieldNames st) = None)
   \<and> set (mismatchedFieldData s deployed fieldList row)
       = {(f, expectedValue s deployed (rowId row) f) | f.
            f \<in> set fieldList \<and> property (rowValues row) f \<noteq> expectedValue s deployed (rowId row) f}
   \<and> set (correctiveUpdates s t deployed fieldList rows)
       = {(t, rowId row, mismatchedFieldData s deployed fieldList row) | row.
            row \<in> set rows \<and> mismatchedFieldData s deployed fieldList row \<noteq> []}
   \<and> (List.map_filter (describeSObjectField env t) fieldNames = fieldList \<and> fieldList \<noteq> []
        \<and> lookupById env (clock (org st))
             (distinctFirst (map (\<lambda>r. recordId (store st (sourceKey r))) deployed)) fieldList = Inr rows \<longrightarrow>
        collectUpdates env fieldNames ((t, deployed) # groups) st recordBatch
          = collectUpdates env fieldNames groups
              (st\<lparr> logged := logged st @ [(LogVerbose, ''Verifying org-data after deployment on '' @ t)],
                    org := (org st)\<lparr>clock := Suc (clock (org st))\<rparr> \<rparr>)
              (recordBatch @ correctiveUpdates (store st) t deployed fieldList rows))
   \<and> (collectUpdates env fieldNames (deployedRecordsByType st recs) st [] = (None, st1, collected)
        \<and> collected \<noteq> [] \<and> (\<forall>n. \<not> triggerSetupFails env n) \<longrightarrow>
        (\<exists>n. fst (verifyDeployedFieldData env recs fieldNames st) = snd (executeBatch env n collected)
           \<and> set (updateFailures (fst (executeBatch env n collected)))
               \<subseteq> set (logged (snd (verifyDeployedFieldData env recs fieldNames st)))))
   \<and> (collectUpdates env fieldNames (deployedRecordsByType st recs) st [] = (None, st1, []) \<longrightarrow>
        verifyDeployedFieldData env recs fieldNames st = (None, st1))
   \<and> (collectUpdates env fieldNames (deployedRecordsByType st recs) st [] = (Some e, st1, collected) \<longrightarrow>
        verifyDeployedFieldData env recs fieldNames st = (Some e, st1))
   \<and> (statusKeepingSpecs ''afterDeployRecord'' specs \<longrightarrow>
        status (store (snd (afterDeployRecord env specs deployment recs st)) k) = status (store st k))
   \<and> (\<not> isCancelled deployment
        \<and> (if disableTriggers (options deployment) then setVlocityTriggerState env True st
            else (None, st)) = (None, st0) \<longrightarrow>
        afterDeployRecord env specs deployment recs st =
          (case verifyDeployedFieldData env recs [''GlobalKey__c'', ''GlobalKey2__c'', ''GlobalGroupKey__c''] st0 of
             (Some e, st2) \<Rightarrow> (Some e, st2)
           | (None, st2) \<Rightarrow>
               runSpecFunction env ''afterDeployRecord''
                 \<lparr> args = [RecordArray recs], ignoreErrors = True, errorSeverity = Some ''warn'' \<rparr> specs st2)
        \<and> fst (afterDeployRecord env specs deployment recs st)
            = fst (verifyDeployedFieldData env recs [''GlobalKey__c'', ''GlobalKey2__c'', ''GlobalGroupKey__c''] st0)
        \<and> (\<exists>extra. logged (snd (afterDeployRecord env specs deployment recs st))
              = logged (snd (verifyDeployedFieldData env recs
                               [''GlobalKey__c'', ''GlobalKey2__c'', ''GlobalGroupKey__c''] st0)) @ extra))"
proof -
  have c1: "verifyDeployedFieldData env recs fieldNames st
     = verifyDeployedFieldData env (filter (\<lambda>r. status (store st (sourceKey r)) = Deployed) recs) fieldNames st"
    by (rule verify_deployed_only)
  have c2: "store (snd (verifyDeployedFieldData env recs fieldNames st)) = store st"
    using verify_frame by blast
  have c3: "(\<forall>n. \<not> triggerSetupFails env n) \<and> (\<forall>n ids fs. \<exists>rows. lookupById env n ids fs = Inr rows)
        \<and> (\<forall>n b. snd (executeBatch env n b) = None) \<longrightarrow>
        fst (verifyDeployedFieldData env recs fieldNames st) = None"
    using verify_no_error by blast
  have c6: "List.map_filter (describeSObjectField env t) fieldNames = fieldList \<and> fieldList \<noteq> []
        \<and> lookupById env (clock (org st))
             (distinctFirst (map (\<lambda>r. recordId (store st (sourceKey r))) deployed)) fieldList = Inr rows \<longrightarrow>
        collectUpdates env fieldNames ((t, deployed) # groups) st recordBatch
          = collectUpdates env fieldNames groups
              (st\<lparr> logged := logged st @ [(LogVerbose, ''Verifying org-data after deployment on '' @ t)],
                    org := (org st)\<lparr>clock := Suc (clock (org st))\<rparr> \<rparr>)
              (recordBatch @ correctiveUpdates (store st) t deployed fieldList rows)"
    using collectUpdates_step by blast
  have c7: "collectUpdates env fieldNames (deployedRecordsByType st recs) st [] = (None, st1, collected)
        \<and> collected \<noteq> [] \<and> (\<forall>n. \<not> triggerSetupFails env n) \<longrightarrow>
        (\<exists>n. fst (verifyDeployedFieldData env recs fieldNames st) = snd (executeBatch env n collected)
           \<and> set (updateFailures (fst (executeBatch env n collected)))
               \<subseteq> set (logged (snd (verifyDeployedFieldData env recs fieldNames st))))"
    using verify_executes by blast
  have c7a: "collectUpdates env fieldNames (deployedRecordsByType st recs) st [] = (None, st1, []) \<longrightarrow>
        verifyDeployedFieldData env recs fieldNames st = (None, st1)"
    using verify_no_mismatch by blast
  have c7b: "collectUpdates env fieldNames (deployedRecordsByType st recs) st [] = (Some e, st1, collected) \<longrightarrow>
        verifyDeployedFieldData env recs fieldNames st = (Some e, st1)"
    using verify_lookup_error by blast
  have c8: "statusKeepingSpecs ''afterDeployRecord'' specs \<longrightarrow>
        status (store (snd (afterDeployRecord env specs deployment recs st)) k) = status (store st k)"
    using afterDeployRecord_status by blast
  have c9: "\<not> isCancelled deployment
        \<and> (if disableTriggers (options deployment) then setVlocityTriggerState env True st
            else (None, st)) = (None, st0) \<longrightarrow>
        afterDeployRecord env specs deployment recs st =
          (case verifyDeployedFieldData env recs [''GlobalKey__c'', ''GlobalKey2__c'', ''GlobalGroupKey__c''] st0 of
             (Some e, st2) \<Rightarrow> (Some e, st2)
           | (None, st2) \<Rightarrow>
               runSpecFunction env ''afterDeployRecord''
                 \<lparr> args = [RecordArray recs], ignoreErrors = True, errorSeverity = Some ''warn'' \<rparr> specs st2)
        \<and> fst (afterDeployRecord env specs deployment recs st)
            = fst (verifyDeployedFieldData env recs [''GlobalKey__c'', ''GlobalKey2__c'', ''GlobalGroupKey__c''] st0)
        \<and> (\<exists>extra. logged (snd (afterDeployRecord env specs deployment recs st))
              = logged (snd (verifyDeployedFieldData env recs
                               [''GlobalKey__c'', ''GlobalKey2__c'', ''GlobalGroupKey__c''] st0)) @ extra)"
  proof (intro impI, elim conjE)
    assume h: "\<not> isCancelled deployment"
      "(if disableTriggers (options deployment) then setVlocityTriggerState env True st
        else (None, st)) = (None, st0)"
    show "afterDeployRecord env specs deployment recs st =
          (case verifyDeployedFieldData env recs [''GlobalKey__c'', ''GlobalKey2__c'', ''GlobalGroupKey__c''] st0 of
             (Some e, st2) \<Rightarrow> (Some e, st2)
           | (None, st2) \<Rightarrow>
               runSpecFunction env ''afterDeployRecord''
                 \<lparr> args = [RecordArray recs], ignoreErrors = True, errorSeverity = Some ''warn'' \<rparr> specs st2)
        \<and> fst (afterDeployRecord env specs deployment recs st)
            = fst (verifyDeployedFieldData env recs [''GlobalKey__c'', ''GlobalKey2__c'', ''GlobalGroupKey__c''] st0)
        \<and> (\<exists>extra. logged (snd (afterDeployRecord env specs deployment recs st))
              = logged (snd (verifyDeployedFieldData env recs
                               [''GlobalKey__c'', ''GlobalKey2__c'', ''GlobalGroupKey__c''] st0)) @ extra)"
      using afterDeployRecord_verifies [OF h] by (intro conjI)
  qed
  show ?thesis
    using c1 c2 c3 set_mismatchedFieldData [of s deployed fieldList row]
      set_correctiveUpdates [of s t deployed fieldList rows] c6 c7 c7a c7b c8 c9
    by (intro conjI)
qed

theorem verification_corrects_without_failing_witness:
  "fst (verifyDeployedFieldData exampleDeployerEnv [accountRecord, contactRecord]
         [''GlobalKey__c'', ''GlobalKey2__c'', ''GlobalGroupKey__c''] deployedState) = None
   \<and> store (snd (verifyDeployedFieldData exampleDeployerEnv [accountRecord, contactRecord]
         [''GlobalKey__c'', ''GlobalKey2__c'', ''GlobalGroupKey__c''] deployedState)) = store deployedState
   \<and> correctiveUpdates (store deployedState) ''Account'' [accountRecord] [''GlobalKey__c'']
         [\<lparr> rowId = ''001'', rowValues = [(''GlobalKey__c'', VString ''changed'')] \<rparr>]
       = [(''Account'', ''001'', [(''GlobalKey__c'', VString ''key-1'')])]
   \<and> (LogError, ''Field update failed for 001 -- locked'')
       \<in> set (logged (snd (verifyDeployedFieldData exampleDeployerEnv [accountRecord, contactRecord]
         [''GlobalKey__c'', ''GlobalKey2__c'', ''GlobalGroupKey__c''] deployedState)))
   \<and> status (store (snd (afterDeployRecord exampleDeployerEnv [(throwingSpec, anyRecordFilter)]
         \<lparr> options = strictOptions, isCancelled = False \<rparr> [accountRecord] deployedState)) ''a1'') = Deployed
   \<and> fst (afterDeployRecord exampleDeployerEnv [(throwingSpec, anyRecordFilter)]
         \<lparr> options = strictOptions, isCancelled = False \<rparr> [accountRecord, contactRecord] deployedState) = None
   \<and> (LogError, ''Field update failed for 001 -- locked'')
       \<in> set (logged (snd (afterDeployRecord exampleDeployerEnv [(throwingSpec, anyRecordFilter)]
         \<lparr> options = strictOptions, isCancelled = False \<rparr> [accountRecord, contactRecord] deployedState)))"
proof -
  let ?recs = "[accountRecord, contactRecord]"
  let ?fields = "[''GlobalKey__c'', ''GlobalKey2__c'', ''GlobalGroupKey__c'']"
  let ?row = "\<lparr> rowId = ''001'', rowValues = [(''GlobalKey__c'', VString ''changed'')] \<rparr>"
  let ?update = "(''Account'', ''001'', [(''GlobalKey__c'', VString ''key-1'')])"
  note t = verification_corrects_without_failing [where env = exampleDeployerEnv and recs = ?recs
      and fieldNames = ?fields and st = deployedState]
  have h1: "\<forall>n. \<not> triggerSetupFails exampleDeployerEnv n"
    and h2: "\<forall>n ids fs. \<exists>rows. lookupById exampleDeployerEnv n ids fs = Inr rows"
    and h3: "\<forall>n b. snd (executeBatch exampleDeployerEnv n b) = None"
    by (simp_all add: exampleDeployerEnv_def)
  have w1: "fst (verifyDeployedFieldData exampleDeployerEnv ?recs ?fields deployedState) = None"
    using t h1 h2 h3 by blast
  have w2: "store (snd (verifyDeployedFieldData exampleDeployerEnv ?recs ?fields deployedState))
      = store deployedState"
    using t by blast
  have sk: "sourceKey accountRecord = ''a1''" "sourceKey contactRecord = ''c1''"
    "sobjectType accountRecord = ''Account''"
    by (simp_all add: accountRecord_def contactRecord_def)
  have st: "store deployedState ''a1'' = deployedAccount" "store deployedState ''c1'' = pendingRecord"
    by (simp_all add: deployedState_def)
  have w3: "correctiveUpdates (store deployedState) ''Account'' [accountRecord] [''GlobalKey__c''] [?row]
       = [?update]"
    by (simp add: correctiveUpdates_def mismatchedFieldData_def expectedValue_def property_def sk st
        deployedAccount_def)
  have g: "deployedRecordsByType deployedState ?recs = [(''Account'', [accountRecord])]"
    by (simp add: deployedRecordsByType_def groupBy_def distinctFirst_def isDeployed_def sk st
        deployedAccount_def pendingRecord_def)
  have fl: "List.map_filter (describeSObjectField exampleDeployerEnv ''Account'') ?fields = [''GlobalKey__c'']"
    by (simp add: List.map_filter_def exampleDeployerEnv_def)
  have lk: "lookupById exampleDeployerEnv n ids fs = Inr [?row]" for n ids fs
    by (simp add: exampleDeployerEnv_def)
  have c: "collectUpdates exampleDeployerEnv ?fields (deployedRecordsByType deployedState ?recs) deployedState []
      = (None,
         deployedState\<lparr> logged := logged deployedState @ [(LogVerbose, ''Verifying org-data after deployment on '' @ ''Account'')],
                        org := (org deployedState)\<lparr>clock := Suc (clock (org deployedState))\<rparr> \<rparr>,
         [?update])"
    unfolding g
    using t [where t = "''Account''" and fieldList = "[''GlobalKey__c'']" and deployed = "[accountRecord]"
        and rows = "[?row]" and groups = "[]" and recordBatch = "[]"] fl lk w3
    by (simp del: collectUpdates.simps(2))
  have ex: "updateFailures (fst (executeBatch exampleDeployerEnv n [?update]))
      = [(LogError, ''Field update failed for 001 -- locked'')]" for n
    by (simp add: updateFailures_def exampleDeployerEnv_def List.map_filter_def)
  have w4: "(LogError, ''Field update failed for 001 -- locked'')
       \<in> set (logged (snd (verifyDeployedFieldData exampleDeployerEnv ?recs ?fields deployedState)))"
  proof -
    let ?st1 = "deployedState\<lparr> logged := logged deployedState @ [(LogVerbose, ''Verifying org-data after deployment on '' @ ''Account'')],
                        org := (org deployedState)\<lparr>clock := Suc (clock (org deployedState))\<rparr> \<rparr>"
    have "collectUpdates exampleDeployerEnv ?fields (deployedRecordsByType deployedState ?recs) deployedState []
            = (None, ?st1, [?update])
        \<and> [?update] \<noteq> [] \<and> (\<forall>n. \<not> triggerSetupFails exampleDeployerEnv n) \<longrightarrow>
        (\<exists>n. fst (verifyDeployedFieldData exampleDeployerEnv ?recs ?fields deployedState)
               = snd (executeBatch exampleDeployerEnv n [?update])
           \<and> set (updateFailures (fst (executeBatch exampleDeployerEnv n [?update])))
               \<subseteq> set (logged (snd (verifyDeployedFieldData exampleDeployerEnv ?recs ?fields deployedState))))"
      by (rule t [where collected = "[?update]" and ?st1.0 = ?st1, THEN conjunct2, THEN conjunct2,
            THEN conjunct2, THEN conjunct2, THEN conjunct2, THEN conjunct2, THEN conjunct1])
    then obtain n where "set (updateFailures (fst (executeBatch exampleDeployerEnv n [?update])))
        \<subseteq> set (logged (snd (verifyDeployedFieldData exampleDeployerEnv ?recs ?fields deployedState)))"
      using c h1 by blast
    then show ?thesis unfolding ex by simp
  qed
  have k: "statusKeepingSpecs ''afterDeployRecord'' [(throwingSpec, anyRecordFilter)]"
    by (simp add: statusKeepingSpecs_def keepsStatus_def throwingSpec_def)
  have w5: "status (store (snd (afterDeployRecord exampleDeployerEnv [(throwingSpec, anyRecordFilter)]
         \<lparr> options = strictOptions, isCancelled = False \<rparr> [accountRecord] deployedState)) ''a1'') = Deployed"
  proof -
    have "statusKeepingSpecs ''afterDeployRecord'' [(throwingSpec, anyRecordFilter)] \<longrightarrow>
        status (store (snd (afterDeployRecord exampleDeployerEnv [(throwingSpec, anyRecordFilter)]
         \<lparr> options = strictOptions, isCancelled = False \<rparr> [accountRecord] deployedState)) ''a1'')
          = status (store deployedState ''a1'')"
      by (rule verification_corrects_without_failing [where env = exampleDeployerEnv
        and specs = "[(throwingSpec, anyRecordFilter)]" and recs = "[accountRecord]"
        and deployment = "\<lparr> options = strictOptions, isCancelled = False \<rparr>"
        and st = deployedState and k = "''a1''", THEN conjunct2, THEN conjunct2,
        THEN conjunct2, THEN conjunct2, THEN conjunct2, THEN conjunct2, THEN conjunct2,
        THEN conjunct2, THEN conjunct2, THEN conjunct1])
    then show ?thesis using k by (simp add: st deployedAccount_def)
  qed
  let ?deployment = "\<lparr> options = strictOptions, isCancelled = False \<rparr>"
  let ?specs = "[(throwingSpec, anyRecordFilter)]"
  have h: "\<not> isCancelled ?deployment
        \<and> (if disableTriggers (options ?deployment) then setVlocityTriggerState exampleDeployerEnv True deployedState
            else (None, deployedState)) = (None, deployedState) \<longrightarrow>
        afterDeployRecord exampleDeployerEnv ?specs ?deployment ?recs deployedState =
          (case verifyDeployedFieldData exampleDeployerEnv ?recs ?fields deployedState of
             (Some e, st2) \<Rightarrow> (Some e, st2)
           | (None, st2) \<Rightarrow>
               runSpecFunction exampleDeployerEnv ''afterDeployRecord''
                 \<lparr> args = [RecordArray ?recs], ignoreErrors = True, errorSeverity = Some ''warn'' \<rparr> ?specs st2)
        \<and> fst (afterDeployRecord exampleDeployerEnv ?specs ?deployment ?recs deployedState)
            = fst (verifyDeployedFieldData exampleDeployerEnv ?recs ?fields deployedState)
        \<and> (\<exists>extra. logged (snd (afterDeployRecord exampleDeployerEnv ?specs ?deployment ?recs deployedState))
              = logged (snd (verifyDeployedFieldData exampleDeployerEnv ?recs ?fields deployedState)) @ extra)"
    by (rule verification_corrects_without_failing [where env = exampleDeployerEnv
        and specs = ?specs and recs = ?recs and deployment = ?deployment
        and st = deployedState and ?st0.0 = deployedState, THEN conjunct2, THEN conjunct2,
        THEN conjunct2, THEN conjunct2, THEN conjunct2, THEN conjunct2, THEN conjunct2,
        THEN conjunct2, THEN conjunct2, THEN conjunct2])
  have pre: "\<not> isCancelled ?deployment
        \<and> (if disableTriggers (options ?deployment) then setVlocityTriggerState exampleDeployerEnv True deployedState
            else (None, deployedState)) = (None, deployedState)"
    by (simp add: strictOptions_def)
  have hc: "fst (afterDeployRecord exampleDeployerEnv ?specs ?deployment ?recs deployedState)
            = fst (verifyDeployedFieldData exampleDeployerEnv ?recs ?fields deployedState)
        \<and> (\<exists>extra. logged (snd (afterDeployRecord exampleDeployerEnv ?specs ?deployment ?recs deployedState))
              = logged (snd (verifyDeployedFieldData exampleDeployerEnv ?recs ?fields deployedState)) @ extra)"
    using h [rule_format, OF pre] by (elim conjE) (intro conjI)
  have w6: "fst (afterDeployRecord exampleDeployerEnv ?specs ?deployment ?recs deployedState) = None"
    using hc [THEN conjunct1] w1 by (rule trans)
  obtain extra where "logged (snd (afterDeployRecord exampleDeployerEnv ?specs ?deployment ?recs deployedState))
      = logged (snd (verifyDeployedFieldData exampleDeployerEnv ?recs ?fields deployedState)) @ extra"
    using hc [THEN conjunct2] by (elim exE)
  then have w7: "(LogError, ''Field update failed for 001 -- locked'')
       \<in> set (logged (snd (afterDeployRecord exampleDeployerEnv ?specs ?deployment ?recs deployedState)))"
    using w4 by simp
  show ?thesis using w1 w2 w3 w4 w5 w6 w7 by (intro conjI)
qed

section \<open>Properties of the run\<close>

lemma beforeDeployRecord_ok:
  assumes "\<forall>n. \<not> triggerSetupFails env n"
  shows "fst (beforeDeployRecord env specs deployment recs st) = None"
proof -
  let ?first = "if disableTriggers (options deployment) then setVlocityTriggerState env False st
                else (None, st)"
  obtain r1 st1 where f: "?first = (r1, st1)" by (cases ?first)
  have r1: "r1 = None"
    using f setVlocityTriggerState_ok(1) [OF assms, of False st] by (auto split: if_splits)
  show ?thesis unfolding beforeDeployRecord_def f r1
    by (simp add: runSpecFunction_ignored)
qed

lemma beforeDeployRecord_trigger:
  assumes "\<forall>n. \<not> triggerSetupFails env n" "disableTriggers (options deployment)"
  shows "triggerSetup (org (snd (beforeDeployRecord env specs deployment recs st))) = Some False"
proof -
  obtain r1 st1 where f: "setVlocityTriggerState env False st = (r1, st1)"
    by (cases "setVlocityTriggerState env False st")
  have r1: "r1 = None" and t: "triggerSetup (org st1) = Some False"
    using f setVlocityTriggerState_ok [OF assms(1), of False st] by simp_all
  show ?thesis unfolding beforeDeployRecord_def
    using assms(2) f r1 t by (simp add: runSpecFunction_org)
qed

lemma afterDeployRecord_trigger:
  assumes "\<forall>n. \<not> triggerSetupFails env n" "disableTriggers (options deployment)"
  shows "triggerSetup (org (snd (afterDeployRecord env specs deployment recs st))) = Some True"
proof -
  let ?opts = "\<lparr> args = [RecordArray recs], ignoreErrors = True, errorSeverity = Some ''warn'' \<rparr>"
  let ?fields = "[''GlobalKey__c'', ''GlobalKey2__c'', ''GlobalGroupKey__c'']"
  obtain r1 st1 where f: "setVlocityTriggerState env True st = (r1, st1)"
    by (cases "setVlocityTriggerState env True st")
  have r1: "r1 = None" and t1: "triggerSetup (org st1) = Some True"
    using f setVlocityTriggerState_ok [OF assms(1), of True st] by simp_all
  obtain r2 st2 where v: "verifyDeployedFieldData env recs ?fields st1 = (r2, st2)"
    by (cases "verifyDeployedFieldData env recs ?fields st1")
  have t2: "triggerSetup (org st2) = Some True"
    using verify_trigger [OF assms(1), of recs ?fields st1] v t1 by auto
  have t3: "triggerSetup (org (snd (runSpecFunction env ''afterDeployRecord'' ?opts specs st2))) = Some True"
    using t2 by (simp add: runSpecFunction_org)
  show ?thesis unfolding afterDeployRecord_def
    using assms(2) f r1 t1 v t2 t3 by (cases r2) simp_all
qed

lemma deployRecords_trigger:
  assumes "\<forall>n. \<not> triggerSetupFails env n" "disableTriggers opts"
  shows "triggerSetup (org (snd (deployRecords env specs opts wave st))) = Some True"
proof -
  let ?before = "beforeDeployRecord env specs \<lparr>options = opts, isCancelled = cancelledBefore wave\<rparr>
                   (waveRecords wave) st"
  obtain r1 st1 where b: "?before = (r1, st1)" by (cases ?before)
  have r1: "r1 = None"
    using beforeDeployRecord_ok [OF assms(1), of specs "\<lparr>options = opts, isCancelled = cancelledBefore wave\<rparr>"
        "waveRecords wave" st] b by simp
  obtain thrown st2 where w: "waveBatch wave st1 = (thrown, st2)" by (cases "waveBatch wave st1")
  let ?after = "afterDeployRecord env specs \<lparr>options = opts, isCancelled = cancelledAfter wave\<rparr>
                  (waveRecords wave) st2"
  obtain r3 st3 where a: "?after = (r3, st3)" by (cases ?after)
  have t: "triggerSetup (org st3) = Some True"
    using afterDeployRecord_trigger [OF assms(1), of "\<lparr>options = opts, isCancelled = cancelledAfter wave\<rparr>"
        specs "waveRecords wave" st2] assms(2) a by simp
  show ?thesis unfolding deployRecords_def b r1
    using w a t by (cases r3) simp_all
qed

lemma startDeployment_trigger:
  assumes "\<forall>n. \<not> triggerSetupFails env n" "disableTriggers opts" "waves \<noteq> []"
  shows "triggerSetup (org (snd (startDeployment env specs opts waves st))) = Some True"
  using assms(3)
proof (induction waves arbitrary: st)
  case Nil
  then show ?case by simp
next
  case (Cons wave waves)
  obtain r st1 where d: "deployRecords env specs opts wave st = (r, st1)"
    by (cases "deployRecords env specs opts wave st")
  have t: "triggerSetup (org st1) = Some True"
    using deployRecords_trigger [OF assms(1,2), of specs wave st] d by simp
  show ?case
  proof (cases r)
    case None
    show ?thesis
    proof (cases "waves = []")
      case True
      then show ?thesis using d None t by simp
    next
      case False
      then show ?thesis using d None Cons.IH by simp
    qed
  next
    case (Some e)
    then show ?thesis using d t by simp
  qed
qed

lemma afterDeployRecord_ok:
  assumes "\<forall>n. \<not> triggerSetupFails env n"
    and "\<forall>n ids fs. \<exists>rows. lookupById env n ids fs = Inr rows"
    and "\<forall>n b. snd (executeBatch env n b) = None"
  shows "fst (afterDeployRecord env specs deployment recs st) = None"
proof -
  let ?first = "if disableTriggers (options deployment) then setVlocityTriggerState env True st
                else (None, st)"
  let ?fields = "[''GlobalKey__c'', ''GlobalKey2__c'', ''GlobalGroupKey__c'']"
  obtain r1 st1 where f: "?first = (r1, st1)" by (cases ?first)
  have r1: "r1 = None"
    using f setVlocityTriggerState_ok(1) [OF assms(1), of True st] by (auto split: if_splits)
  obtain r2 st2 where v: "verifyDeployedFieldData env recs ?fields st1 = (r2, st2)"
    by (cases "verifyDeployedFieldData env recs ?fields st1")
  have r2: "r2 = None"
    using verify_no_error [OF assms, of recs ?fields st1] v by simp
  show ?thesis unfolding afterDeployRecord_def f r1
    using v r2 by (simp add: runSpecFunction_ignored)
qed

lemma deployRecords_result:
  assumes "\<forall>n. \<not> triggerSetupFails env n"
    and "\<forall>n ids fs. \<exists>rows. lookupById env n ids fs = Inr rows"
    and "\<forall>n b. snd (executeBatch env n b) = None"
  shows "fst (deployRecords env specs opts wave st)
     = fst (waveBatch wave (snd (beforeDeployRecord env specs
              \<lparr>options = opts, isCancelled = cancelledBefore wave\<rparr> (waveRecords wave) st)))"
proof -
  let ?before = "beforeDeployRecord env specs \<lparr>options = opts, isCancelled = cancelledBefore wave\<rparr>
                   (waveRecords wave) st"
  obtain r1 st1 where b: "?before = (r1, st1)" by (cases ?before)
  have r1: "r1 = None"
    using beforeDeployRecord_ok [OF assms(1), of specs "\<lparr>options = opts, isCancelled = cancelledBefore wave\<rparr>"
        "waveRecords wave" st] b by simp
  obtain thrown st2 where w: "waveBatch wave st1 = (thrown, st2)" by (cases "waveBatch wave st1")
  let ?after = "afterDeployRecord env specs \<lparr>options = opts, isCancelled = cancelledAfter wave\<rparr>
                  (waveRecords wave) st2"
  obtain r3 st3 where a: "?after = (r3, st3)" by (cases ?after)
  have r3: "r3 = None"
    using afterDeployRecord_ok [OF assms, of specs "\<lparr>options = opts, isCancelled = cancelledAfter wave\<rparr>"
        "waveRecords wave" st2] a by simp
  show ?thesis unfolding deployRecords_def b r1
    using w a r3 by simp
qed

text \<open>
  Claim C1. A wave of the run throws what its batch throws, after the handler following
  the batch has run. With the option \<^verbatim>\<open>disableTriggers\<close>, and remote operations on the trigger
  setting that do not fail: the handler before a batch switches the triggers off, and the
  handler after a batch leaves them on, whether or not the deployment is cancelled, the
  verification throws or a spec function throws. In the run, where the event after a
  batch is emitted also when the batch throws, the triggers are on after every wave and
  at the end of every run that deployed a wave, also when the run ends with a thrown
  error. The corrective update of the verification switches the triggers on in its
  cleanup, whether or not the update throws.
\<close>

theorem triggers_restored:
  "(disableTriggers opts \<and> (\<forall>n. \<not> triggerSetupFails env n) \<longrightarrow>
      triggerSetup (org (snd (beforeDeployRecord env specs \<lparr>options = opts, isCancelled = c\<rparr> recs st)))
        = Some False
      \<and> triggerSetup (org (snd (afterDeployRecord env specs \<lparr>options = opts, isCancelled = c\<rparr> recs st)))
        = Some True
      \<and> triggerSetup (org (snd (deployRecords env specs opts wave st))) = Some True
      \<and> (waves \<noteq> [] \<longrightarrow>
           triggerSetup (org (snd (startDeployment env specs opts waves st))) = Some True))
   \<and> ((\<forall>n. \<not> triggerSetupFails env n)
        \<and> collectUpdates env fieldNames (deployedRecordsByType st recs) st [] = (None, st1, collected)
        \<and> collected \<noteq> [] \<longrightarrow>
        triggerSetup (org (snd (verifyDeployedFieldData env recs fieldNames st))) = Some True)
   \<and> ((\<forall>n. \<not> triggerSetupFails env n) \<and> (\<forall>n ids fs. \<exists>rows. lookupById env n ids fs = Inr rows)
        \<and> (\<forall>n b. snd (executeBatch env n b) = None) \<longrightarrow>
        fst (deployRecords env specs opts wave st)
          = fst (waveBatch wave (snd (beforeDeployRecord env specs
                   \<lparr>options = opts, isCancelled = cancelledBefore wave\<rparr> (waveRecords wave) st))))"
proof -
  have r: "(\<forall>n. \<not> triggerSetupFails env n) \<and> (\<forall>n ids fs. \<exists>rows. lookupById env n ids fs = Inr rows)
        \<and> (\<forall>n b. snd (executeBatch env n b) = None) \<longrightarrow>
        fst (deployRecords env specs opts wave st)
          = fst (waveBatch wave (snd (beforeDeployRecord env specs
                   \<lparr>options = opts, isCancelled = cancelledBefore wave\<rparr> (waveRecords wave) st)))"
    using deployRecords_result by blast
  have a: "disableTriggers opts \<and> (\<forall>n. \<not> triggerSetupFails env n) \<longrightarrow>
      triggerSetup (org (snd (beforeDeployRecord env specs \<lparr>options = opts, isCancelled = c\<rparr> recs st)))
        = Some False
      \<and> triggerSetup (org (snd (afterDeployRecord env specs \<lparr>options = opts, isCancelled = c\<rparr> recs st)))
        = Some True
      \<and> triggerSetup (org (snd (deployRecords env specs opts wave st))) = Some True
      \<and> (waves \<noteq> [] \<longrightarrow>
           triggerSetup (org (snd (startDeployment env specs opts waves st))) = Some True)"
  proof (intro impI, elim conjE)
    assume d: "disableTriggers opts" and f: "\<forall>n. \<not> triggerSetupFails env n"
    have d': "disableTriggers (options \<lparr>options = opts, isCancelled = c\<rparr>)" using d by simp
    show "triggerSetup (org (snd (beforeDeployRecord env specs \<lparr>options = opts, isCancelled = c\<rparr> recs st)))
        = Some False
      \<and> triggerSetup (org (snd (afterDeployRecord env specs \<lparr>options = opts, isCancelled = c\<rparr> recs st)))
        = Some True
      \<and> triggerSetup (org (snd (deployRecords env specs opts wave st))) = Some True
      \<and> (waves \<noteq> [] \<longrightarrow>
           triggerSetup (org (snd (startDeployment env specs opts waves st))) = Some True)"
      using beforeDeployRecord_trigger [OF f d'] afterDeployRecord_trigger [OF f d']
        deployRecords_trigger [OF f d] startDeployment_trigger [OF f d]
      by (intro conjI impI) blast+
  qed
  have b: "(\<forall>n. \<not> triggerSetupFails env n)
        \<and> collectUpdates env fieldNames (deployedRecordsByType st recs) st [] = (None, st1, collected)
        \<and> collected \<noteq> [] \<longrightarrow>
        triggerSetup (org (snd (verifyDeployedFieldData env recs fieldNames st))) = Some True"
    using verify_finally [of env fieldNames st recs st1 collected]
    unfolding deployedRecordsByType_def by blast
  show ?thesis using a b r by (intro conjI)
qed

theorem triggers_restored_witness:
  "fst (startDeployment exampleDeployerEnv [(throwingSpec, anyRecordFilter)]
          (strictOptions\<lparr>disableTriggers := True\<rparr>) [throwingWave] exampleState)
     = Some (Error ''connection lost'')
   \<and> triggerSetup (org (snd (startDeployment exampleDeployerEnv [(throwingSpec, anyRecordFilter)]
          (strictOptions\<lparr>disableTriggers := True\<rparr>) [throwingWave] exampleState))) = Some True
   \<and> triggerSetup (org (snd (beforeDeployRecord exampleDeployerEnv [(throwingSpec, anyRecordFilter)]
          \<lparr>options = strictOptions\<lparr>disableTriggers := True\<rparr>, isCancelled = False\<rparr>
          [accountRecord] exampleState))) = Some False"
proof -
  let ?opts = "strictOptions\<lparr>disableTriggers := True\<rparr>"
  let ?specs = "[(throwingSpec, anyRecordFilter)]"
  have d: "disableTriggers ?opts" by simp
  have f: "\<forall>n. \<not> triggerSetupFails exampleDeployerEnv n"
    by (simp add: exampleDeployerEnv_def)
  note t = triggers_restored [where opts = ?opts and env = exampleDeployerEnv and specs = ?specs
      and st = exampleState and waves = "[throwingWave]" and recs = "[accountRecord]" and c = False,
      THEN conjunct1, rule_format, OF conjI, OF d f]
  have w2: "triggerSetup (org (snd (startDeployment exampleDeployerEnv ?specs ?opts [throwingWave]
      exampleState))) = Some True"
    using t by simp
  have w3: "triggerSetup (org (snd (beforeDeployRecord exampleDeployerEnv ?specs
          \<lparr>options = ?opts, isCancelled = False\<rparr> [accountRecord] exampleState))) = Some False"
    using t by simp
  have h2: "\<forall>n ids fs. \<exists>rows. lookupById exampleDeployerEnv n ids fs = Inr rows"
    and h3: "\<forall>n b. snd (executeBatch exampleDeployerEnv n b) = None"
    by (simp_all add: exampleDeployerEnv_def)
  have "fst (deployRecords exampleDeployerEnv ?specs ?opts throwingWave exampleState)
      = fst (waveBatch throwingWave (snd (beforeDeployRecord exampleDeployerEnv ?specs
              \<lparr>options = ?opts, isCancelled = cancelledBefore throwingWave\<rparr>
              (waveRecords throwingWave) exampleState)))"
    using triggers_restored [where env = exampleDeployerEnv and specs = ?specs and opts = ?opts
        and wave = throwingWave and st = exampleState, THEN conjunct2, THEN conjunct2] f h2 h3
    by blast
  then have e: "fst (deployRecords exampleDeployerEnv ?specs ?opts throwingWave exampleState)
      = Some (Error ''connection lost'')"
    by (simp add: throwingWave_def)
  have w1: "fst (startDeployment exampleDeployerEnv ?specs ?opts [throwingWave] exampleState)
     = Some (Error ''connection lost'')"
    using e
    by (cases "deployRecords exampleDeployerEnv ?specs ?opts throwingWave exampleState") simp
  show ?thesis using w1 w2 w3 by (intro conjI)
qed

section \<open>Properties of the orchestration\<close>

lemma propagateSkips_result:
  "propagateSkips opts env recs rs st k = st k
     \<or> (st k = Pending \<and> propagateSkips opts env recs rs st k = Skipped)"
proof (induction rs arbitrary: st)
  case Nil
  then show ?case by simp
next
  case (Cons r rs)
  show ?case
  proof (cases "mustSkip opts env recs st r")
    case True
    then have p: "st (recordKey r) = Pending" by (simp add: mustSkip_def)
    define st' where "st' = st(recordKey r := Skipped)"
    have step: "propagateSkips opts env recs (r # rs) st = propagateSkips opts env recs rs st'"
      using True by (simp add: st'_def)
    have ih: "propagateSkips opts env recs rs st' k = st' k
         \<or> (st' k = Pending \<and> propagateSkips opts env recs rs st' k = Skipped)"
      by (rule Cons.IH)
    show ?thesis
    proof (cases "k = recordKey r")
      case True
      then have "st' k = Skipped" by (simp add: st'_def)
      then have "propagateSkips opts env recs rs st' k = Skipped" using ih by auto
      then show ?thesis unfolding step using p True by simp
    next
      case False
      then have "st' k = st k" by (simp add: st'_def)
      then show ?thesis unfolding step using ih by auto
    qed
  next
    case False
    then show ?thesis using Cons.IH [of st] by simp
  qed
qed

lemma propagateSkips_settled:
  "st k \<noteq> Pending \<Longrightarrow> propagateSkips opts env recs rs st k = st k"
  using propagateSkips_result [of opts env recs rs st k] by auto











































end
